(* ===== verification/Prelude.thy ===== *)
theory Prelude
  imports Main "HOL-Library.Word" "HOL-Library.State_Monad"
begin

unbundle bit_operations_syntax

text \<open>
  Shared vocabulary of the development: the machine types of the C++ sources
  (\<open>std::byte\<close>, the fixed-width unsigned integers, byte arrays), \<open>std::string\<close> and its
  view as bytes, \<open>memcmp\<close>, the steady clock, and the big-endian (network order) layout of
  16, 32 and 64 bit integers with the lemma that reading undoes writing.  The collections
  \<open>be_simps\<close> (integer layout), \<open>pid_simps\<close> (identifiers) and \<open>wire_simps\<close> (framing) carry
  the proofs of the component theories.
\<close>

named_theorems be_simps \<open>layout of big-endian integers\<close>
named_theorems pid_simps \<open>peer identifiers and their textual form\<close>
named_theorems wire_simps \<open>readers and writers of the wire format\<close>

section \<open>Machine types\<close>

type_synonym byte = "8 word"
type_synonym u8 = "8 word"
type_synonym u16 = "16 word"
type_synonym u32 = "32 word"
type_synonym u64 = "64 word"

text \<open>
  A \<open>std::array<std::byte, n>\<close>, a \<open>std::vector<std::byte>\<close> and a
  \<open>std::span<const std::byte>\<close> are lists of bytes; the fixed length of an array is part of
  the well-formedness predicate of the structure that holds it.  Object sizes
  (\<open>std::size_t\<close>) are natural numbers.
\<close>

type_synonym bytes = "byte list"

text \<open>
  \<open>std::chrono::steady_clock::time_point\<close> counts nanoseconds; the configuration's durations
  are milliseconds and are converted when they meet a clock value.
\<close>

type_synonym time_point = int

definition ms :: "int \<Rightarrow> int" where
  "ms d = d * 1000000"

lemma ms_mono [simp]: "ms a \<le> ms b \<longleftrightarrow> a \<le> b"
  by (simp add: ms_def)

lemma ms_pos [simp]: "0 < ms a \<longleftrightarrow> 0 < a"
  by (simp add: ms_def)

lemma ms_nonpos [simp]: "ms a \<le> 0 \<longleftrightarrow> a \<le> 0"
  by (simp add: ms_def)

lemma ms_nonneg [simp]: "0 \<le> ms a \<longleftrightarrow> 0 \<le> a"
  by (simp add: ms_def)

section \<open>Strings as bytes\<close>

definition byte_of_char :: "char \<Rightarrow> byte" where
  "byte_of_char c = of_nat (of_char c)"

definition char_of_byte :: "byte \<Rightarrow> char" where
  "char_of_byte b = char_of (unat b)"

definition str_bytes :: "string \<Rightarrow> bytes" where
  "str_bytes s = map byte_of_char s"

definition bytes_str :: "bytes \<Rightarrow> string" where
  "bytes_str bs = map char_of_byte bs"

lemma char_of_byte_of_char [simp]: "char_of_byte (byte_of_char c) = c"
proof -
  have "(of_char c :: nat) < 256" by simp
  then have "unat (of_nat (of_char c) :: byte) = (of_char c :: nat)"
    by (simp add: unat_of_nat)
  then show ?thesis by (simp add: char_of_byte_def byte_of_char_def)
qed

lemma byte_of_char_of_byte [simp]: "byte_of_char (char_of_byte b) = b"
proof -
  have "unat b < 256" using unsigned_less [of b, where ?'a = nat] by simp
  then show ?thesis by (simp add: char_of_byte_def byte_of_char_def)
qed

lemma byte_of_char_inject [simp]: "byte_of_char a = byte_of_char b \<longleftrightarrow> a = b"
  by (metis char_of_byte_of_char)

lemma bytes_str_str_bytes [simp]: "bytes_str (str_bytes s) = s"
  by (simp add: bytes_str_def str_bytes_def comp_def)

lemma str_bytes_bytes_str [simp]: "str_bytes (bytes_str bs) = bs"
  by (simp add: bytes_str_def str_bytes_def comp_def)

lemma length_str_bytes [simp]: "length (str_bytes s) = length s"
  by (simp add: str_bytes_def)

lemma length_bytes_str [simp]: "length (bytes_str bs) = length bs"
  by (simp add: bytes_str_def)

lemma str_bytes_take [simp]: "str_bytes (take n s) = take n (str_bytes s)"
  by (simp add: str_bytes_def take_map)

lemma bytes_str_take [simp]: "bytes_str (take n bs) = take n (bytes_str bs)"
  by (simp add: bytes_str_def take_map)

lemma str_bytes_inject [simp]: "str_bytes s = str_bytes t \<longleftrightarrow> s = t"
  by (metis bytes_str_str_bytes)

lemma str_bytes_append [simp]: "str_bytes (s @ t) = str_bytes s @ str_bytes t"
  by (simp add: str_bytes_def)

section \<open>\<open>memcmp\<close>\<close>

text \<open>
  \<open>memcmp\<close> compares byte by byte as unsigned values; its sign is the result.  The sources
  only compare arrays of one length; the two unequal-length equations complete the order.
\<close>

fun memcmp :: "bytes \<Rightarrow> bytes \<Rightarrow> int" where
  "memcmp [] [] = 0"
| "memcmp [] (y # ys) = -1"
| "memcmp (x # xs) [] = 1"
| "memcmp (x # xs) (y # ys) = (if x < y then -1 else if y < x then 1 else memcmp xs ys)"

lemma memcmp_refl [simp]: "memcmp xs xs = 0"
  by (induction xs) auto

lemma memcmp_eq_0 [simp]: "memcmp xs ys = 0 \<longleftrightarrow> xs = ys"
  by (induction xs ys rule: memcmp.induct) auto

lemma memcmp_antisym: "memcmp xs ys = - memcmp ys xs"
  by (induction xs ys rule: memcmp.induct) auto

lemma memcmp_range: "memcmp xs ys \<in> {-1, 0, 1}"
  by (induction xs ys rule: memcmp.induct) auto

lemma memcmp_trans_le: "memcmp xs ys \<le> 0 \<Longrightarrow> memcmp ys zs \<le> 0 \<Longrightarrow> memcmp xs zs \<le> 0"
proof (induction xs ys arbitrary: zs rule: memcmp.induct)
  case (2 y ys)
  then show ?case by (cases zs) auto
next
  case (4 x xs y ys)
  then show ?case by (cases zs) (auto split: if_splits)
qed auto

section \<open>Big-endian integers\<close>

text \<open>
  \<open>byte_at k v\<close> is \<open>static_cast<std::byte>((v >> k) & 0xFF)\<close>, the one expression all the
  writers of the sources use.
\<close>

definition byte_at :: "nat \<Rightarrow> 'a::len word \<Rightarrow> byte" where
  "byte_at k v = ucast (drop_bit k v AND 0xFF)"

lemma bit_255: "bit (255 :: 'a::len word) n \<longleftrightarrow> n < 8 \<and> n < LENGTH('a)"
proof -
  have "(255 :: 'a word) = mask 8" by (simp add: mask_eq_exp_minus_1)
  then have "bit (255 :: 'a word) n \<longleftrightarrow> bit (mask 8 :: 'a word) n" by (simp only:)
  then show ?thesis by (auto simp: bit_simps)
qed

lemma bit_byte_at [be_simps]: "bit (byte_at k v) n \<longleftrightarrow> n < 8 \<and> bit v (k + n)"
  unfolding byte_at_def bit_unsigned_iff bit_and_iff bit_255 bit_drop_bit_eq
  by (auto dest: bit_imp_le_length)

definition be16 :: "u16 \<Rightarrow> bytes" where
  "be16 v = [byte_at 8 v, byte_at 0 v]"

definition be32 :: "u32 \<Rightarrow> bytes" where
  "be32 v = [byte_at 24 v, byte_at 16 v, byte_at 8 v, byte_at 0 v]"

definition be64 :: "u64 \<Rightarrow> bytes" where
  "be64 v = map (\<lambda>i. byte_at (i * 8) v) (rev [0..<8])"

text \<open>\<open>shift_in v b\<close> is \<open>(v << 8) | b\<close>.\<close>

definition shift_in :: "'a::len word \<Rightarrow> byte \<Rightarrow> 'a word" where
  "shift_in v b = push_bit 8 v OR ucast b"

lemma bit_shift_in [be_simps]:
  "bit (shift_in v b) n \<longleftrightarrow> n < LENGTH('a) \<and> (if n < 8 then bit b n else bit v (n - 8))"
  for v :: "'a::len word"
  by (auto simp: shift_in_def bit_simps dest: bit_imp_le_length)

lemma length_be [simp]: "length (be16 v) = 2" "length (be32 w) = 4" "length (be64 x) = 8"
  by (simp_all add: be16_def be32_def be64_def)

text \<open>Shifting the byte at offset \<open>k\<close> into the part above it gives the part from \<open>k\<close> on.\<close>

lemma shift_in_byte_at: "shift_in (drop_bit (k + 8) w) (byte_at k w) = drop_bit k w"
  by (rule bit_word_eqI) (auto simp: be_simps bit_drop_bit_eq dest: bit_imp_le_length)

lemma shift_in_byte_at_top:
  "LENGTH('a) = k + 8 \<Longrightarrow> shift_in 0 (byte_at k w) = drop_bit k w" for w :: "'a::len word"
  using shift_in_byte_at [of k w] by (simp add: drop_bit_eq_zero_iff_not_bit_last)

lemma be16_shift_in [simp]: "foldl shift_in 0 (be16 v) = v"
  by (simp add: be16_def shift_in_byte_at_top shift_in_byte_at [of 0, simplified])

lemma be32_shift_in [simp]: "foldl shift_in 0 (be32 v) = v"
  by (simp add: be32_def shift_in_byte_at_top shift_in_byte_at [of 16, simplified]
      shift_in_byte_at [of 8, simplified] shift_in_byte_at [of 0, simplified])

lemma upt_8: "[0..<8] = [0, 1, 2, 3, 4, 5, 6, 7 :: nat]"
  by (simp add: upt_rec)

lemma be64_shift_in [simp]: "foldl shift_in 0 (be64 v) = v"
  by (simp add: be64_def upt_8 shift_in_byte_at_top shift_in_byte_at [of 48, simplified]
      shift_in_byte_at [of 40, simplified] shift_in_byte_at [of 32, simplified]
      shift_in_byte_at [of 24, simplified] shift_in_byte_at [of 16, simplified]
      shift_in_byte_at [of 8, simplified] shift_in_byte_at [of 0, simplified])

lemma be16_inject [simp]: "be16 v = be16 w \<longleftrightarrow> v = w"
  by (metis be16_shift_in)

lemma be32_inject [simp]: "be32 v = be32 w \<longleftrightarrow> v = w"
  by (metis be32_shift_in)

lemma be64_inject [simp]: "be64 v = be64 w \<longleftrightarrow> v = w"
  by (metis be64_shift_in)

section \<open>Lists and maps\<close>

lemma drop_append_exact [simp]: "length xs = n \<Longrightarrow> drop n (xs @ ys) = ys"
  by simp

lemma take_append_exact [simp]: "length xs = n \<Longrightarrow> take n (xs @ ys) = xs"
  by simp

lemma unat_byte_lt [simp]: "unat (b :: byte) < 256"
  using unsigned_less [of b, where ?'a = nat] by simp

end
