(* ===== verification/PeerId.thy ===== *)
theory PeerId
  imports Prelude
begin

text \<open>
  The 128-bit node identifier of \<open>include/multimaster/peer_id.hpp\<close> and \<open>src/peer_id.cpp\<close>:
  its order (\<open>memcmp\<close> over the raw bytes, the tie-break of the dial race), its textual form
  (\<open>to_string\<close>, \<open>from_string\<close>), random generation, the zero test that marks a broadcast
  destination, and its hash.  Shown here: the order is total; printing and parsing are inverse
  to each other, and the parser accepts exactly the texts that print to an identifier once
  dashes are dropped and letters are lowered; the hash separates identifiers that differ in
  one byte.
\<close>

unbundle bit_operations_syntax

section \<open>The type and its order\<close>

datatype peer_id = Peer_id (pid_bytes: bytes)

definition wf_id :: "peer_id \<Rightarrow> bool" where
  "wf_id i \<longleftrightarrow> length (pid_bytes i) = 16"

text \<open>\<open>peer_id{}\<close>: the value-initialised, all-zero identifier.\<close>

definition zero_id :: peer_id where
  "zero_id = Peer_id (replicate 16 0)"

instantiation peer_id :: linorder
begin

definition less_eq_peer_id :: "peer_id \<Rightarrow> peer_id \<Rightarrow> bool" where
  "a \<le> b \<longleftrightarrow> memcmp (pid_bytes a) (pid_bytes b) \<le> 0"

definition less_peer_id :: "peer_id \<Rightarrow> peer_id \<Rightarrow> bool" where
  "a < b \<longleftrightarrow> memcmp (pid_bytes a) (pid_bytes b) < 0"

instance
proof
  fix x y z :: peer_id
  show "x < y \<longleftrightarrow> x \<le> y \<and> \<not> y \<le> x"
    using memcmp_antisym [of "pid_bytes x" "pid_bytes y"]
    by (auto simp: less_eq_peer_id_def less_peer_id_def)
  show "x \<le> x" by (simp add: less_eq_peer_id_def)
  show "x \<le> y \<Longrightarrow> y \<le> z \<Longrightarrow> x \<le> z"
    using memcmp_trans_le by (auto simp: less_eq_peer_id_def)
  show "x \<le> y \<Longrightarrow> y \<le> x \<Longrightarrow> x = y"
    using memcmp_antisym [of "pid_bytes x" "pid_bytes y"]
    by (auto simp: less_eq_peer_id_def peer_id.expand)
  show "x \<le> y \<or> y \<le> x"
    using memcmp_antisym [of "pid_bytes x" "pid_bytes y"]
    by (auto simp: less_eq_peer_id_def)
qed

end

text \<open>\<open>is_zero\<close>: the loop returns false at the first non-zero byte.\<close>

fun is_zero_bytes :: "bytes \<Rightarrow> bool" where
  "is_zero_bytes [] = True"
| "is_zero_bytes (b # bs) = (if b \<noteq> 0 then False else is_zero_bytes bs)"

definition is_zero :: "peer_id \<Rightarrow> bool" where
  "is_zero i = is_zero_bytes (pid_bytes i)"

lemma is_zero_bytes_iff: "is_zero_bytes bs \<longleftrightarrow> bs = replicate (length bs) 0"
  by (induction bs) auto

lemma is_zero_iff [pid_simps]: "wf_id i \<Longrightarrow> is_zero i \<longleftrightarrow> i = zero_id"
  by (cases i) (simp add: is_zero_def is_zero_bytes_iff wf_id_def zero_id_def)

lemma zero_id_simps [simp]: "wf_id zero_id" "is_zero zero_id"
  by (simp_all add: wf_id_def zero_id_def is_zero_def is_zero_bytes_iff)

section \<open>Textual form\<close>

definition kHex :: string where
  "kHex = ''0123456789abcdef''"

text \<open>
  \<open>hex_val\<close>: the value of a hexadecimal digit, \<open>-1\<close> for any other character.  Characters are
  compared by their codes.
\<close>

definition hex_val :: "char \<Rightarrow> int" where
  "hex_val c =
     (let v = int (of_char c) in
      if v \<ge> 48 \<and> v \<le> 57 then v - 48
      else if v \<ge> 97 \<and> v \<le> 102 then v - 97 + 10
      else if v \<ge> 65 \<and> v \<le> 70 then v - 65 + 10
      else -1)"

definition hex_byte :: "byte \<Rightarrow> string" where
  "hex_byte b = [kHex ! unat (drop_bit 4 b), kHex ! unat (b AND 0x0F)]"

definition to_string :: "peer_id \<Rightarrow> string" where
  "to_string i = concat (map hex_byte (pid_bytes i))"

text \<open>
  The loop of \<open>from_string\<close> over the remaining text; \<open>bs\<close> is the array being filled and
  \<open>nibble\<close> the number of digits read.
\<close>

fun from_string_loop :: "string \<Rightarrow> bytes \<Rightarrow> nat \<Rightarrow> (bytes \<times> nat) option" where
  "from_string_loop [] bs nibble = Some (bs, nibble)"
| "from_string_loop (c # cs) bs nibble =
     (if c = CHR ''-'' then from_string_loop cs bs nibble
      else let v = hex_val c in
        if v < 0 then None
        else if nibble \<ge> 32 then None
        else let d = nibble div 2;
                 bs' = (if nibble mod 2 = 0 then bs[d := push_bit 4 (word_of_int v)]
                        else bs[d := (bs ! d) OR word_of_int v])
             in from_string_loop cs bs' (nibble + 1))"

definition from_string :: "string \<Rightarrow> peer_id option" where
  "from_string sv =
     (case from_string_loop sv (replicate 16 0) 0 of
        None \<Rightarrow> None
      | Some (bs, nibble) \<Rightarrow> if nibble \<noteq> 32 then None else Some (Peer_id bs))"

text \<open>\<open>generate\<close>: four 32-bit draws of the random device, each laid out low byte first.\<close>

definition generate :: "(nat \<Rightarrow> u32) \<Rightarrow> peer_id" where
  "generate rd =
     Peer_id (concat (map (\<lambda>k. let r = rd k in [byte_at 0 r, byte_at 8 r, byte_at 16 r, byte_at 24 r])
                [0..<4]))"

lemma wf_generate [simp]: "wf_id (generate rd)"
  by (simp add: wf_id_def generate_def Let_def upt_rec)

section \<open>Hash\<close>

text \<open>\<open>std::hash<mm::peer_id>\<close>, FNV-1a with 64-bit wrap-around.\<close>

definition fnv_step :: "u64 \<Rightarrow> byte \<Rightarrow> u64" where
  "fnv_step h b = (h XOR ucast b) * 1099511628211"

definition hash_peer_id :: "peer_id \<Rightarrow> u64" where
  "hash_peer_id i = foldl fnv_step 1469598103934665603 (pid_bytes i)"

section \<open>Reference notions for the textual form\<close>

text \<open>\<open>lower_hex\<close> lowers the letters \<open>A\<close> to \<open>F\<close> and keeps every other character.\<close>

definition lower_hex :: "char \<Rightarrow> char" where
  "lower_hex c = (if (of_char c :: nat) \<in> {65..70} then char_of (of_char c + 32 :: nat) else c)"

text \<open>The bytes spelled by a text of hexadecimal digits, two digits to a byte.\<close>

fun hex_pairs :: "string \<Rightarrow> bytes" where
  "hex_pairs (a # b # cs) =
     (push_bit 4 (word_of_int (hex_val a)) OR word_of_int (hex_val b)) # hex_pairs cs"
| "hex_pairs _ = []"

abbreviation hex_digits :: "string \<Rightarrow> bool" where
  "hex_digits cs \<equiv> \<forall>c \<in> set cs. 0 \<le> hex_val c"

section \<open>Nibbles\<close>

lemma nibble_word:
  assumes "0 \<le> a" "a < 16"
  shows "(word_of_int a :: byte) AND 15 = word_of_int a" "drop_bit 4 (word_of_int a :: byte) = 0"
    "unat (word_of_int a :: byte) = nat a"
proof -
  have u: "unat (word_of_int a :: byte) = nat a" using assms by (simp add: unat_eq_nat_uint uint_word_of_int_eq take_bit_eq_mod)
  show "unat (word_of_int a :: byte) = nat a" by (rule u)
  have "unat (drop_bit 4 (word_of_int a :: byte)) = 0"
    using assms by (simp add: drop_bit_eq_div unat_div_distrib u)
  then show "drop_bit 4 (word_of_int a :: byte) = 0" by (simp add: unat_eq_zero)
  have "take_bit 4 (word_of_int a :: byte) = word_of_int a"
    by (rule word_unat_eq_iff [THEN iffD2])
       (use assms in \<open>simp add: take_bit_eq_mod unat_mod_distrib u\<close>)
  then show "(word_of_int a :: byte) AND 15 = word_of_int a"
    by (simp add: take_bit_eq_mask mask_eq_exp_minus_1)
qed

lemma mask4: "(15 :: byte) = mask 4"
  by (simp add: mask_eq_exp_minus_1)

lemma nibbles_join:
  assumes "0 \<le> a" "a < 16" "0 \<le> b" "b < 16"
  shows "drop_bit 4 (push_bit 4 (word_of_int a :: byte) OR word_of_int b) = word_of_int a"
    and "(push_bit 4 (word_of_int a :: byte) OR word_of_int b) AND 15 = word_of_int b"
proof -
  have "take_bit 4 (word_of_int a :: byte) = word_of_int a"
    using nibble_word(1) [OF assms(1,2)] by (simp add: take_bit_eq_mask mask4)
  then have "drop_bit 4 (push_bit 4 (word_of_int a :: byte)) = word_of_int a"
    by (simp add: bit_eq_iff bit_simps)
  then show "drop_bit 4 (push_bit 4 (word_of_int a :: byte) OR word_of_int b) = word_of_int a"
    using nibble_word(2) [OF assms(3,4)] by simp
  have "push_bit 4 (word_of_int a :: byte) AND 15 = 0"
    unfolding mask4 by (rule bit_eqI) (simp add: bit_simps)
  then show "(push_bit 4 (word_of_int a :: byte) OR word_of_int b) AND 15 = word_of_int b"
    using nibble_word(1) [OF assms(3,4)] by (simp add: bit.conj_disj_distrib2)
qed

lemma nibbles_split: "push_bit 4 (drop_bit 4 b) OR (b AND 15) = b" for b :: byte
  unfolding mask4 by (rule bit_eqI) (auto simp: bit_simps)

lemma nibble_lt: "unat (drop_bit 4 b) < 16" "unat (b AND 15) < 16" for b :: byte
proof -
  show "unat (drop_bit 4 b) < 16"
    using unat_byte_lt [of b] by (simp add: drop_bit_eq_div unat_div_distrib less_mult_imp_div_less)
  have "unat (b AND 15) \<le> unat (15 :: byte)"
    by (rule word_and_le1 [THEN word_le_nat_alt [THEN iffD1]])
  then show "unat (b AND 15) < 16" by simp
qed

section \<open>Printing and parsing\<close>

lemma less_16_cases:
  "v < 16 \<Longrightarrow> v \<in> {0, 1, 2, 3, 4, 5, 6, 7, 8, 9, 10, 11, 12, 13, 14, 15 :: nat}"
proof -
  assume "v < 16"
  then have "v \<in> set [0..<16]" by simp
  then show ?thesis by (simp add: upt_rec numeral_eq_Suc del: set_upt)
qed

lemma kHex_lower:
  assumes "v < 16"
  shows "kHex ! v = lower_hex c \<longleftrightarrow> hex_val c = int v"
proof -
  have e: "\<And>d. d = lower_hex c \<longleftrightarrow> (of_char d :: nat) = of_char (lower_hex c)"
    by (simp)
  have l: "(of_char (lower_hex c) :: nat) =
      (if (of_char c :: nat) \<in> {65..70} then of_char c + 32 else of_char c)"
    by (auto simp: lower_hex_def)
  from less_16_cases [OF assms] show ?thesis
    unfolding e l hex_val_def Let_def kHex_def
    by (elim insertE emptyE) (auto)
qed

lemma hex_val_lt: "hex_val c < 16"
  by (simp add: hex_val_def Let_def)

lemma hex_val_dash [simp]: "hex_val CHR ''-'' = -1"
  by (simp add: hex_val_def)

lemma loop_filter:
  "from_string_loop cs bs n = from_string_loop (filter (\<lambda>c. c \<noteq> CHR ''-'') cs) bs n"
  by (induction cs bs n rule: from_string_loop.induct) (simp_all add: Let_def)

lemma loop_pairs:
  assumes "CHR ''-'' \<notin> set ds" "length bs = 16" "k \<le> 16"
  shows "from_string_loop ds bs (2 * k) = Some (bs', 32) \<longleftrightarrow>
    length ds = 32 - 2 * k \<and> hex_digits ds \<and> bs' = take k bs @ hex_pairs ds"
  using assms
proof (induction ds arbitrary: bs k rule: hex_pairs.induct)
  case (1 a b cs)
  show ?case
  proof (cases "0 \<le> hex_val a \<and> 0 \<le> hex_val b \<and> k < 16")
    case True
    let ?w = "push_bit 4 (word_of_int (hex_val a)) OR word_of_int (hex_val b) :: byte"
    have step: "from_string_loop (a # b # cs) bs (2 * k) = from_string_loop cs (bs[k := ?w]) (2 * (k + 1))"
      using True "1.prems" by (auto simp: Let_def)
    have upd: "take (k + 1) (bs[k := ?w]) = take k bs @ [?w]"
      using True "1.prems" by (simp add: take_Suc_conv_app_nth)
    have "from_string_loop cs (bs[k := ?w]) (2 * (k + 1)) = Some (bs', 32) \<longleftrightarrow>
      length cs = 32 - 2 * (k + 1) \<and> hex_digits cs \<and> bs' = take (k + 1) (bs[k := ?w]) @ hex_pairs cs"
      by (rule "1.IH") (use True "1.prems" in auto)
    then show ?thesis
      unfolding step upd using True by auto
  next
    case False
    then show ?thesis using "1.prems" by (auto simp: Let_def)
  qed
qed (auto simp: Let_def)

lemma hex_byte_eq:
  assumes "0 \<le> hex_val a" "0 \<le> hex_val b"
  shows "hex_byte (push_bit 4 (word_of_int (hex_val a)) OR word_of_int (hex_val b)) = [lower_hex a, lower_hex b]"
  using assms kHex_lower [of "nat (hex_val a)" a] kHex_lower [of "nat (hex_val b)" b]
  unfolding hex_byte_def nibbles_join [OF assms(1) hex_val_lt assms(2) hex_val_lt]
    nibble_word(3) [OF assms(1) hex_val_lt] nibble_word(3) [OF assms(2) hex_val_lt]
  by (simp add: hex_val_lt nat_less_iff)

lemma hex_byte_pairs:
  "hex_byte w = [lower_hex a, lower_hex b] \<longleftrightarrow> 0 \<le> hex_val a \<and> 0 \<le> hex_val b \<and>
    w = push_bit 4 (word_of_int (hex_val a)) OR word_of_int (hex_val b)"
proof
  assume "hex_byte w = [lower_hex a, lower_hex b]"
  then have "hex_val a = int (unat (drop_bit 4 w))" "hex_val b = int (unat (w AND 15))"
    using kHex_lower nibble_lt by (auto simp: hex_byte_def)
  then show "0 \<le> hex_val a \<and> 0 \<le> hex_val b \<and>
    w = push_bit 4 (word_of_int (hex_val a)) OR word_of_int (hex_val b)"
    by (simp add: nibbles_split del: push_bit_of_nat)
qed (simp add: hex_byte_eq)

lemma to_string_pairs:
  "concat (map hex_byte ws) = map lower_hex ds \<longleftrightarrow>
    length ds = 2 * length ws \<and> hex_digits ds \<and> ws = hex_pairs ds"
proof (induction ws arbitrary: ds)
  case Nil
  then show ?case by (cases ds) auto
next
  case (Cons w ws)
  consider "ds = []" | a where "ds = [a]" | a b cs where "ds = a # b # cs"
    by (metis neq_Nil_conv)
  then show ?case
  proof cases
    case (3 a b cs)
    have "concat (map hex_byte (w # ws)) = map lower_hex ds \<longleftrightarrow>
      hex_byte w = [lower_hex a, lower_hex b] \<and> concat (map hex_byte ws) = map lower_hex cs"
      by (auto simp: 3 hex_byte_def)
    then show ?thesis using Cons.IH [of cs] 3 by (auto simp: hex_byte_pairs)
  qed (auto simp: hex_byte_def)
qed

lemma length_hex_pairs [simp]: "length (hex_pairs cs) = length cs div 2"
  by (induction cs rule: hex_pairs.induct) auto

lemma from_string_loop_spec:
  "from_string sv = Some i \<longleftrightarrow>
     wf_id i \<and> to_string i = map lower_hex (filter (\<lambda>c. c \<noteq> CHR ''-'') sv)"
proof -
  define ds where "ds = filter (\<lambda>c. c \<noteq> CHR ''-'') sv"
  have dash: "CHR ''-'' \<notin> set ds" by (simp add: ds_def)
  have "from_string sv = Some i \<longleftrightarrow> from_string_loop ds (replicate 16 0) (2 * 0) = Some (pid_bytes i, 32)"
    unfolding from_string_def ds_def
    by (subst loop_filter) (cases i, auto split: option.splits if_splits)
  also have "\<dots> \<longleftrightarrow> length ds = 32 \<and> hex_digits ds \<and> pid_bytes i = hex_pairs ds"
    using loop_pairs [OF dash, of "replicate 16 0" 0 "pid_bytes i"] by simp
  also have "\<dots> \<longleftrightarrow> length (pid_bytes i) = 16 \<and>
      (length ds = 2 * length (pid_bytes i) \<and> hex_digits ds \<and> pid_bytes i = hex_pairs ds)"
  proof (cases "length (pid_bytes i) = 16")
    case False
    have "length ds = 32 \<Longrightarrow> pid_bytes i = hex_pairs ds \<Longrightarrow> length (pid_bytes i) = 16" by simp
    with False show ?thesis by blast
  qed simp
  also have "\<dots> \<longleftrightarrow> wf_id i \<and> to_string i = map lower_hex ds"
    by (simp only: to_string_def to_string_pairs wf_id_def)
  finally show ?thesis by (simp only: ds_def)
qed

text \<open>
  C39: \<open>from_string\<close> accepts exactly the texts that, with their dashes removed and the letters
  lowered, are what \<open>to_string\<close> prints for a 16-byte identifier, and then returns that identifier.
\<close>

theorem from_string_iff:
  "from_string sv = Some i \<longleftrightarrow>
     wf_id i \<and> to_string i = map lower_hex (filter (\<lambda>c. c \<noteq> CHR ''-'') sv)"
  by (rule from_string_loop_spec)

lemma kHex_lower_hex:
  assumes "v < 16"
  shows "lower_hex (kHex ! v) = kHex ! v" "kHex ! v \<noteq> CHR ''-''"
  using less_16_cases [OF assms]
  by (elim insertE emptyE; simp add: kHex_def lower_hex_def)+

lemma to_string_lower [pid_simps]:
  "map lower_hex (filter (\<lambda>c. c \<noteq> CHR ''-'') (to_string i)) = to_string i"
proof -
  have "map lower_hex (filter (\<lambda>c. c \<noteq> CHR ''-'') (concat (map hex_byte bs))) = concat (map hex_byte bs)" for bs
    by (induction bs) (simp_all add: hex_byte_def kHex_lower_hex nibble_lt)
  then show ?thesis by (simp add: to_string_def)
qed

text \<open>Parsing the printed form of an identifier gives the identifier back.\<close>

theorem from_string_to_string:
  assumes "wf_id i"
  shows "from_string (to_string i) = Some i"
  using assms by (simp add: from_string_loop_spec pid_simps)

definition sample_id :: peer_id where
  "sample_id = Peer_id [0, 17, 34, 51, 68, 85, 102, 119, 136, 153, 170, 187, 204, 221, 238, 255]"

theorem from_string_to_string_witness:
  "wf_id sample_id \<and> from_string (to_string sample_id) = Some sample_id"
proof -
  have "wf_id sample_id" by (simp add: sample_id_def wf_id_def)
  then show ?thesis using from_string_to_string by blast
qed

section \<open>The hash\<close>

lemma fnv_prime_inverse: "(1099511628211 :: u64) * 14886173955864302971 = 1"
  by simp

lemma fnv_step_inject_h: "fnv_step h b = fnv_step h' b \<longleftrightarrow> h = h'"
proof
  assume "fnv_step h b = fnv_step h' b"
  then have "(h XOR ucast b) * (1099511628211 * 14886173955864302971) = (h' XOR ucast b) * (1099511628211 * 14886173955864302971)"
    by (simp only: fnv_step_def mult.assoc [symmetric])
  then have "h XOR ucast b = h' XOR ucast b" by (simp only: fnv_prime_inverse mult_1_right)
  then have "(h XOR ucast b) XOR ucast b = (h' XOR ucast b) XOR ucast b" by (simp only:)
  then show "h = h'" by (simp only: xor.assoc xor_self_eq xor.right_neutral)
qed simp

lemma unat_ucast_u64 [simp]: "unat (ucast b :: u64) = unat b" for b :: byte
  by transfer simp

lemma fnv_step_inject_b: "fnv_step h b = fnv_step h b' \<longleftrightarrow> b = b'"
proof
  assume "fnv_step h b = fnv_step h b'"
  then have "(h XOR ucast b) * (1099511628211 * 14886173955864302971) = (h XOR ucast b') * (1099511628211 * 14886173955864302971)"
    by (simp only: fnv_step_def mult.assoc [symmetric])
  then have "h XOR ucast b = h XOR ucast b'" by (simp only: fnv_prime_inverse mult_1_right)
  then have "h XOR (h XOR ucast b) = h XOR (h XOR ucast b')" by (simp only:)
  then have "(ucast b :: u64) = ucast b'"
    by (simp only: xor.assoc [symmetric] xor_self_eq xor.left_neutral)
  then have "unat (ucast b :: u64) = unat (ucast b' :: u64)" by (simp only:)
  then show "b = b'" by (simp add: word_unat_eq_iff)
qed simp

lemma foldl_fnv_inject: "foldl fnv_step h bs = foldl fnv_step h' bs \<longleftrightarrow> h = h'"
  by (induction bs arbitrary: h h') (simp_all add: fnv_step_inject_h)


lemma hash_split: "hash_peer_id (Peer_id (xs @ c # ys)) =
      foldl fnv_step (fnv_step (foldl fnv_step 1469598103934665603 xs) c) ys"
  by (simp only: hash_peer_id_def peer_id.sel foldl_append foldl_Cons)

text \<open>
  Changing any single byte of an identifier changes its FNV-1a hash, so identifiers that
  differ in one byte never collide in the hash tables keyed by them.
\<close>

theorem hash_separates_one_byte:
  assumes "k < length bs" "b \<noteq> bs ! k"
  shows "hash_peer_id (Peer_id (bs[k := b])) \<noteq> hash_peer_id (Peer_id bs)"
proof
  assume "hash_peer_id (Peer_id (bs[k := b])) = hash_peer_id (Peer_id bs)"
  then have "hash_peer_id (Peer_id (take k bs @ b # drop (Suc k) bs)) =
      hash_peer_id (Peer_id (take k bs @ bs ! k # drop (Suc k) bs))"
    by (simp only: upd_conv_take_nth_drop [OF assms(1)] id_take_nth_drop [OF assms(1), symmetric])
  then show False
    using assms(2) by (simp only: hash_split foldl_fnv_inject fnv_step_inject_b)
qed

theorem hash_separates_one_byte_witness:
  "hash_peer_id (Peer_id ([1, 2, 3][1 := 9])) \<noteq> hash_peer_id (Peer_id [1, 2, 3])"
  using hash_separates_one_byte [of 1 "[1, 2, 3]" 9] by simp

end
