(* ===== verification/Buffer.thy ===== *)
theory Buffer
  imports Prelude
begin

text \<open>
  The growable byte buffer of \<open>src/buffer.hpp\<close>: a vector and a consume cursor, compacted
  lazily.  The locale \<open>byte_queue\<close> is the contract its two users (the inbound and outbound
  side of a connection) rely on: append at the tail, drop from the head.  The interpretation
  \<open>buf\<close> discharges the contract for the implementation, compaction included.
\<close>

section \<open>The implementation\<close>

record buffer =
  buf_vec :: bytes
  buf_head :: nat

definition empty_buffer :: buffer where
  "empty_buffer = \<lparr>buf_vec = [], buf_head = 0\<rparr>"

definition buf_size :: "buffer \<Rightarrow> nat" where
  "buf_size b = length (buf_vec b) - buf_head b"

definition buf_empty :: "buffer \<Rightarrow> bool" where
  "buf_empty b \<longleftrightarrow> buf_size b = 0"

text \<open>The readable region \<open>[data(), data() + size())\<close>.\<close>

definition buf_data :: "buffer \<Rightarrow> bytes" where
  "buf_data b = drop (buf_head b) (buf_vec b)"

definition buf_append :: "bytes \<Rightarrow> buffer \<Rightarrow> buffer" where
  "buf_append s b = b\<lparr>buf_vec := buf_vec b @ s\<rparr>"

text \<open>
  \<open>reserve_tail\<close> grows the vector by \<open>n\<close> value-initialised bytes and returns where they
  start; \<open>fill_tail\<close> is the write of a system call through that pointer; \<open>uncommit\<close> gives
  the unused bytes back.
\<close>

definition reserve_tail :: "nat \<Rightarrow> buffer \<Rightarrow> nat \<times> buffer" where
  "reserve_tail n b = (length (buf_vec b), b\<lparr>buf_vec := buf_vec b @ replicate n 0\<rparr>)"

definition fill_tail :: "nat \<Rightarrow> bytes \<Rightarrow> buffer \<Rightarrow> buffer" where
  "fill_tail at s b =
     b\<lparr>buf_vec := take at (buf_vec b) @ s @ drop (at + length s) (buf_vec b)\<rparr>"

definition uncommit :: "nat \<Rightarrow> buffer \<Rightarrow> buffer" where
  "uncommit unused b = b\<lparr>buf_vec := take (length (buf_vec b) - unused) (buf_vec b)\<rparr>"

text \<open>\<open>consume\<close>: reset when drained, compact when the dead prefix is large.\<close>

definition consume :: "nat \<Rightarrow> buffer \<Rightarrow> buffer" where
  "consume n b =
     (let h = buf_head b + n in
      if h = length (buf_vec b) then \<lparr>buf_vec = [], buf_head = 0\<rparr>
      else if h > 4096 \<and> h * 2 > length (buf_vec b) then \<lparr>buf_vec = drop h (buf_vec b), buf_head = 0\<rparr>
      else b\<lparr>buf_head := h\<rparr>)"

definition buf_clear :: "buffer \<Rightarrow> buffer" where
  "buf_clear b = \<lparr>buf_vec = [], buf_head = 0\<rparr>"

section \<open>The contract\<close>

definition wf_buffer :: "buffer \<Rightarrow> bool" where
  "wf_buffer b \<longleftrightarrow> buf_head b \<le> length (buf_vec b)"

datatype queue_op = Append bytes | Consume nat

text \<open>
  A run of queue operations over any implementation, given by its three operations; a
  \<open>Consume\<close> asks for at most what is there, as every caller does.  The result pairs the bytes
  taken out, in order, with the final state.
\<close>

fun run_ops :: "(bytes \<Rightarrow> 'q \<Rightarrow> 'q) \<Rightarrow> (nat \<Rightarrow> 'q \<Rightarrow> 'q) \<Rightarrow> ('q \<Rightarrow> bytes) \<Rightarrow>
    queue_op list \<Rightarrow> 'q \<Rightarrow> bytes \<times> 'q" where
  "run_ops app con view [] q = ([], q)"
| "run_ops app con view (Append s # ops) q = run_ops app con view ops (app s q)"
| "run_ops app con view (Consume n # ops) q =
     (let m = min n (length (view q));
          (taken, q') = run_ops app con view ops (con m q)
      in (take m (view q) @ taken, q'))"

fun appended :: "queue_op list \<Rightarrow> bytes" where
  "appended [] = []"
| "appended (Append s # ops) = s @ appended ops"
| "appended (Consume n # ops) = appended ops"

locale byte_queue =
  fixes app :: "bytes \<Rightarrow> 'q \<Rightarrow> 'q"
    and con :: "nat \<Rightarrow> 'q \<Rightarrow> 'q"
    and view :: "'q \<Rightarrow> bytes"
    and invar :: "'q \<Rightarrow> bool"
  assumes view_app: "invar q \<Longrightarrow> view (app s q) = view q @ s"
    and view_con: "invar q \<Longrightarrow> n \<le> length (view q) \<Longrightarrow> view (con n q) = drop n (view q)"
    and invar_app: "invar q \<Longrightarrow> invar (app s q)"
    and invar_con: "invar q \<Longrightarrow> n \<le> length (view q) \<Longrightarrow> invar (con n q)"
begin

lemma invar_run: "invar q \<Longrightarrow> invar (snd (run_ops app con view ops q))"
proof (induction ops arbitrary: q)
  case (Cons op ops)
  then show ?case by (cases op) (auto simp: Let_def split_beta invar_app invar_con)
qed simp

text \<open>Conservation: what came out, followed by what is left, is what was there plus what went in.\<close>

lemma run_conserves:
  "invar q \<Longrightarrow> fst (run_ops app con view ops q) @ view (snd (run_ops app con view ops q)) =
     view q @ appended ops"
proof (induction ops arbitrary: q)
  case (Cons op ops)
  show ?case
  proof (cases op)
    case (Append s)
    with Cons show ?thesis by (simp add: invar_app view_app)
  next
    case (Consume n)
    let ?m = "min n (length (view q))"
    have "fst (run_ops app con view ops (con ?m q)) @ view (snd (run_ops app con view ops (con ?m q))) =
        drop ?m (view q) @ appended ops"
      using Cons.IH [of "con ?m q"] Cons.prems by (simp add: invar_con view_con)
    moreover have "view q @ appended ops = take ?m (view q) @ drop ?m (view q) @ appended ops"
      by (metis append.assoc append_take_drop_id)
    ultimately show ?thesis using Consume by (simp add: Let_def split_beta)
  qed
qed simp

end

lemma length_buf_data [simp]: "length (buf_data b) = buf_size b"
  by (simp add: buf_data_def buf_size_def)

interpretation buf: byte_queue buf_append consume buf_data wf_buffer
proof unfold_locales
  fix q :: buffer and s n
  assume wf: "wf_buffer q"
  show "buf_data (buf_append s q) = buf_data q @ s" "wf_buffer (buf_append s q)"
    using wf by (simp_all add: buf_data_def buf_append_def wf_buffer_def)
  assume "n \<le> length (buf_data q)"
  then have "buf_head q + n \<le> length (buf_vec q)"
    using wf by (simp add: wf_buffer_def buf_size_def)
  then show "buf_data (consume n q) = drop n (buf_data q)" "wf_buffer (consume n q)"
    by (auto simp: buf_data_def consume_def wf_buffer_def Let_def add.commute)
qed

lemma wf_empty_buffer [simp]: "wf_buffer empty_buffer" "buf_data empty_buffer = []" "buf_empty empty_buffer"
  by (simp_all add: wf_buffer_def buf_data_def buf_empty_def buf_size_def empty_buffer_def)

lemma buf_empty_iff: "buf_empty b \<longleftrightarrow> buf_data b = []"
  by (simp add: buf_empty_def flip: length_buf_data)

lemma wf_buf_append [simp]: "wf_buffer b \<Longrightarrow> wf_buffer (buf_append s b)"
  by (rule buf.invar_app)

lemma buf_data_append [simp]: "wf_buffer b \<Longrightarrow> buf_data (buf_append s b) = buf_data b @ s"
  by (rule buf.view_app)

lemma wf_consume [simp]: "wf_buffer b \<Longrightarrow> n \<le> buf_size b \<Longrightarrow> wf_buffer (consume n b)"
  using buf.invar_con by simp

lemma buf_data_consume [simp]:
  "wf_buffer b \<Longrightarrow> n \<le> buf_size b \<Longrightarrow> buf_data (consume n b) = drop n (buf_data b)"
  using buf.view_con by simp

lemma buf_size_append [simp]: "wf_buffer b \<Longrightarrow> buf_size (buf_append s b) = buf_size b + length s"
  by (simp flip: length_buf_data)

lemma buf_size_consume [simp]: "wf_buffer b \<Longrightarrow> n \<le> buf_size b \<Longrightarrow> buf_size (consume n b) = buf_size b - n"
  by (simp flip: length_buf_data)

text \<open>
  C38: The compacting buffer is a FIFO byte queue: for every sequence of appends and consumes,
  the bytes consumed, in order, followed by the bytes still readable are exactly the initial
  contents followed by everything appended.
\<close>

theorem buffer_fifo:
  assumes "wf_buffer b"
  shows "fst (run_ops buf_append consume buf_data ops b) @
      buf_data (snd (run_ops buf_append consume buf_data ops b)) = buf_data b @ appended ops"
  using assms by (rule buf.run_conserves)

theorem buffer_fifo_witness:
  "wf_buffer empty_buffer \<and>
   fst (run_ops buf_append consume buf_data [Append [1, 2, 3], Consume 2, Append [4], Consume 5] empty_buffer) @
      buf_data (snd (run_ops buf_append consume buf_data [Append [1, 2, 3], Consume 2, Append [4], Consume 5] empty_buffer))
     = [1, 2, 3, 4]"
  using buffer_fifo [OF wf_empty_buffer(1), of "[Append [1, 2, 3], Consume 2, Append [4], Consume 5]"]
  by simp

text \<open>
  The zero-copy read of a connection: reserve, let the system call fill the first bytes of the
  reserved tail, give the rest back.  It appends exactly what was read.
\<close>

lemma reserve_fill_uncommit:
  assumes "wf_buffer b" "length s \<le> n"
  shows "(case reserve_tail n b of (at, b') \<Rightarrow> uncommit (n - length s) (fill_tail at s b')) = buf_append s b"
  using assms by (simp add: reserve_tail_def uncommit_def fill_tail_def buf_append_def)

text \<open>Appending never loses capacity bookkeeping: the dead prefix stays below the compaction bound.\<close>

lemma consume_bounds_dead_prefix:
  assumes "wf_buffer b" "n \<le> buf_size b"
  shows "buf_head (consume n b) \<le> 4096 \<or> buf_head (consume n b) * 2 \<le> length (buf_vec (consume n b))"
  using assms by (auto simp: consume_def Let_def)

end
