(* ===== verification/Wire.thy ===== *)
theory Wire
  imports PeerId
begin

text \<open>
  The wire format of \<open>src/wire.hpp\<close> and \<open>src/wire.cpp\<close>: the discovery datagram
  (\<open>announce\<close>) and the eight kinds of length-prefixed TCP frames.  Encoders build byte lists
  the way the \<open>put_\<close> helpers append; decoders run the bounds-checked cursor \<open>reader\<close> in the
  state monad, with its sticky error flag.  Shown: every frame decodes to what was encoded
  (strings beyond 255 bytes and neighbour lists beyond 65535 entries are truncated, and the
  statement says so), decoding looks only at the frame's own bytes, asks for more on every
  proper prefix, and refuses frames beyond the configured size from the length prefix alone.
\<close>

unbundle bit_operations_syntax

section \<open>Data\<close>

datatype message_id = Message_id (mid_bytes: bytes)

definition kAnnounceMagic :: u32 where
  "kAnnounceMagic = 0x4D4D4341"

definition kAnnounceFlagSecure :: u8 where
  "kAnnounceFlagSecure = 0x01"

record announce =
  a_protocolVersion :: u8
  a_flags :: u8
  a_tcpListenPort :: u16
  a_nodeId :: peer_id
  a_groupName :: string

datatype frame_type = Hello | HelloAck | Heartbeat | Data | Goodbye | Membership | AuthConfirm | IdentityRecord

fun frame_type_byte :: "frame_type \<Rightarrow> u8" where
  "frame_type_byte Hello = 1"
| "frame_type_byte HelloAck = 2"
| "frame_type_byte Heartbeat = 3"
| "frame_type_byte Data = 4"
| "frame_type_byte Goodbye = 5"
| "frame_type_byte Membership = 6"
| "frame_type_byte AuthConfirm = 7"
| "frame_type_byte IdentityRecord = 8"

text \<open>
  \<open>static_cast<frame_type>\<close> of the type byte; \<open>None\<close> for a value without an enumerator, which
  the \<open>switch\<close> sends to its default branch.
\<close>

definition byte_frame_type :: "u8 \<Rightarrow> frame_type option" where
  "byte_frame_type b =
     (if b = 1 then Some Hello else if b = 2 then Some HelloAck else if b = 3 then Some Heartbeat
      else if b = 4 then Some Data else if b = 5 then Some Goodbye else if b = 6 then Some Membership
      else if b = 7 then Some AuthConfirm else if b = 8 then Some IdentityRecord else None)"

record hello =
  h_nodeId :: peer_id
  h_protocolVersion :: u8
  h_tcpListenPort :: u16
  h_groupName :: string
  h_nonce :: u64
  h_secure :: bool
  h_ephPubKey :: bytes
  h_hasIdentity :: bool
  h_idPubKey :: bytes
  h_nodeName :: string

record data_view =
  v_src :: peer_id
  v_dst :: peer_id
  v_msgId :: message_id
  v_ttl :: u8
  v_payload :: bytes

record membership_record =
  m_origin :: peer_id
  m_version :: u64
  m_neighbors :: "peer_id list"

record identity_record =
  i_idPubKey :: bytes
  i_version :: u64
  i_name :: string
  i_signature :: bytes

record parsed_frame =
  f_type :: frame_type
  f_hello :: hello
  f_data :: data_view
  f_membership :: membership_record
  f_auth_tag :: bytes
  f_has_auth_sig :: bool
  f_auth_sig :: bytes
  f_identity :: identity_record

text \<open>The value-initialised objects the callers pass in.\<close>

definition hello_init :: hello where
  "hello_init = \<lparr>h_nodeId = zero_id, h_protocolVersion = 0, h_tcpListenPort = 0, h_groupName = [],
     h_nonce = 0, h_secure = False, h_ephPubKey = replicate 32 0, h_hasIdentity = False,
     h_idPubKey = replicate 32 0, h_nodeName = []\<rparr>"

definition parsed_frame_init :: parsed_frame where
  "parsed_frame_init = \<lparr>f_type = Hello, f_hello = hello_init,
     f_data = \<lparr>v_src = zero_id, v_dst = zero_id, v_msgId = Message_id (replicate 16 0), v_ttl = 0, v_payload = []\<rparr>,
     f_membership = \<lparr>m_origin = zero_id, m_version = 0, m_neighbors = []\<rparr>,
     f_auth_tag = replicate 32 0, f_has_auth_sig = False, f_auth_sig = replicate 64 0,
     f_identity = \<lparr>i_idPubKey = replicate 32 0, i_version = 0, i_name = [], i_signature = replicate 64 0\<rparr>\<rparr>"

text \<open>
  \<open>decode_status\<close> with the output parameters of \<open>try_decode_frame\<close> as arguments of \<open>Ok\<close>: the
  callers look at them only then.
\<close>

datatype decode_status = NeedMore | Ok parsed_frame nat | Error

section \<open>Writers\<close>

definition put_u8 :: "u8 \<Rightarrow> bytes" where
  "put_u8 v = [v]"

definition put_u16 :: "u16 \<Rightarrow> bytes" where
  "put_u16 v = [byte_at 8 v, byte_at 0 v]"

definition put_u32 :: "u32 \<Rightarrow> bytes" where
  "put_u32 v = [byte_at 24 v, byte_at 16 v, byte_at 8 v, byte_at 0 v]"

definition put_u64 :: "u64 \<Rightarrow> bytes" where
  "put_u64 v = map (\<lambda>i. byte_at (i * 8) v) (rev [0..<8])"

definition put_bytes :: "bytes \<Rightarrow> bytes" where
  "put_bytes p = p"

definition put_id :: "peer_id \<Rightarrow> bytes" where
  "put_id i = put_bytes (pid_bytes i)"

definition put_msg_id :: "message_id \<Rightarrow> bytes" where
  "put_msg_id i = put_bytes (mid_bytes i)"

definition put_str :: "string \<Rightarrow> bytes" where
  "put_str s =
     put_u8 (of_nat (if length s > 255 then 255 else length s)) @
     (let n = (if length s > 255 then 255 else length s) in str_bytes (take n s))"

definition put_bool :: "bool \<Rightarrow> bytes" where
  "put_bool b = put_u8 (if b then 1 else 0)"

text \<open>\<open>patch_length\<close> overwrites the placeholder at offsets 0 to 3.\<close>

definition patch_length :: "bytes \<Rightarrow> bytes" where
  "patch_length b =
     (let len = (of_nat (length b - 4) :: u32)
      in b[0 := byte_at 24 len, 1 := byte_at 16 len, 2 := byte_at 8 len, 3 := byte_at 0 len])"

section \<open>Encoders\<close>

definition encode_announce :: "announce \<Rightarrow> bytes" where
  "encode_announce a =
     put_u32 kAnnounceMagic @ put_u8 (a_protocolVersion a) @ put_u8 (a_flags a) @
     put_u16 (a_tcpListenPort a) @ put_id (a_nodeId a) @ put_str (a_groupName a)"

definition encode_hello :: "frame_type \<Rightarrow> hello \<Rightarrow> bytes" where
  "encode_hello helloOrAck h = patch_length
     (put_u32 0 @ put_u8 (frame_type_byte helloOrAck) @ put_id (h_nodeId h) @
      put_u8 (h_protocolVersion h) @ put_u16 (h_tcpListenPort h) @ put_str (h_groupName h) @
      put_u64 (h_nonce h) @ put_bool (h_secure h) @
      (if h_secure h then put_bytes (h_ephPubKey h) else []) @
      put_bool (h_hasIdentity h) @
      (if h_hasIdentity h then put_bytes (h_idPubKey h) @ put_str (h_nodeName h) else []))"

definition encode_auth_confirm :: "bytes \<Rightarrow> bool \<Rightarrow> bytes \<Rightarrow> bytes" where
  "encode_auth_confirm tag hasSig sig = patch_length
     (put_u32 0 @ put_u8 (frame_type_byte AuthConfirm) @ put_bytes tag @ put_bool hasSig @
      (if hasSig then put_bytes sig else []))"

definition encode_heartbeat :: bytes where
  "encode_heartbeat = patch_length (put_u32 0 @ put_u8 (frame_type_byte Heartbeat))"

definition encode_goodbye :: bytes where
  "encode_goodbye = patch_length (put_u32 0 @ put_u8 (frame_type_byte Goodbye))"

definition encode_data :: "peer_id \<Rightarrow> peer_id \<Rightarrow> message_id \<Rightarrow> u8 \<Rightarrow> bytes \<Rightarrow> bytes" where
  "encode_data src dst msgId ttl payload = patch_length
     (put_u32 0 @ put_u8 (frame_type_byte Data) @ put_id src @ put_id dst @ put_msg_id msgId @
      put_u8 ttl @ put_u32 (of_nat (length payload)) @ put_bytes payload)"

definition encode_membership :: "membership_record \<Rightarrow> bytes" where
  "encode_membership m = patch_length
     (put_u32 0 @ put_u8 (frame_type_byte Membership) @ put_id (m_origin m) @ put_u64 (m_version m) @
      put_u16 (of_nat (if length (m_neighbors m) > 65535 then 65535 else length (m_neighbors m))) @
      (let n = (if length (m_neighbors m) > 65535 then 65535 else length (m_neighbors m))
       in concat (map put_id (take n (m_neighbors m)))))"

definition encode_identity :: "identity_record \<Rightarrow> bytes" where
  "encode_identity r = patch_length
     (put_u32 0 @ put_u8 (frame_type_byte IdentityRecord) @ put_bytes (i_idPubKey r) @
      put_u64 (i_version r) @ put_bytes (i_signature r) @ put_str (i_name r))"

section \<open>The reader\<close>

record reader =
  rd_rest :: bytes
  rd_bad :: bool

definition reader_init :: "bytes \<Rightarrow> reader" where
  "reader_init s = \<lparr>rd_rest = s, rd_bad = False\<rparr>"

type_synonym 'a read = "(reader, 'a) state"

definition r_ok :: "bool read" where
  "r_ok = State (\<lambda>r. (\<not> rd_bad r, r))"

definition r_u8 :: "u8 read" where
  "r_u8 = State (\<lambda>r. case rd_rest r of
      [] \<Rightarrow> (0, r\<lparr>rd_bad := True\<rparr>)
    | b # bs \<Rightarrow> (b, r\<lparr>rd_rest := bs\<rparr>))"

text \<open>The loops \<open>v = (v << 8) | u8()\<close>.\<close>

fun r_shift :: "nat \<Rightarrow> 'a::len word \<Rightarrow> 'a word read" where
  "r_shift 0 v = State_Monad.return v"
| "r_shift (Suc n) v = do { b \<leftarrow> r_u8; r_shift n (shift_in v b) }"

definition r_u16 :: "u16 read" where
  "r_u16 = do { hi \<leftarrow> r_u8; lo \<leftarrow> r_u8; State_Monad.return (push_bit 8 (ucast hi) OR ucast lo) }"

definition r_u32 :: "u32 read" where
  "r_u32 = r_shift 4 0"

definition r_u64 :: "u64 read" where
  "r_u64 = r_shift 8 0"

text \<open>\<open>take(n)\<close>: a view of the next \<open>n\<close> bytes, empty with the error flag on overrun.\<close>

definition r_take :: "nat \<Rightarrow> bytes read" where
  "r_take n = State (\<lambda>r.
     if length (rd_rest r) < n then ([], r\<lparr>rd_bad := True\<rparr>)
     else (take n (rd_rest r), r\<lparr>rd_rest := drop n (rd_rest r)\<rparr>))"

text \<open>\<open>id(out)\<close> and \<open>msg_id(out)\<close>: on overrun the output keeps its old value.\<close>

definition r_id :: "peer_id \<Rightarrow> peer_id read" where
  "r_id old = State (\<lambda>r.
     if length (rd_rest r) < 16 then (old, r\<lparr>rd_bad := True\<rparr>)
     else (Peer_id (take 16 (rd_rest r)), r\<lparr>rd_rest := drop 16 (rd_rest r)\<rparr>))"

definition r_msg_id :: "message_id \<Rightarrow> message_id read" where
  "r_msg_id old = State (\<lambda>r.
     if length (rd_rest r) < 16 then (old, r\<lparr>rd_bad := True\<rparr>)
     else (Message_id (take 16 (rd_rest r)), r\<lparr>rd_rest := drop 16 (rd_rest r)\<rparr>))"

definition r_str :: "string read" where
  "r_str = do {
     n \<leftarrow> r_u8;
     State (\<lambda>r. if rd_bad r \<or> length (rd_rest r) < unat n then ([], r\<lparr>rd_bad := True\<rparr>)
                else (bytes_str (take (unat n) (rd_rest r)), r\<lparr>rd_rest := drop (unat n) (rd_rest r)\<rparr>)) }"

text \<open>\<open>auto pk = r.take(n); if (r.ok()) memcpy(old, pk)\<close>.\<close>

definition r_copy :: "nat \<Rightarrow> bytes \<Rightarrow> bytes read" where
  "r_copy n old = do { p \<leftarrow> r_take n; ok \<leftarrow> r_ok; State_Monad.return (if ok then p else old) }"

section \<open>Decoders\<close>

definition decode_announce :: "bytes \<Rightarrow> announce option" where
  "decode_announce s =
     (case run_state r_u32 (reader_init s) of (magic, r) \<Rightarrow>
        if magic \<noteq> kAnnounceMagic then None
        else case run_state (do {
               ver \<leftarrow> r_u8; fl \<leftarrow> r_u8; port \<leftarrow> r_u16; i \<leftarrow> r_id zero_id; g \<leftarrow> r_str;
               State_Monad.return \<lparr>a_protocolVersion = ver, a_flags = fl, a_tcpListenPort = port,
                 a_nodeId = i, a_groupName = g\<rparr> }) r of
          (a, r') \<Rightarrow> if rd_bad r' then None else Some a)"

definition read_hello :: "hello \<Rightarrow> hello read" where
  "read_hello h = do {
     i \<leftarrow> r_id (h_nodeId h); ver \<leftarrow> r_u8; port \<leftarrow> r_u16; g \<leftarrow> r_str; n \<leftarrow> r_u64;
     s \<leftarrow> r_u8;
     eph \<leftarrow> (if s \<noteq> 0 then r_copy 32 (h_ephPubKey h) else State_Monad.return (h_ephPubKey h));
     d \<leftarrow> r_u8;
     idpk \<leftarrow> (if d \<noteq> 0 then r_copy 32 (h_idPubKey h) else State_Monad.return (h_idPubKey h));
     nm \<leftarrow> (if d \<noteq> 0 then r_str else State_Monad.return (h_nodeName h));
     State_Monad.return \<lparr>h_nodeId = i, h_protocolVersion = ver, h_tcpListenPort = port, h_groupName = g,
       h_nonce = n, h_secure = (s \<noteq> 0), h_ephPubKey = eph, h_hasIdentity = (d \<noteq> 0),
       h_idPubKey = idpk, h_nodeName = nm\<rparr> }"

definition read_auth_confirm :: "parsed_frame \<Rightarrow> parsed_frame read" where
  "read_auth_confirm out = do {
     t \<leftarrow> r_copy 32 (f_auth_tag out);
     s \<leftarrow> r_u8;
     sig \<leftarrow> (if s \<noteq> 0 then r_copy 64 (f_auth_sig out) else State_Monad.return (f_auth_sig out));
     State_Monad.return (out\<lparr>f_auth_tag := t, f_has_auth_sig := (s \<noteq> 0), f_auth_sig := sig\<rparr>) }"

definition read_data :: "data_view \<Rightarrow> data_view read" where
  "read_data v = do {
     s \<leftarrow> r_id (v_src v); d \<leftarrow> r_id (v_dst v); m \<leftarrow> r_msg_id (v_msgId v); t \<leftarrow> r_u8;
     plen \<leftarrow> r_u32; p \<leftarrow> r_take (unat plen);
     State_Monad.return \<lparr>v_src = s, v_dst = d, v_msgId = m, v_ttl = t, v_payload = p\<rparr> }"

text \<open>\<open>for (i = 0; i < count && r.ok(); ++i)\<close>: each round reads an id into a fresh \<open>peer_id\<close>.\<close>

fun read_neighbors :: "nat \<Rightarrow> peer_id list \<Rightarrow> peer_id list read" where
  "read_neighbors 0 acc = State_Monad.return acc"
| "read_neighbors (Suc n) acc = do {
     ok \<leftarrow> r_ok;
     (if ok then do { i \<leftarrow> r_id zero_id; read_neighbors n (acc @ [i]) } else State_Monad.return acc) }"

definition read_membership :: "membership_record \<Rightarrow> membership_record read" where
  "read_membership m = do {
     origin \<leftarrow> r_id (m_origin m); ver \<leftarrow> r_u64; count \<leftarrow> r_u16;
     ns \<leftarrow> read_neighbors (unat count) [];
     State_Monad.return \<lparr>m_origin = origin, m_version = ver, m_neighbors = ns\<rparr> }"

definition read_identity :: "identity_record \<Rightarrow> identity_record read" where
  "read_identity i = do {
     pk \<leftarrow> r_copy 32 (i_idPubKey i); ver \<leftarrow> r_u64; sig \<leftarrow> r_copy 64 (i_signature i); nm \<leftarrow> r_str;
     State_Monad.return \<lparr>i_idPubKey = pk, i_version = ver, i_name = nm, i_signature = sig\<rparr> }"

text \<open>The \<open>switch\<close> over the frame type.\<close>

definition read_body :: "frame_type \<Rightarrow> parsed_frame \<Rightarrow> parsed_frame read" where
  "read_body type out =
     (case type of
        Hello \<Rightarrow> do { h \<leftarrow> read_hello (f_hello out); State_Monad.return (out\<lparr>f_hello := h\<rparr>) }
      | HelloAck \<Rightarrow> do { h \<leftarrow> read_hello (f_hello out); State_Monad.return (out\<lparr>f_hello := h\<rparr>) }
      | AuthConfirm \<Rightarrow> read_auth_confirm out
      | Heartbeat \<Rightarrow> State_Monad.return out
      | Goodbye \<Rightarrow> State_Monad.return out
      | Data \<Rightarrow> do { v \<leftarrow> read_data (f_data out); State_Monad.return (out\<lparr>f_data := v\<rparr>) }
      | Membership \<Rightarrow> do { m \<leftarrow> read_membership (f_membership out); State_Monad.return (out\<lparr>f_membership := m\<rparr>) }
      | IdentityRecord \<Rightarrow> do { i \<leftarrow> read_identity (f_identity out); State_Monad.return (out\<lparr>f_identity := i\<rparr>) })"

text \<open>The peeked length prefix of the first four bytes.\<close>

definition peek_len :: "bytes \<Rightarrow> u32" where
  "peek_len s = (push_bit 24 (ucast (s ! 0))) OR (push_bit 16 (ucast (s ! 1))) OR
                (push_bit 8 (ucast (s ! 2))) OR ucast (s ! 3)"

definition try_decode_frame :: "bytes \<Rightarrow> nat \<Rightarrow> parsed_frame \<Rightarrow> decode_status" where
  "try_decode_frame s maxMessageBytes out =
     (if length s < 4 then NeedMore
      else let len = peek_len s in
        if len < 1 then Error
        else if unat len > maxMessageBytes then Error
        else if length s < 4 + unat len then NeedMore
        else case run_state r_u8 (reader_init (take (unat len) (drop 4 s))) of
          (t, r) \<Rightarrow> (case byte_frame_type t of
              None \<Rightarrow> Error
            | Some type \<Rightarrow>
                (case run_state (read_body type (out\<lparr>f_type := type\<rparr>)) r of
                   (f, r') \<Rightarrow> if rd_bad r' then Error else Ok f (4 + unat len))))"

text \<open>\<open>std::hash<mm::message_id>\<close>, the same FNV-1a loop as for identifiers.\<close>

definition hash_message_id :: "message_id \<Rightarrow> u64" where
  "hash_message_id i = foldl fnv_step 1469598103934665603 (mid_bytes i)"

section \<open>Frames as one type\<close>

text \<open>
  \<open>msg\<close> is a message of the protocol with the data its encoder takes; \<open>encode_msg\<close> calls the
  encoder; \<open>parsed_msg m out\<close> is what a receiver holds after decoding into \<open>out\<close>: fields that
  are not on the wire keep their value in \<open>out\<close>, long names and neighbour lists are cut.
\<close>

datatype msg =
    MHello hello
  | MHelloAck hello
  | MHeartbeat
  | MData peer_id peer_id message_id u8 bytes
  | MGoodbye
  | MMembership membership_record
  | MAuthConfirm bytes bool bytes
  | MIdentity identity_record

fun encode_msg :: "msg \<Rightarrow> bytes" where
  "encode_msg (MHello h) = encode_hello Hello h"
| "encode_msg (MHelloAck h) = encode_hello HelloAck h"
| "encode_msg MHeartbeat = encode_heartbeat"
| "encode_msg (MData src dst mid ttl payload) = encode_data src dst mid ttl payload"
| "encode_msg MGoodbye = encode_goodbye"
| "encode_msg (MMembership m) = encode_membership m"
| "encode_msg (MAuthConfirm tag hasSig sig) = encode_auth_confirm tag hasSig sig"
| "encode_msg (MIdentity i) = encode_identity i"

definition canon_hello :: "hello \<Rightarrow> hello \<Rightarrow> hello" where
  "canon_hello old h = h\<lparr>h_groupName := take 255 (h_groupName h),
     h_ephPubKey := (if h_secure h then h_ephPubKey h else h_ephPubKey old),
     h_idPubKey := (if h_hasIdentity h then h_idPubKey h else h_idPubKey old),
     h_nodeName := (if h_hasIdentity h then take 255 (h_nodeName h) else h_nodeName old)\<rparr>"

fun parsed_msg :: "msg \<Rightarrow> parsed_frame \<Rightarrow> parsed_frame" where
  "parsed_msg (MHello h) out = out\<lparr>f_type := Hello, f_hello := canon_hello (f_hello out) h\<rparr>"
| "parsed_msg (MHelloAck h) out = out\<lparr>f_type := HelloAck, f_hello := canon_hello (f_hello out) h\<rparr>"
| "parsed_msg MHeartbeat out = out\<lparr>f_type := Heartbeat\<rparr>"
| "parsed_msg (MData src dst mid ttl payload) out = out\<lparr>f_type := Data,
     f_data := \<lparr>v_src = src, v_dst = dst, v_msgId = mid, v_ttl = ttl, v_payload = payload\<rparr>\<rparr>"
| "parsed_msg MGoodbye out = out\<lparr>f_type := Goodbye\<rparr>"
| "parsed_msg (MMembership m) out = out\<lparr>f_type := Membership,
     f_membership := m\<lparr>m_neighbors := take 65535 (m_neighbors m)\<rparr>\<rparr>"
| "parsed_msg (MAuthConfirm tag hasSig sig) out = out\<lparr>f_type := AuthConfirm, f_auth_tag := tag,
     f_has_auth_sig := hasSig, f_auth_sig := (if hasSig then sig else f_auth_sig out)\<rparr>"
| "parsed_msg (MIdentity i) out = out\<lparr>f_type := IdentityRecord,
     f_identity := i\<lparr>i_name := take 255 (i_name i)\<rparr>\<rparr>"

text \<open>The fixed-size arrays of a message have their sizes.\<close>

definition wf_hello :: "hello \<Rightarrow> bool" where
  "wf_hello h \<longleftrightarrow> wf_id (h_nodeId h) \<and> length (h_ephPubKey h) = 32 \<and> length (h_idPubKey h) = 32"

definition wf_mid :: "message_id \<Rightarrow> bool" where
  "wf_mid i \<longleftrightarrow> length (mid_bytes i) = 16"

fun wf_msg :: "msg \<Rightarrow> bool" where
  "wf_msg (MHello h) = wf_hello h"
| "wf_msg (MHelloAck h) = wf_hello h"
| "wf_msg MHeartbeat = True"
| "wf_msg (MData src dst mid ttl payload) = (wf_id src \<and> wf_id dst \<and> wf_mid mid \<and> length payload < 2 ^ 32)"
| "wf_msg MGoodbye = True"
| "wf_msg (MMembership m) = (wf_id (m_origin m) \<and> (\<forall>i \<in> set (m_neighbors m). wf_id i))"
| "wf_msg (MAuthConfirm tag hasSig sig) = (length tag = 32 \<and> length sig = 64)"
| "wf_msg (MIdentity i) = (length (i_idPubKey i) = 32 \<and> length (i_signature i) = 64)"

section \<open>Reading back what was written\<close>

text \<open>\<open>reads m bs x\<close>: on a good reader that starts with \<open>bs\<close>, \<open>m\<close> returns \<open>x\<close> and consumes \<open>bs\<close>.\<close>

definition reads :: "'a read \<Rightarrow> bytes \<Rightarrow> 'a \<Rightarrow> bool" where
  "reads m bs x \<longleftrightarrow>
     (\<forall>rest. run_state m \<lparr>rd_rest = bs @ rest, rd_bad = False\<rparr> = (x, \<lparr>rd_rest = rest, rd_bad = False\<rparr>))"

lemma reads_return [wire_simps]: "reads (State_Monad.return x) [] x"
  by (simp add: reads_def)

lemma reads_bind:
  assumes "reads m bs x" "reads (k x) cs y"
  shows "reads (State_Monad.bind m k) (bs @ cs) y"
  using assms by (simp add: reads_def)

lemma reads_u8: "reads r_u8 (put_u8 v) v"
  by (simp add: reads_def r_u8_def put_u8_def)

lemma reads_shift: "reads (r_shift (length bs) v) bs (foldl shift_in v bs)"
  by (induction bs arbitrary: v) (simp_all add: reads_def r_u8_def)

lemma reads_u16: "reads r_u16 (put_u16 v) v"
proof -
  have "push_bit 8 (ucast (byte_at 8 v)) OR ucast (byte_at 0 v) = foldl shift_in (0 :: u16) (be16 v)"
    by (simp add: be16_def shift_in_def)
  then show ?thesis
    by (simp add: reads_def r_u16_def r_u8_def put_u16_def)
qed

lemma reads_u32: "reads r_u32 (put_u32 v) v"
  using reads_shift [of "be32 v" "0 :: u32"] by (simp add: r_u32_def put_u32_def be32_def [symmetric])

lemma reads_u64: "reads r_u64 (put_u64 v) v"
  using reads_shift [of "be64 v" "0 :: u64"] by (simp add: r_u64_def put_u64_def be64_def [symmetric])

lemma reads_take: "length p = n \<Longrightarrow> reads (r_take n) (put_bytes p) p"
  by (simp add: reads_def r_take_def put_bytes_def)

lemma reads_copy: "length p = n \<Longrightarrow> reads (r_copy n old) (put_bytes p) p"
  by (simp add: reads_def r_copy_def r_take_def r_ok_def put_bytes_def)

lemma reads_id: "wf_id i \<Longrightarrow> reads (r_id old) (put_id i) i"
  by (cases i) (simp add: reads_def r_id_def put_id_def put_bytes_def wf_id_def)

lemma reads_msg_id: "wf_mid i \<Longrightarrow> reads (r_msg_id old) (put_msg_id i) i"
  by (cases i) (simp add: reads_def r_msg_id_def put_msg_id_def put_bytes_def wf_mid_def)

lemma put_str_eq: "put_str s = of_nat (min (length s) 255) # str_bytes (take 255 s)"
  by (simp add: put_str_def put_u8_def Let_def min_def)

lemma unat_min_255 [simp]: "unat (of_nat (min n 255) :: u8) = min n 255"
  by (simp add: unat_of_nat)

lemma take_min_length: "take (min (length s) n) s = take n s"
  by (simp add: min_def)

lemma reads_str: "reads r_str (put_str s) (take 255 s)"
  by (simp add: reads_def r_str_def r_u8_def put_str_eq take_min_length)

lemma reads_bool: "reads r_u8 (put_bool b) (if b then 1 else 0)"
  by (simp add: reads_u8 put_bool_def)

lemma reads_if:
  assumes "c \<Longrightarrow> reads m bs x" "\<not> c \<Longrightarrow> reads m' bs' x"
  shows "reads (if c then m else m') (if c then bs else bs') x"
  using assms by simp

lemma reads_neighbors:
  "\<forall>i \<in> set ns. wf_id i \<Longrightarrow> reads (read_neighbors (length ns) acc) (concat (map put_id ns)) (acc @ ns)"
proof (induction ns arbitrary: acc)
  case (Cons i ns)
  have "reads (read_neighbors (length ns) (acc @ [i])) (concat (map put_id ns)) (acc @ i # ns)"
    using Cons.IH [of "acc @ [i]"] Cons.prems by simp
  with reads_id [of i zero_id] Cons.prems
  show ?case by (simp add: reads_def r_ok_def)
qed (simp add: reads_def)

lemmas reads_leaf = reads_u8 reads_u16 reads_u32 reads_u64 reads_str reads_bool reads_return

lemma reads_hello:
  assumes "wf_hello h"
  shows "reads (read_hello old)
     (put_id (h_nodeId h) @ put_u8 (h_protocolVersion h) @ put_u16 (h_tcpListenPort h) @
      put_str (h_groupName h) @ put_u64 (h_nonce h) @ put_bool (h_secure h) @
      (if h_secure h then put_bytes (h_ephPubKey h) else []) @
      put_bool (h_hasIdentity h) @
      (if h_hasIdentity h then put_bytes (h_idPubKey h) @ put_str (h_nodeName h) else []))
     (canon_hello old h)"
proof -
  have i: "wf_id (h_nodeId h)" "length (h_ephPubKey h) = 32" "length (h_idPubKey h) = 32"
    using assms by (simp_all add: wf_hello_def)
  have c: "canon_hello old h = \<lparr>h_nodeId = h_nodeId h, h_protocolVersion = h_protocolVersion h,
      h_tcpListenPort = h_tcpListenPort h, h_groupName = take 255 (h_groupName h), h_nonce = h_nonce h,
      h_secure = h_secure h, h_ephPubKey = (if h_secure h then h_ephPubKey h else h_ephPubKey old),
      h_hasIdentity = h_hasIdentity h,
      h_idPubKey = (if h_hasIdentity h then h_idPubKey h else h_idPubKey old),
      h_nodeName = (if h_hasIdentity h then take 255 (h_nodeName h) else h_nodeName old)\<rparr>"
    by (simp add: canon_hello_def)
  note leaf = reads_id [OF i(1)] reads_copy [OF i(2)] reads_copy [OF i(3)] reads_leaf
  show ?thesis
    unfolding read_hello_def c
    by (cases "h_secure h"; cases "h_hasIdentity h") 
       (simp_all add: reads_def [where m = "bind _ _"] leaf [unfolded reads_def, rule_format])
qed

section \<open>The length prefix\<close>

lemma list4_cases:
  assumes "4 \<le> length s"
  obtains a b c d t where "s = [a, b, c, d] @ t"
  using assms by (auto simp: numeral_eq_Suc Suc_le_length_iff intro: that)

lemma peek_len_shift: "peek_len ([a, b, c, d] @ t) = foldl shift_in 0 [a, b, c, d]"
  by (simp add: peek_len_def shift_in_def push_bit_or numeral_eq_Suc or.assoc)

lemma peek_len_be32 [wire_simps]: "peek_len (be32 v @ t) = v"
  using be32_shift_in [of v] unfolding be32_def peek_len_shift by simp

lemma peek_len_append: "4 \<le> length s \<Longrightarrow> peek_len (s @ t) = peek_len s"
  by (erule list4_cases) (simp only: append.assoc peek_len_shift)

lemma patch_length_eq: "patch_length (put_u32 0 @ body) = be32 (of_nat (length body)) @ body"
  by (simp add: patch_length_def put_u32_def be32_def Let_def numeral_eq_Suc)

lemma frame_type_byte_inverse [simp]: "byte_frame_type (frame_type_byte t) = Some t"
  by (cases t) (simp_all add: byte_frame_type_def)

lemma decode_frame_reads:
  assumes "reads (read_body t (out\<lparr>f_type := t\<rparr>)) body f"
    and "Suc (length body) < 2 ^ 32" "Suc (length body) \<le> maxb"
  shows "try_decode_frame (patch_length (put_u32 0 @ put_u8 (frame_type_byte t) @ body) @ rest) maxb out
    = Ok f (4 + Suc (length body))"
proof -
  let ?b = "put_u8 (frame_type_byte t) @ body"
  have len: "length ?b = Suc (length body)" by (simp add: put_u8_def)
  have u: "unat (of_nat (length ?b) :: u32) = length ?b"
    using assms(2) unfolding len by (simp add: unat_of_nat del: of_nat_Suc)
  have pos: "\<not> (of_nat (length ?b) :: u32) < 1"
    using u len by (simp add: word_less_nat_alt)
  have r: "run_state (read_body t (out\<lparr>f_type := t\<rparr>)) \<lparr>rd_rest = body, rd_bad = False\<rparr> = (f, \<lparr>rd_rest = [], rd_bad = False\<rparr>)"
    using assms(1) unfolding reads_def by (metis append_Nil2)
  have "run_state r_u8 (reader_init ?b) = (frame_type_byte t, \<lparr>rd_rest = body, rd_bad = False\<rparr>)"
    by (simp add: r_u8_def reader_init_def put_u8_def)
  with r assms(3) show ?thesis
    unfolding patch_length_eq try_decode_frame_def Let_def append_assoc peek_len_be32 u
    using pos len by simp
qed

section \<open>Every message decodes to itself\<close>

lemma reads_map: "reads m bs x \<Longrightarrow> reads (State_Monad.bind m (\<lambda>y. State_Monad.return (g y))) bs (g x)"
  by (simp add: reads_def)

lemma reads_data:
  assumes "wf_id src" "wf_id dst" "wf_mid mid" "length payload < 2 ^ 32"
  shows "reads (read_data v)
     (put_id src @ put_id dst @ put_msg_id mid @ put_u8 ttl @ put_u32 (of_nat (length payload)) @ put_bytes payload)
     \<lparr>v_src = src, v_dst = dst, v_msgId = mid, v_ttl = ttl, v_payload = payload\<rparr>"
proof -
  have n: "unat (of_nat (length payload) :: u32) = length payload"
    using assms(4) by (simp add: unat_of_nat)
  note leaf = reads_id [OF assms(1)] reads_id [OF assms(2)] reads_msg_id [OF assms(3)]
    reads_take [OF refl] reads_leaf
  show ?thesis
    unfolding read_data_def
    by (simp add: reads_def [where m = "bind _ _"] leaf [unfolded reads_def, rule_format] n
        reads_take [OF n [symmetric], unfolded reads_def, rule_format])
qed

lemma reads_membership:
  assumes "wf_id (m_origin m)" "\<forall>i \<in> set (m_neighbors m). wf_id i"
  shows "reads (read_membership old)
     (put_id (m_origin m) @ put_u64 (m_version m) @
      put_u16 (of_nat (min (length (m_neighbors m)) 65535)) @ concat (map put_id (take 65535 (m_neighbors m))))
     (m\<lparr>m_neighbors := take 65535 (m_neighbors m)\<rparr>)"
proof -
  let ?ns = "take 65535 (m_neighbors m)"
  have n: "unat (of_nat (min (length (m_neighbors m)) 65535) :: u16) = length ?ns"
    by (simp add: unat_of_nat)
  have wf: "\<forall>i \<in> set ?ns. wf_id i"
    using assms(2) by (meson in_set_takeD)
  have m: "m\<lparr>m_neighbors := ?ns\<rparr> = \<lparr>m_origin = m_origin m, m_version = m_version m, m_neighbors = ?ns\<rparr>"
    by simp
  note leaf = reads_id [OF assms(1)] reads_neighbors [OF wf, of "[]"] reads_leaf
  show ?thesis
    unfolding read_membership_def m
    by (simp add: reads_def [where m = "bind _ _"] leaf [unfolded reads_def, rule_format] n
        del: length_take)
qed

lemma reads_identity:
  assumes "length (i_idPubKey i) = 32" "length (i_signature i) = 64"
  shows "reads (read_identity old)
     (put_bytes (i_idPubKey i) @ put_u64 (i_version i) @ put_bytes (i_signature i) @ put_str (i_name i))
     (i\<lparr>i_name := take 255 (i_name i)\<rparr>)"
proof -
  have i: "i\<lparr>i_name := take 255 (i_name i)\<rparr> = \<lparr>i_idPubKey = i_idPubKey i, i_version = i_version i,
      i_name = take 255 (i_name i), i_signature = i_signature i\<rparr>"
    by simp
  note leaf = reads_copy [OF assms(1)] reads_copy [OF assms(2)] reads_leaf
  show ?thesis
    unfolding read_identity_def i
    by (simp add: reads_def [where m = "bind _ _"] leaf [unfolded reads_def, rule_format])
qed

lemma reads_auth_confirm:
  assumes "length tag = 32" "length sig = 64"
  shows "reads (read_auth_confirm out)
     (put_bytes tag @ put_bool hasSig @ (if hasSig then put_bytes sig else []))
     (out\<lparr>f_auth_tag := tag, f_has_auth_sig := hasSig, f_auth_sig := (if hasSig then sig else f_auth_sig out)\<rparr>)"
proof -
  note leaf = reads_copy [OF assms(1)] reads_copy [OF assms(2)] reads_leaf
  show ?thesis
    unfolding read_auth_confirm_def
    by (cases hasSig)
       (simp_all add: reads_def [where m = "bind _ _"] leaf [unfolded reads_def, rule_format])
qed

lemma if_min: "(if n > k then k else n) = min n k" for n k :: nat
  by simp

lemma if_take_min: "take (min (length xs) k) xs = take k xs"
  by (simp add: min_def)

lemma encode_msg_reads:
  assumes "wf_msg m"
  shows "\<exists>t body. encode_msg m = patch_length (put_u32 0 @ put_u8 (frame_type_byte t) @ body) \<and>
    reads (read_body t (out\<lparr>f_type := t\<rparr>)) body (parsed_msg m out)"
proof (cases m)
  case (MHello h)
  show ?thesis
    unfolding MHello encode_msg.simps encode_hello_def
    by (rule exI [of _ Hello], rule exI, rule conjI, rule refl)
       (use assms MHello reads_map [where g = "\<lambda>x. out\<lparr>f_type := Hello, f_hello := x\<rparr>", OF reads_hello [of h "f_hello out"]] in \<open>simp add: read_body_def split del: if_split\<close>)
next
  case (MHelloAck h)
  show ?thesis
    unfolding MHelloAck encode_msg.simps encode_hello_def
    by (rule exI [of _ HelloAck], rule exI, rule conjI, rule refl)
       (use assms MHelloAck reads_map [where g = "\<lambda>x. out\<lparr>f_type := HelloAck, f_hello := x\<rparr>", OF reads_hello [of h "f_hello out"]] in \<open>simp add: read_body_def split del: if_split\<close>)
next
  case MHeartbeat
  then show ?thesis
    by (intro exI [of _ Heartbeat] exI [of _ "[]"]) (simp add: encode_heartbeat_def read_body_def reads_return)
next
  case (MData src dst mid ttl payload)
  show ?thesis
    unfolding MData encode_msg.simps encode_data_def
    by (rule exI [of _ Data], rule exI, rule conjI, rule refl)
       (use assms MData reads_map [where g = "\<lambda>x. out\<lparr>f_type := Data, f_data := x\<rparr>", OF reads_data [of src dst mid payload "f_data out" ttl]] in \<open>simp add: read_body_def split del: if_split\<close>)
next
  case MGoodbye
  then show ?thesis
    by (intro exI [of _ Goodbye] exI [of _ "[]"]) (simp add: encode_goodbye_def read_body_def reads_return)
next
  case (MMembership r)
  show ?thesis
    unfolding MMembership encode_msg.simps encode_membership_def Let_def if_min if_take_min
    by (rule exI [of _ Membership], rule exI, rule conjI, rule refl)
       (use assms MMembership reads_map [where g = "\<lambda>x. out\<lparr>f_type := Membership, f_membership := x\<rparr>", OF reads_membership [of r "f_membership out"]] in \<open>simp add: read_body_def split del: if_split\<close>)
next
  case (MAuthConfirm tag hasSig sig)
  show ?thesis
    unfolding MAuthConfirm encode_msg.simps encode_auth_confirm_def
    by (rule exI [of _ AuthConfirm], rule exI, rule conjI, rule refl)
       (use assms MAuthConfirm reads_auth_confirm [of tag sig "out\<lparr>f_type := AuthConfirm\<rparr>" hasSig]
        in \<open>cases hasSig; simp add: read_body_def\<close>)
next
  case (MIdentity i)
  show ?thesis
    unfolding MIdentity encode_msg.simps encode_identity_def
    by (rule exI [of _ IdentityRecord], rule exI, rule conjI, rule refl)
       (use assms MIdentity reads_map [where g = "\<lambda>x. out\<lparr>f_type := IdentityRecord, f_identity := x\<rparr>", OF reads_identity [of i "f_identity out"]] in \<open>simp add: read_body_def split del: if_split\<close>)
qed

lemma length_patch_length [simp]: "length (patch_length b) = length b"
  by (simp add: patch_length_def Let_def)

lemma decode_encode:
  assumes "wf_msg m" "length (encode_msg m) < 4 + 2 ^ 32" "length (encode_msg m) \<le> 4 + maxb"
  shows "try_decode_frame (encode_msg m @ rest) maxb out = Ok (parsed_msg m out) (length (encode_msg m))"
proof -
  obtain t body where e: "encode_msg m = patch_length (put_u32 0 @ put_u8 (frame_type_byte t) @ body)"
    and r: "reads (read_body t (out\<lparr>f_type := t\<rparr>)) body (parsed_msg m out)"
    using encode_msg_reads [OF assms(1)] by blast
  have "length (encode_msg m) = 4 + Suc (length body)"
    by (simp add: e put_u32_def put_u8_def)
  with decode_frame_reads [OF r, of maxb rest] assms(2,3) show ?thesis by (simp add: e)
qed

lemma encode_msg_prefix:
  assumes "wf_msg m" "length (encode_msg m) < 4 + 2 ^ 32"
  shows "5 \<le> length (encode_msg m)"
    "peek_len (encode_msg m @ rest) = of_nat (length (encode_msg m) - 4)"
    "unat (of_nat (length (encode_msg m) - 4) :: u32) = length (encode_msg m) - 4"
proof -
  obtain t body where e: "encode_msg m = patch_length (put_u32 0 @ put_u8 (frame_type_byte t) @ body)"
    using encode_msg_reads [OF assms(1), of undefined] by blast
  let ?b = "put_u8 (frame_type_byte t) @ body"
  have len: "length (encode_msg m) = 4 + length ?b"
    by (simp add: e put_u32_def put_u8_def)
  then show "5 \<le> length (encode_msg m)" by (simp add: put_u8_def)
  show "peek_len (encode_msg m @ rest) = of_nat (length (encode_msg m) - 4)"
    unfolding len unfolding e patch_length_eq append.assoc peek_len_be32 by simp
  show "unat (of_nat (length (encode_msg m) - 4) :: u32) = length (encode_msg m) - 4"
    using assms(2) by (simp add: unat_of_nat)
qed



text \<open>
  C22: While a frame is still arriving the decoder asks for more: on every proper prefix of the
  encoding of a message that fits the maximum it answers \<open>NeedMore\<close>, never an error.
\<close>

theorem decode_prefix_needs_more:
  assumes "wf_msg m" "length (encode_msg m) < 4 + 2 ^ 32" "length (encode_msg m) \<le> 4 + maxb"
    and "n < length (encode_msg m)"
  shows "try_decode_frame (take n (encode_msg m)) maxb out = NeedMore"
proof (cases "n < 4")
  case False
  note pre = encode_msg_prefix [OF assms(1,2)]
  have "peek_len (take n (encode_msg m)) = of_nat (length (encode_msg m) - 4)"
    using pre(2) [of "[]"] peek_len_append [of "take n (encode_msg m)" "drop n (encode_msg m)"] False assms(4)
    by simp
  then show ?thesis
    using pre(1,3) False assms(3,4) by (simp add: try_decode_frame_def Let_def word_less_nat_alt)
qed (use assms(4) in \<open>simp add: try_decode_frame_def\<close>)

text \<open>
  The size guard acts on the four length bytes alone: a prefix that announces no bytes or
  more than the configured maximum is an error whatever follows, and nothing longer than
  the maximum is ever waited for.
\<close>

theorem decode_size_guard:
  assumes "4 \<le> length s"
  shows "(peek_len s = 0 \<or> maxb < unat (peek_len s) \<longrightarrow> try_decode_frame s maxb out = Error) \<and>
    (try_decode_frame s maxb out = NeedMore \<longrightarrow> unat (peek_len s) \<le> maxb \<and> length s < 4 + maxb)"
proof -
  have "peek_len s = 0 \<longleftrightarrow> peek_len s < 1" by (simp add: word_less_nat_alt unat_eq_zero)
  then show ?thesis
    using assms by (auto simp: try_decode_frame_def Let_def split: if_splits option.splits prod.splits)
qed

lemma decode_announce_encode:
  assumes "wf_id (a_nodeId a)"
  shows "decode_announce (encode_announce a @ rest) = Some (a\<lparr>a_groupName := take 255 (a_groupName a)\<rparr>)"
proof -
  note leaf = reads_id [OF assms] reads_leaf
  show ?thesis
    by (simp add: decode_announce_def encode_announce_def reader_init_def
        leaf [unfolded reads_def, rule_format])
qed

text \<open>
  A discovery datagram decodes to the announce it was built from, with the group name cut
  to 255 bytes, and bytes after it are ignored.
\<close>

theorem announce_roundtrip:
  assumes "wf_id (a_nodeId a)"
  shows "decode_announce (encode_announce a @ rest) = Some (a\<lparr>a_groupName := take 255 (a_groupName a)\<rparr>)"
  using assms by (rule decode_announce_encode)

section \<open>Witnesses\<close>

definition sample_msg :: msg where
  "sample_msg = MData (Peer_id [1, 2, 3, 4, 5, 6, 7, 8, 9, 10, 11, 12, 13, 14, 15, 16]) zero_id
     (Message_id (replicate 16 7)) 8 [104, 105]"

lemma sample_msg_wf: "wf_msg sample_msg" "length (encode_msg sample_msg) = 60"
  by (simp_all add: sample_msg_def wf_id_def wf_mid_def encode_data_def put_u32_def put_u8_def put_id_def
      put_msg_id_def put_bytes_def zero_id_def)



theorem decode_prefix_needs_more_witness:
  "wf_msg sample_msg \<and> try_decode_frame (take 17 (encode_msg sample_msg)) 100 parsed_frame_init = NeedMore"
  using decode_prefix_needs_more [OF sample_msg_wf(1), of 100 17 parsed_frame_init] by (simp add: sample_msg_wf)

theorem decode_size_guard_witness:
  "100 < unat (peek_len [0, 0, 1, 0]) \<and> try_decode_frame [0, 0, 1, 0] 100 parsed_frame_init = Error"
proof -
  have "100 < unat (peek_len [0, 0, 1, 0])" by code_simp
  then show ?thesis using decode_size_guard [of "[0, 0, 1, 0]" 100 parsed_frame_init] by simp
qed

theorem announce_roundtrip_witness:
  "wf_id zero_id \<and>
   decode_announce (encode_announce \<lparr>a_protocolVersion = 1, a_flags = 0, a_tcpListenPort = 9000,
     a_nodeId = zero_id, a_groupName = ''default''\<rparr> @ [255]) =
   Some \<lparr>a_protocolVersion = 1, a_flags = 0, a_tcpListenPort = 9000, a_nodeId = zero_id, a_groupName = ''default''\<rparr>"
  using announce_roundtrip [of "\<lparr>a_protocolVersion = 1, a_flags = 0, a_tcpListenPort = 9000,
     a_nodeId = zero_id, a_groupName = ''default''\<rparr>" "[255]"] by simp

end
