(* ===== verification/Config.thy ===== *)
theory Config
  imports PeerId
begin

text \<open>
  The configuration of a node (\<open>include/multimaster/config.hpp\<close>) and the error values it
  reports (\<open>include/multimaster/events.hpp\<close>).  Durations are milliseconds
  (\<open>std::chrono::milliseconds\<close>), kept as integers; the conversion \<open>ms\<close> to clock units is
  written where the code mixes them with time points.
\<close>

record seed_peer =
  sp_host :: string
  sp_port :: u16

record trusted_node =
  tn_publicKeyHex :: string
  tn_label :: string

datatype overflow = Disconnect | DropOldest | DropNewest

record mesh_config =
  nodeId :: peer_id
  groupName :: string
  protocolVersion :: u8
  psk :: string
  identityFile :: string
  identitySeedHex :: string
  nodeName :: string
  trustedKeys :: "trusted_node list"
  requireIdentity :: bool
  multicastAddr :: string
  multicastPort :: u16
  multicastIface :: string
  announceInterval :: int
  peerLostTimeout :: int
  multicastTtl :: u8
  listenPort :: u16
  bindAddr :: string
  heartbeatInterval :: int
  heartbeatTimeout :: int
  handshakeTimeout :: int
  reconnectBase :: int
  reconnectMax :: int
  initialTtl :: u8
  dedupTtl :: int
  maxDedupEntries :: nat
  fanout :: nat
  membershipInterval :: int
  membershipTimeout :: int
  maxOutboundQueueBytes :: nat
  overflowPolicy :: overflow
  maxMessageBytes :: nat
  seedPeers :: "seed_peer list"
  staticPeers :: "seed_peer list"

text \<open>The member initialisers; the default \<open>nodeId\<close> is a generated one.\<close>

definition default_config :: "peer_id \<Rightarrow> mesh_config" where
  "default_config i = \<lparr>
     nodeId = i, groupName = ''default'', protocolVersion = 1, psk = [], identityFile = [],
     identitySeedHex = [], nodeName = [], trustedKeys = [], requireIdentity = True,
     multicastAddr = ''239.255.42.99'', multicastPort = 45454, multicastIface = [],
     announceInterval = 1000, peerLostTimeout = 5000, multicastTtl = 1,
     listenPort = 0, bindAddr = ''0.0.0.0'',
     heartbeatInterval = 1000, heartbeatTimeout = 3000, handshakeTimeout = 2000,
     reconnectBase = 500, reconnectMax = 30000,
     initialTtl = 8, dedupTtl = 30000, maxDedupEntries = 100000, fanout = 0,
     membershipInterval = 2000, membershipTimeout = 8000,
     maxOutboundQueueBytes = 8 * 2 ^ 20, overflowPolicy = Disconnect, maxMessageBytes = 16 * 2 ^ 20,
     seedPeers = [], staticPeers = []\<rparr>"

datatype error_category = Socket | Protocol | Discovery | Backpressure | Crypto | Identity | Internal

record error =
  e_category :: error_category
  e_sysErrno :: int
  e_what :: string
  e_peer :: "peer_id option"

end
