(* ===== verification/EventLoop.thy ===== *)
theory EventLoop
  imports Prelude "HOL-Library.Monad_Syntax"
begin

text \<open>
  The operating system as the sources call it, and the reactor of \<open>src/event_loop.hpp\<close> and
  \<open>src/event_loop.cpp\<close>.

  \<open>'w sys\<close> collects the system calls (and \<open>clock::now()\<close>) as functions on a state \<open>'w\<close>; they are a
  parameter of every definition that uses them.  Timer callbacks are values of a type \<open>'cb\<close>
  (the closures of the sources, one constructor per lambda) run by a parameter, so that
  re-arming from inside a callback is visible: a callback maps the loop and the rest of the
  state to their successors.  A computation that does not return is \<open>None\<close>.

  Shown: the timer queue stays ordered with distinct live identifiers, timers with equal
  deadlines keep their insertion order, the wait computed for \<open>epoll_wait\<close> never oversleeps the
  next deadline, and a pass over the due timers returns after running exactly the due,
  uncancelled callbacks, in order of deadline.
\<close>

unbundle bit_operations_syntax

section \<open>System calls\<close>

record sockaddr_in =
  sin_addr :: u32
  sin_port :: u16

datatype epoll_op = EPOLL_CTL_ADD | EPOLL_CTL_MOD | EPOLL_CTL_DEL

definition EPOLLIN :: u32 where "EPOLLIN = 0x001"
definition EPOLLOUT :: u32 where "EPOLLOUT = 0x004"
definition EPOLLERR :: u32 where "EPOLLERR = 0x008"
definition EPOLLHUP :: u32 where "EPOLLHUP = 0x010"
definition EPOLLRDHUP :: u32 where "EPOLLRDHUP = 0x2000"

definition EINTR :: int where "EINTR = 4"
definition EAGAIN :: int where "EAGAIN = 11"
definition EINPROGRESS :: int where "EINPROGRESS = 115"

text \<open>
  Pointers of handlers (\<open>ev.data.ptr\<close>) are natural numbers, \<open>nullptr\<close> is 0.  Calls that can
  fail give the value of \<open>errno\<close> as \<open>Inl\<close>; \<open>sys_errno\<close> reads the variable itself.
\<close>

record 'w sys =
  sys_errno :: "'w \<Rightarrow> int"
  sys_now :: "'w \<Rightarrow> time_point \<times> 'w"
  sys_epoll_ctl :: "epoll_op \<Rightarrow> int \<Rightarrow> u32 \<Rightarrow> nat \<Rightarrow> 'w \<Rightarrow> bool \<times> 'w"
  sys_epoll_wait :: "nat \<Rightarrow> int \<Rightarrow> 'w \<Rightarrow> (int + (u32 \<times> nat) list) \<times> 'w"
  sys_eventfd_write :: "u64 \<Rightarrow> 'w \<Rightarrow> 'w"
  sys_eventfd_read :: "'w \<Rightarrow> bool \<times> 'w"
  sys_socket_tcp :: "'w \<Rightarrow> (int + int) \<times> 'w"
  sys_connect :: "int \<Rightarrow> sockaddr_in \<Rightarrow> 'w \<Rightarrow> (int + unit) \<times> 'w"
  sys_so_error :: "int \<Rightarrow> 'w \<Rightarrow> bool \<times> int \<times> 'w"
  sys_recv :: "int \<Rightarrow> nat \<Rightarrow> 'w \<Rightarrow> (int + bytes) \<times> 'w"
  sys_send :: "int \<Rightarrow> bytes \<Rightarrow> 'w \<Rightarrow> (int + nat) \<times> 'w"

section \<open>The loop\<close>

record 'cb timer =
  t_id :: u64
  t_cb :: "'cb option"

record 'cb event_loop =
  timers :: "(time_point \<times> 'cb timer) list"
  cancelled :: "u64 set"
  nextTimerId :: u64
  wakeHandler :: "'cb option"
  running :: bool

definition kWakeSentinel :: nat where
  "kWakeSentinel = 1"

definition event_loop_init :: "'cb event_loop" where
  "event_loop_init = \<lparr>timers = [], cancelled = {}, nextTimerId = 1, wakeHandler = None, running = False\<rparr>"

definition loop_add :: "'w sys \<Rightarrow> int \<Rightarrow> u32 \<Rightarrow> nat \<Rightarrow> 'w \<Rightarrow> bool \<times> 'w" where
  "loop_add sys fd events h w = sys_epoll_ctl sys EPOLL_CTL_ADD fd events h w"

definition loop_mod :: "'w sys \<Rightarrow> int \<Rightarrow> u32 \<Rightarrow> nat \<Rightarrow> 'w \<Rightarrow> bool \<times> 'w" where
  "loop_mod sys fd events h w = sys_epoll_ctl sys EPOLL_CTL_MOD fd events h w"

definition loop_del :: "'w sys \<Rightarrow> int \<Rightarrow> 'w \<Rightarrow> bool \<times> 'w" where
  "loop_del sys fd w = sys_epoll_ctl sys EPOLL_CTL_DEL fd 0 0 w"

text \<open>\<open>std::multimap::emplace\<close>: after the entries with an equal key.\<close>

fun emplace :: "time_point \<Rightarrow> 'a \<Rightarrow> (time_point \<times> 'a) list \<Rightarrow> (time_point \<times> 'a) list" where
  "emplace k v [] = [(k, v)]"
| "emplace k v ((k', v') # ts) = (if k < k' then (k, v) # (k', v') # ts else (k', v') # emplace k v ts)"

text \<open>\<open>add_timer\<close> with the clock value it reads; the delay is in clock units.\<close>

definition add_timer :: "time_point \<Rightarrow> int \<Rightarrow> 'cb \<Rightarrow> 'cb event_loop \<Rightarrow> u64 \<times> 'cb event_loop" where
  "add_timer now delay cb el =
     (let i = nextTimerId el
      in (i, el\<lparr>nextTimerId := i + 1, timers := emplace (now + delay) \<lparr>t_id = i, t_cb = Some cb\<rparr> (timers el)\<rparr>))"

definition cancel_timer :: "u64 \<Rightarrow> 'cb event_loop \<Rightarrow> 'cb event_loop" where
  "cancel_timer i el = el\<lparr>cancelled := insert i (cancelled el)\<rparr>"

definition wakeup :: "'w sys \<Rightarrow> 'w \<Rightarrow> 'w" where
  "wakeup sys w = sys_eventfd_write sys 1 w"

definition loop_stop :: "'w sys \<Rightarrow> 'cb event_loop \<times> 'w \<Rightarrow> 'cb event_loop \<times> 'w" where
  "loop_stop sys s = ((fst s)\<lparr>running := False\<rparr>, wakeup sys (snd s))"

partial_function (option) drain_wake :: "'w sys \<Rightarrow> 'w \<Rightarrow> 'w option" where
  "drain_wake sys w = (case sys_eventfd_read sys w of (got, w') \<Rightarrow> if got then drain_wake sys w' else Some w')"

text \<open>\<open>duration_cast<milliseconds>\<close> truncates toward zero; here the argument is positive.\<close>

definition next_timeout_ms :: "time_point \<Rightarrow> 'cb event_loop \<Rightarrow> int" where
  "next_timeout_ms now el =
     (case timers el of
        [] \<Rightarrow> -1
      | (due, t) # ts \<Rightarrow>
          if due \<le> now then 0
          else let m = (due - now) div 1000000
               in if m < 0 then 0 else if m > 1000 then 1000 else m)"

type_synonym ('cb, 'w) runner = "'cb \<Rightarrow> 'cb event_loop \<times> 'w \<Rightarrow> ('cb event_loop \<times> 'w) option"

partial_function (option) fire_loop ::
    "('cb, 'w) runner \<Rightarrow> 'w sys \<Rightarrow> time_point \<Rightarrow> 'cb event_loop \<times> 'w \<Rightarrow> ('cb event_loop \<times> 'w) option" where
  "fire_loop run sys now s =
     (case timers (fst s) of
        [] \<Rightarrow> Some s
      | (due, t) # ts \<Rightarrow>
          if \<not> due \<le> now then Some s
          else let el = (fst s)\<lparr>timers := ts\<rparr> in
            if t_id t \<in> cancelled el
            then fire_loop run sys now (el\<lparr>cancelled := cancelled el - {t_id t}\<rparr>, snd s)
            else do {
              s' \<leftarrow> (case t_cb t of None \<Rightarrow> Some (el, snd s) | Some cb \<Rightarrow> run cb (el, snd s));
              (case sys_now sys (snd s') of (now', w') \<Rightarrow> fire_loop run sys now' (fst s', w'))
            })"

definition fire_due_timers :: "('cb, 'w) runner \<Rightarrow> 'w sys \<Rightarrow> 'cb event_loop \<times> 'w \<Rightarrow> ('cb event_loop \<times> 'w) option" where
  "fire_due_timers run sys s = (case sys_now sys (snd s) of (now, w) \<Rightarrow> fire_loop run sys now (fst s, w))"

text \<open>The batch of ready descriptors: stop as soon as a handler cleared \<open>running\<close>.\<close>

fun handle_events ::
    "('cb, 'w) runner \<Rightarrow> (nat \<Rightarrow> u32 \<Rightarrow> 'cb event_loop \<times> 'w \<Rightarrow> ('cb event_loop \<times> 'w) option) \<Rightarrow> 'w sys \<Rightarrow>
     (u32 \<times> nat) list \<Rightarrow> 'cb event_loop \<times> 'w \<Rightarrow> ('cb event_loop \<times> 'w) option" where
  "handle_events run io sys [] s = Some s"
| "handle_events run io sys ((ev, ptr) # evs) s =
     (if \<not> running (fst s) then Some s
      else if ptr = kWakeSentinel then do {
        w \<leftarrow> drain_wake sys (snd s);
        s' \<leftarrow> (case wakeHandler (fst s) of None \<Rightarrow> Some (fst s, w) | Some h \<Rightarrow> run h (fst s, w));
        handle_events run io sys evs s' }
      else do {
        s' \<leftarrow> (if ptr \<noteq> 0 then io ptr ev s else Some s);
        handle_events run io sys evs s' })"

partial_function (option) run_loop ::
    "('cb, 'w) runner \<Rightarrow> (nat \<Rightarrow> u32 \<Rightarrow> 'cb event_loop \<times> 'w \<Rightarrow> ('cb event_loop \<times> 'w) option) \<Rightarrow> 'w sys \<Rightarrow>
     'cb event_loop \<times> 'w \<Rightarrow> ('cb event_loop \<times> 'w) option" where
  "run_loop run io sys s =
     (if \<not> running (fst s) then Some s
      else case (if timers (fst s) = [] then (0, snd s) else sys_now sys (snd s)) of (now, w) \<Rightarrow>
        (case sys_epoll_wait sys 64 (next_timeout_ms now (fst s)) w of (r, w') \<Rightarrow>
          (case r of
             Inl e \<Rightarrow> if e = EINTR then run_loop run io sys (fst s, w') else Some (fst s, w')
           | Inr evs \<Rightarrow> do {
               s' \<leftarrow> handle_events run io sys evs (fst s, w');
               s'' \<leftarrow> fire_due_timers run sys s';
               run_loop run io sys s'' })))"

definition loop_run ::
    "('cb, 'w) runner \<Rightarrow> (nat \<Rightarrow> u32 \<Rightarrow> 'cb event_loop \<times> 'w \<Rightarrow> ('cb event_loop \<times> 'w) option) \<Rightarrow> 'w sys \<Rightarrow>
     'cb event_loop \<times> 'w \<Rightarrow> ('cb event_loop \<times> 'w) option" where
  "loop_run run io sys s = run_loop run io sys ((fst s)\<lparr>running := True\<rparr>, snd s)"

section \<open>The timer queue\<close>

text \<open>Ordered by deadline, with distinct identifiers among the pending timers.\<close>

definition wf_loop :: "'cb event_loop \<Rightarrow> bool" where
  "wf_loop el \<longleftrightarrow> sorted (map fst (timers el)) \<and> distinct (map (t_id \<circ> snd) (timers el)) \<and>
     (\<forall>t\<in>set (timers el). t_id (snd t) < nextTimerId el)"

lemma set_emplace [simp]: "set (emplace k v ts) = insert (k, v) (set ts)"
  by (induction k v ts rule: emplace.induct) auto

lemma sorted_emplace: "sorted (map fst ts) \<Longrightarrow> sorted (map fst (emplace k v ts))"
  by (induction k v ts rule: emplace.induct) force+

lemma emplace_filter:
  "sorted (map fst ts) \<Longrightarrow> emplace k v ts = filter (\<lambda>t. fst t \<le> k) ts @ (k, v) # filter (\<lambda>t. k < fst t) ts"
proof (induction k v ts rule: emplace.induct)
  case (2 k v k' v' ts)
  show ?case
  proof (cases "k < k'")
    case True
    with 2 have "filter (\<lambda>t. fst t \<le> k) ts = []" "filter (\<lambda>t. k < fst t) ts = ts"
      by (auto simp: filter_empty_conv filter_id_conv)
    with True show ?thesis by simp
  qed (use 2 in simp)
qed simp

lemma distinct_emplace:
  "distinct (map f (emplace k v ts)) \<longleftrightarrow> f (k, v) \<notin> f ` set ts \<and> distinct (map f ts)"
  by (induction k v ts rule: emplace.induct) auto

lemma wf_event_loop_init [simp]: "wf_loop event_loop_init"
  by (simp add: wf_loop_def event_loop_init_def)

lemma wf_add_timer:
  assumes "wf_loop el" "nextTimerId el < -1"
  shows "wf_loop (snd (add_timer now delay cb el))"
proof -
  have "nextTimerId el < nextTimerId el + 1"
    using assms(2) by (metis add.commute eq_neg_iff_add_eq_0 less_irrefl lessI unatSuc word_less_nat_alt)
  then show ?thesis
    using assms(1) by (fastforce simp: wf_loop_def add_timer_def Let_def sorted_emplace distinct_emplace)
qed

lemma wf_cancel_timer [simp]: "wf_loop (cancel_timer i el) = wf_loop el"
  by (simp add: wf_loop_def cancel_timer_def)


section \<open>Firing\<close>

text \<open>The callbacks a pass at time \<open>now\<close> owes, in queue order.\<close>

definition due_cbs :: "time_point \<Rightarrow> 'cb event_loop \<Rightarrow> 'cb list" where
  "due_cbs now el = concat (map (\<lambda>(due, t). if due \<le> now \<and> t_id t \<notin> cancelled el
     then (case t_cb t of None \<Rightarrow> [] | Some cb \<Rightarrow> [cb]) else []) (timers el))"

definition due :: "time_point \<Rightarrow> 'cb event_loop \<Rightarrow> (time_point \<times> 'cb timer) list" where
  "due now el = filter (\<lambda>t. fst t \<le> now) (timers el)"

lemma concat_map_filter: "(\<And>x. \<not> P x \<Longrightarrow> f x = []) \<Longrightarrow> concat (map f xs) = concat (map f (filter P xs))"
  by (induction xs) auto

lemma due_cbs_due:
  "due_cbs now el = concat (map (\<lambda>(due, t). if due \<le> now \<and> t_id t \<notin> cancelled el
     then (case t_cb t of None \<Rightarrow> [] | Some cb \<Rightarrow> [cb]) else []) (due now el))"
  unfolding due_cbs_def due_def by (rule concat_map_filter) auto

lemma due_Nil: "wf_loop el \<Longrightarrow> due now el = [] \<longleftrightarrow> (case timers el of [] \<Rightarrow> True | t # ts \<Rightarrow> now < fst t)"
  by (fastforce simp: due_def wf_loop_def filter_empty_conv split: list.splits)

text \<open>
  What a callback may do to the loop while a pass at time \<open>now\<close> is running: arm timers later
  than \<open>now\<close>.  It is logged by \<open>trace\<close>.
\<close>

definition well_behaved :: "time_point \<Rightarrow> ('w \<Rightarrow> 'cb list) \<Rightarrow> 'w sys \<Rightarrow> ('cb, 'w) runner \<Rightarrow> bool" where
  "well_behaved now trace sys run \<longleftrightarrow>
     (\<forall>w. \<exists>w'. sys_now sys w = (now, w') \<and> trace w' = trace w) \<and>
     (\<forall>cb el w. wf_loop el \<longrightarrow> (\<exists>el' w'. run cb (el, w) = Some (el', w') \<and> trace w' = trace w @ [cb] \<and>
        wf_loop el' \<and> due now el' = due now el \<and> cancelled el' = cancelled el))"

lemma fire_loop_spec:
  assumes wb: "well_behaved now trace sys run" and "wf_loop el" "length (due now el) = n"
  shows "\<exists>el' w'. fire_loop run sys now (el, w) = Some (el', w') \<and> trace w' = trace w @ due_cbs now el \<and>
           wf_loop el' \<and> due now el' = []"
  using assms(2,3)
proof (induction n arbitrary: el w)
  case 0
  then show ?case
    using due_Nil [of el now] by (subst fire_loop.simps) (auto simp: due_cbs_due split: list.splits)
next
  case (Suc n)
  from Suc.prems obtain d t ts where ts: "timers el = (d, t) # ts" "d \<le> now"
    using due_Nil [of el now] by (cases "timers el") (auto simp: due_def not_less)
  let ?el = "el\<lparr>timers := ts\<rparr>"
  have wf: "wf_loop ?el" and tid: "t_id t \<notin> t_id ` snd ` set ts" and len: "length (due now ?el) = n"
    using Suc.prems ts by (auto simp: wf_loop_def due_def image_image)
  show ?case
  proof (cases "t_id t \<in> cancelled el")
    case True
    let ?el' = "?el\<lparr>cancelled := cancelled el - {t_id t}\<rparr>"
    have "due_cbs now ?el' = due_cbs now el"
      using tid True ts by (fastforce simp: due_cbs_def image_iff intro!: arg_cong [of _ _ concat])
    moreover have "wf_loop ?el'" "length (due now ?el') = n"
      using wf len by (auto simp: wf_loop_def due_def)
    ultimately show ?thesis
      using Suc.IH [of ?el' w] ts True by (subst fire_loop.simps) (simp add: Let_def)
  next
    case False
    have cbs: "due_cbs now el = (case t_cb t of None \<Rightarrow> [] | Some cb \<Rightarrow> [cb]) @ due_cbs now ?el"
      using ts False by (simp add: due_cbs_def)
    have "\<exists>el' w'. (case t_cb t of None \<Rightarrow> Some (?el, w) | Some cb \<Rightarrow> run cb (?el, w)) = Some (el', w') \<and>
        trace w' = trace w @ (case t_cb t of None \<Rightarrow> [] | Some cb \<Rightarrow> [cb]) \<and>
        wf_loop el' \<and> due now el' = due now ?el \<and> cancelled el' = cancelled ?el"
      using wb [unfolded well_behaved_def, THEN conjunct2, rule_format, OF wf, of "the (t_cb t)" w] wf
      by (cases "t_cb t") auto
    then obtain el' w' where s: "(case t_cb t of None \<Rightarrow> Some (?el, w) | Some cb \<Rightarrow> run cb (?el, w)) = Some (el', w')"
        "trace w' = trace w @ (case t_cb t of None \<Rightarrow> [] | Some cb \<Rightarrow> [cb])" "wf_loop el'"
        "due now el' = due now ?el" "cancelled el' = cancelled ?el" by blast
    from wb obtain w'' where clk: "sys_now sys w' = (now, w'')" "trace w'' = trace w'"
      unfolding well_behaved_def by blast
    have "due_cbs now el' = due_cbs now ?el"
      using s by (simp add: due_cbs_due)
    moreover have "fire_loop run sys now (el, w) = fire_loop run sys now (el', w'')"
      using s(1) clk ts False by (subst fire_loop.simps) (cases "t_cb t"; simp add: Let_def)
    ultimately show ?thesis
      using Suc.IH [of el' w''] s clk len cbs by simp
  qed
qed


text \<open>
  The wait passed to \<open>epoll_wait\<close> is \<open>-1\<close> exactly when no timer is armed; otherwise it is
  between 0 and 1000 milliseconds, it never sleeps past the next deadline, and unless capped
  it ends less than a millisecond before that deadline.
\<close>

theorem next_timeout_bounds:
  "(next_timeout_ms now el = -1 \<longleftrightarrow> timers el = []) \<and>
   (\<forall>d t ts. timers el = (d, t) # ts \<longrightarrow>
      (let m = next_timeout_ms now el in
        0 \<le> m \<and> m \<le> 1000 \<and> now + ms m \<le> max d now \<and> (m < 1000 \<longrightarrow> d < now + ms (m + 1))))"
  by (auto simp: next_timeout_ms_def Let_def ms_def split: list.split)

text \<open>A system whose clock stands at \<open>now\<close> and whose sockets never have work.\<close>

definition idle_sys :: "time_point \<Rightarrow> 'w sys" where
  "idle_sys now = \<lparr>sys_errno = (\<lambda>w. 0), sys_now = (\<lambda>w. (now, w)), sys_epoll_ctl = (\<lambda>_ _ _ _ w. (True, w)),
     sys_epoll_wait = (\<lambda>_ _ w. (Inr [], w)), sys_eventfd_write = (\<lambda>_ w. w), sys_eventfd_read = (\<lambda>w. (False, w)),
     sys_socket_tcp = (\<lambda>w. (Inr 3, w)), sys_connect = (\<lambda>_ _ w. (Inr (), w)), sys_so_error = (\<lambda>_ w. (True, 0, w)),
     sys_recv = (\<lambda>_ _ w. (Inl EAGAIN, w)), sys_send = (\<lambda>_ _ w. (Inl EAGAIN, w))\<rparr>"

text \<open>Two timers with one deadline, the second cancelled, and a later one.\<close>

definition sample_loop :: "nat event_loop" where
  "sample_loop = cancel_timer 2 (snd (add_timer 0 9 30 (snd (add_timer 0 5 20 (snd (add_timer 0 5 10 event_loop_init))))))"

lemma sample_loop_eq:
  "sample_loop = \<lparr>timers = [(5, \<lparr>t_id = 1, t_cb = Some 10\<rparr>), (5, \<lparr>t_id = 2, t_cb = Some 20\<rparr>), (9, \<lparr>t_id = 3, t_cb = Some 30\<rparr>)],
     cancelled = {2}, nextTimerId = 4, wakeHandler = None, running = False\<rparr>"
  by (simp add: sample_loop_def cancel_timer_def add_timer_def event_loop_init_def)

definition log_run :: "(nat, nat list) runner" where
  "log_run cb s = Some (fst s, snd s @ [cb])"


theorem next_timeout_bounds_witness:
  "next_timeout_ms 0 \<lparr>timers = [(2500000, \<lparr>t_id = 1, t_cb = Some ()\<rparr>)], cancelled = {}, nextTimerId = 2,
     wakeHandler = None, running = True\<rparr> = 2 \<and>
   (let m = next_timeout_ms 0 \<lparr>timers = [(2500000, \<lparr>t_id = 1, t_cb = Some ()\<rparr>)], cancelled = {}, nextTimerId = 2,
     wakeHandler = None, running = True\<rparr> in 0 \<le> m \<and> m \<le> 1000 \<and> 0 + ms m \<le> max 2500000 0 \<and> (m < 1000 \<longrightarrow> 2500000 < 0 + ms (m + 1)))"
  using next_timeout_bounds [of 0 "\<lparr>timers = [(2500000, \<lparr>t_id = 1, t_cb = Some ()\<rparr>)], cancelled = {}, nextTimerId = 2,
     wakeHandler = None, running = True\<rparr>"] by (simp add: next_timeout_ms_def)

end
