(* ===== verification/GossipRouter.thy ===== *)
theory GossipRouter
  imports Config Wire EventLoop
begin

text \<open>
  Forwarding policy of \<open>src/gossip_router.hpp\<close> and \<open>src/gossip_router.cpp\<close>: the cache of seen
  message ids (a hash set with a FIFO of time stamps), the minting of ids, broadcast flooding,
  targeted relay and the eviction sweeps.

  The abstract class \<open>forwarder\<close> is a record of functions on the state \<open>'w\<close> of whoever moves
  the bytes; \<open>PeerManager\<close> provides it.  A call that does not return is \<open>None\<close>.  Clock values
  are arguments.

  Shown: the set and the FIFO hold the same ids, without repetition and within the configured
  cap; a message seen once is dropped, with no delivery and no forwarding, as long as fewer than
  \<open>maxDedupEntries\<close> operations follow within \<open>dedupTtl\<close>; minted ids repeat only when the 64-bit
  counter does; and the sweep timer armed by \<open>start\<close> fires twice and then never again.
\<close>

section \<open>State and operations\<close>

record 'w forwarder =
  forward_except :: "bytes \<Rightarrow> int \<Rightarrow> 'w \<Rightarrow> 'w option"
  forward_to :: "peer_id \<Rightarrow> bytes \<Rightarrow> 'w \<Rightarrow> (bool \<times> 'w) option"
  deliver_local :: "peer_id \<Rightarrow> bytes \<Rightarrow> 'w \<Rightarrow> 'w"

record stamp =
  st_id :: message_id
  st_at :: time_point

record gossip_router =
  gr_self :: peer_id
  gr_counter :: u64
  gr_dedup :: "message_id set"
  gr_order :: "stamp list"

text \<open>The constructor; \<open>rd1\<close> and \<open>rd2\<close> are the two draws from \<open>std::random_device\<close>.\<close>

unbundle bit_operations_syntax

definition gossip_router_init :: "u32 \<Rightarrow> u32 \<Rightarrow> peer_id \<Rightarrow> gossip_router" where
  "gossip_router_init rd1 rd2 self =
     \<lparr>gr_self = self, gr_counter = push_bit 32 (ucast rd1) XOR ucast rd2, gr_dedup = {}, gr_order = []\<rparr>"

text \<open>The two closures passed to \<open>add_timer\<close>: the outer one sweeps and arms the inner one.\<close>

datatype sweep_cb = Sweep_rearm int | Sweep_only

definition sweep_period :: "mesh_config \<Rightarrow> int" where
  "sweep_period cfg = (let period = dedupTtl cfg div 4 in if period \<le> 0 then 1000 else period)"

definition gr_start :: "(sweep_cb \<Rightarrow> 'cb) \<Rightarrow> mesh_config \<Rightarrow> time_point \<Rightarrow> 'cb event_loop \<Rightarrow> 'cb event_loop" where
  "gr_start wrap cfg now el =
     (let period = sweep_period cfg in snd (add_timer now (ms period) (wrap (Sweep_rearm period)) el))"

definition next_id :: "gossip_router \<Rightarrow> message_id \<times> gossip_router" where
  "next_id gr =
     (let c = gr_counter gr + 1
      in (Message_id (take 8 (pid_bytes (gr_self gr)) @ map (\<lambda>i. byte_at ((7 - i) * 8) c) [0..<8]),
          gr\<lparr>gr_counter := c\<rparr>))"

fun evict_cap :: "nat \<Rightarrow> message_id set \<Rightarrow> stamp list \<Rightarrow> message_id set \<times> stamp list" where
  "evict_cap cap dedup [] = (dedup, [])"
| "evict_cap cap dedup (s # order) =
     (if length (s # order) > cap then evict_cap cap (dedup - {st_id s}) order else (dedup, s # order))"

definition seen :: "mesh_config \<Rightarrow> time_point \<Rightarrow> message_id \<Rightarrow> gossip_router \<Rightarrow> bool \<times> gossip_router" where
  "seen cfg now i gr =
     (if i \<in> gr_dedup gr then (True, gr)
      else case evict_cap (maxDedupEntries cfg) (insert i (gr_dedup gr)) (gr_order gr @ [\<lparr>st_id = i, st_at = now\<rparr>]) of
        (dedup, order) \<Rightarrow> (False, gr\<lparr>gr_dedup := dedup, gr_order := order\<rparr>))"

fun evict_old :: "time_point \<Rightarrow> message_id set \<Rightarrow> stamp list \<Rightarrow> message_id set \<times> stamp list" where
  "evict_old cutoff dedup [] = (dedup, [])"
| "evict_old cutoff dedup (s # order) =
     (if st_at s < cutoff then evict_old cutoff (dedup - {st_id s}) order else (dedup, s # order))"

definition evict_sweep :: "mesh_config \<Rightarrow> time_point \<Rightarrow> gossip_router \<Rightarrow> gossip_router" where
  "evict_sweep cfg now gr =
     (case evict_old (now - ms (dedupTtl cfg)) (gr_dedup gr) (gr_order gr) of
        (dedup, order) \<Rightarrow> gr\<lparr>gr_dedup := dedup, gr_order := order\<rparr>)"

fun run_sweep ::
    "(sweep_cb \<Rightarrow> 'cb) \<Rightarrow> mesh_config \<Rightarrow> time_point \<Rightarrow> sweep_cb \<Rightarrow> gossip_router \<times> 'cb event_loop \<Rightarrow> gossip_router \<times> 'cb event_loop" where
  "run_sweep wrap cfg now (Sweep_rearm period) (gr, el) =
     (evict_sweep cfg now gr, snd (add_timer now (ms period) (wrap Sweep_only) el))"
| "run_sweep wrap cfg now Sweep_only (gr, el) = (evict_sweep cfg now gr, el)"

definition on_data ::
    "mesh_config \<Rightarrow> time_point \<Rightarrow> data_view \<Rightarrow> int \<Rightarrow> 'w forwarder \<Rightarrow> gossip_router \<times> 'w \<Rightarrow> (gossip_router \<times> 'w) option" where
  "on_data cfg now view inboundFd fwd s =
     (case seen cfg now (v_msgId view) (fst s) of (dup, gr) \<Rightarrow>
        if dup then Some (gr, snd s)
        else let isBroadcast = is_zero (v_dst view);
                 frame = encode_data (v_src view) (v_dst view) (v_msgId view) (v_ttl view - 1) (v_payload view)
          in if isBroadcast
             then let w = (if v_src view \<noteq> gr_self gr then deliver_local fwd (v_src view) (v_payload view) (snd s) else snd s)
                  in if v_ttl view > 1
                     then do { w' \<leftarrow> forward_except fwd frame inboundFd w; Some (gr, w') }
                     else Some (gr, w)
             else if v_dst view = gr_self gr
             then Some (gr, deliver_local fwd (v_src view) (v_payload view) (snd s))
             else if v_ttl view > 1
             then do {
               (sent, w) \<leftarrow> forward_to fwd (v_dst view) frame (snd s);
               w' \<leftarrow> (if \<not> sent then forward_except fwd frame inboundFd w else Some w);
               Some (gr, w') }
             else Some (gr, snd s))"

definition originate_broadcast ::
    "mesh_config \<Rightarrow> time_point \<Rightarrow> bytes \<Rightarrow> 'w forwarder \<Rightarrow> gossip_router \<times> 'w \<Rightarrow> (gossip_router \<times> 'w) option" where
  "originate_broadcast cfg now payload fwd s =
     (case next_id (fst s) of (i, gr) \<Rightarrow>
        let gr' = snd (seen cfg now i gr);
            frame = encode_data (gr_self gr') zero_id i (initialTtl cfg) payload
        in do { w \<leftarrow> forward_except fwd frame (-1) (snd s); Some (gr', w) })"

definition originate_targeted ::
    "mesh_config \<Rightarrow> time_point \<Rightarrow> peer_id \<Rightarrow> bytes \<Rightarrow> 'w forwarder \<Rightarrow> gossip_router \<times> 'w \<Rightarrow> (gossip_router \<times> 'w) option" where
  "originate_targeted cfg now dst payload fwd s =
     (if dst = gr_self (fst s) then Some (fst s, deliver_local fwd (gr_self (fst s)) payload (snd s))
      else case next_id (fst s) of (i, gr) \<Rightarrow>
        let gr' = snd (seen cfg now i gr);
            frame = encode_data (gr_self gr') dst i (initialTtl cfg) payload
        in do {
          (sent, w) \<leftarrow> forward_to fwd dst frame (snd s);
          w' \<leftarrow> (if \<not> sent then forward_except fwd frame (-1) w else Some w);
          Some (gr', w') })"

section \<open>The dedup cache\<close>

definition ids :: "stamp list \<Rightarrow> message_id list" where
  "ids order = map st_id order"

text \<open>The set and the FIFO agree, no id is stamped twice, and the cap holds.\<close>

definition wf_router :: "mesh_config \<Rightarrow> gossip_router \<Rightarrow> bool" where
  "wf_router cfg gr \<longleftrightarrow> gr_dedup gr = set (ids (gr_order gr)) \<and> distinct (ids (gr_order gr)) \<and>
     length (gr_order gr) \<le> maxDedupEntries cfg"

lemma ids_simps [simp]: "ids [] = []" "ids (s # o') = st_id s # ids o'" "ids (o1 @ o2) = ids o1 @ ids o2"
  "length (ids o') = length o'"
  by (simp_all add: ids_def)

lemma ids_drop: "ids (drop n o') = drop n (ids o')"
  by (simp add: ids_def drop_map)

text \<open>Both evictions drop a prefix of the FIFO and its ids from the set.\<close>

lemma evict_cap_eq:
  "distinct (ids o') \<Longrightarrow> evict_cap cap (set (ids o')) o' =
     (set (ids (drop (length o' - cap) o')), drop (length o' - cap) o')"
proof (induction cap "set (ids o')" o' rule: evict_cap.induct)
  case (2 cap s order)
  then have "set (ids (s # order)) - {st_id s} = set (ids order)" by auto
  with 2 show ?case by (auto simp: Suc_diff_le)
qed simp

lemma evict_old_eq:
  "distinct (ids o') \<Longrightarrow> evict_old cutoff (set (ids o')) o' =
     (set (ids (dropWhile (\<lambda>s. st_at s < cutoff) o')), dropWhile (\<lambda>s. st_at s < cutoff) o')"
proof (induction cutoff "set (ids o')" o' rule: evict_old.induct)
  case (2 cutoff s order)
  then have "set (ids (s # order)) - {st_id s} = set (ids order)" by auto
  with 2 show ?case by auto
qed simp

lemma seen_eq:
  assumes "wf_router cfg gr"
  shows "seen cfg now i gr =
     (if i \<in> set (ids (gr_order gr)) then (True, gr)
      else let o' = gr_order gr @ [\<lparr>st_id = i, st_at = now\<rparr>];
               o'' = drop (length o' - maxDedupEntries cfg) o'
           in (False, gr\<lparr>gr_dedup := set (ids o''), gr_order := o''\<rparr>))"
proof -
  let ?o = "gr_order gr @ [\<lparr>st_id = i, st_at = now\<rparr>]"
  have "insert i (gr_dedup gr) = set (ids ?o)" using assms by (auto simp: wf_router_def)
  moreover have "i \<notin> set (ids (gr_order gr)) \<Longrightarrow> distinct (ids ?o)" using assms by (auto simp: wf_router_def)
  ultimately show ?thesis
    using assms evict_cap_eq [of ?o "maxDedupEntries cfg"] by (auto simp: seen_def wf_router_def Let_def)
qed

lemma seen_fields [simp]:
  "gr_self (snd (seen cfg now i gr)) = gr_self gr" "gr_counter (snd (seen cfg now i gr)) = gr_counter gr"
  by (simp_all add: seen_def split: prod.split)

lemma wf_drop:
  "distinct (ids o') \<Longrightarrow> length o' - n \<le> maxDedupEntries cfg \<Longrightarrow>
   wf_router cfg (gr\<lparr>gr_dedup := set (ids (drop n o')), gr_order := drop n o'\<rparr>)"
  by (simp add: wf_router_def ids_drop)

lemma wf_seen:
  assumes "wf_router cfg gr"
  shows "wf_router cfg (snd (seen cfg now i gr))"
proof (cases "i \<in> set (ids (gr_order gr))")
  case False
  then have "distinct (ids (gr_order gr @ [\<lparr>st_id = i, st_at = now\<rparr>]))"
    using assms by (simp add: wf_router_def)
  then show ?thesis
    using assms False wf_drop [of _ _ cfg gr] by (simp add: seen_eq Let_def del: drop_append)
qed (simp add: assms seen_eq)

lemma evict_sweep_eq:
  "wf_router cfg gr \<Longrightarrow> evict_sweep cfg now gr =
     (let o' = dropWhile (\<lambda>s. st_at s < now - ms (dedupTtl cfg)) (gr_order gr)
      in gr\<lparr>gr_dedup := set (ids o'), gr_order := o'\<rparr>)"
  using evict_old_eq [of "gr_order gr" "now - ms (dedupTtl cfg)"]
  by (simp add: wf_router_def evict_sweep_def Let_def)

lemma wf_evict_sweep: "wf_router cfg gr \<Longrightarrow> wf_router cfg (evict_sweep cfg now gr)"
  unfolding evict_sweep_eq Let_def dropWhile_eq_drop by (rule wf_drop) (auto simp: wf_router_def)

lemma wf_next_id [simp]: "wf_router cfg (snd (next_id gr)) = wf_router cfg gr"
  by (simp add: wf_router_def next_id_def Let_def)

section \<open>Sequences of operations\<close>

datatype router_op = Rx data_view int | Tx_broadcast bytes | Tx_targeted peer_id bytes | Sweep

fun router_step ::
    "mesh_config \<Rightarrow> 'w forwarder \<Rightarrow> time_point \<times> router_op \<Rightarrow> gossip_router \<times> 'w \<Rightarrow> (gossip_router \<times> 'w) option" where
  "router_step cfg fwd (now, Rx v fd) s = on_data cfg now v fd fwd s"
| "router_step cfg fwd (now, Tx_broadcast p) s = originate_broadcast cfg now p fwd s"
| "router_step cfg fwd (now, Tx_targeted dst p) s = originate_targeted cfg now dst p fwd s"
| "router_step cfg fwd (now, Sweep) s = Some (evict_sweep cfg now (fst s), snd s)"

fun run_router ::
    "mesh_config \<Rightarrow> 'w forwarder \<Rightarrow> (time_point \<times> router_op) list \<Rightarrow> gossip_router \<times> 'w \<Rightarrow> (gossip_router \<times> 'w) option" where
  "run_router cfg fwd [] s = Some s"
| "run_router cfg fwd (e # es) s = do { s' \<leftarrow> router_step cfg fwd e s; run_router cfg fwd es s' }"

text \<open>What an operation does to the router itself.\<close>

lemma on_data_router: "on_data cfg now v fd fwd s = Some s' \<Longrightarrow> fst s' = snd (seen cfg now (v_msgId v) (fst s))"
  by (auto simp: on_data_def Let_def bind_eq_Some_conv split: prod.splits if_splits)

lemma originate_broadcast_router:
  "originate_broadcast cfg now p fwd s = Some s' \<Longrightarrow>
   fst s' = snd (seen cfg now (fst (next_id (fst s))) (snd (next_id (fst s))))"
  by (auto simp: originate_broadcast_def Let_def bind_eq_Some_conv split: prod.splits)

lemma originate_targeted_router:
  "originate_targeted cfg now dst p fwd s = Some s' \<Longrightarrow>
   fst s' = fst s \<or> fst s' = snd (seen cfg now (fst (next_id (fst s))) (snd (next_id (fst s))))"
  by (auto simp: originate_targeted_def Let_def bind_eq_Some_conv split: prod.splits if_splits)

lemmas router_fields = on_data_router originate_broadcast_router originate_targeted_router

lemma router_step_cases:
  assumes "router_step cfg fwd (now, e) s = Some s'"
  obtains (same) "fst s' = fst s"
    | (seen) i gr where "fst s' = snd (seen cfg now i gr)" "gr_order gr = gr_order (fst s)" "gr_dedup gr = gr_dedup (fst s)"
        "gr_self gr = gr_self (fst s)"
    | (sweep) "fst s' = evict_sweep cfg now (fst s)"
proof (cases e)
  case (Rx v fd)
  then show ?thesis using assms that(2) [of "v_msgId v" "fst s"] by (auto dest: on_data_router)
next
  case (Tx_broadcast p)
  then show ?thesis using assms that(2) by (auto dest!: originate_broadcast_router simp: next_id_def Let_def)
next
  case (Tx_targeted d p)
  then show ?thesis using assms that(1,2) by (auto dest!: originate_targeted_router simp: next_id_def Let_def)
next
  case Sweep
  then show ?thesis using assms that(3) by auto
qed

lemma wf_router_cong: "gr_order gr = gr_order gr' \<Longrightarrow> gr_dedup gr = gr_dedup gr' \<Longrightarrow> wf_router cfg gr = wf_router cfg gr'"
  by (simp add: wf_router_def)

lemma wf_router_step: "router_step cfg fwd e s = Some s' \<Longrightarrow> wf_router cfg (fst s) \<Longrightarrow> wf_router cfg (fst s')"
proof (cases e)
  fix now op
  assume "router_step cfg fwd e s = Some s'" "e = (now, op)" and wf: "wf_router cfg (fst s)"
  then have "router_step cfg fwd (now, op) s = Some s'" by simp
  then show ?thesis
  proof (cases rule: router_step_cases)
    case (seen i gr)
    then show ?thesis using wf wf_router_cong [of gr "fst s" cfg] by (simp add: wf_seen)
  qed (use wf in \<open>simp_all add: wf_evict_sweep\<close>)
qed

lemma wf_run_router: "run_router cfg fwd es s = Some s' \<Longrightarrow> wf_router cfg (fst s) \<Longrightarrow> wf_router cfg (fst s')"
  by (induction es arbitrary: s) (auto simp: bind_eq_Some_conv intro: wf_router_step)

text \<open>The forwarder of the specification: it only logs the deliveries.\<close>

definition log_fwd :: "(peer_id \<times> bytes) list forwarder" where
  "log_fwd = \<lparr>forward_except = \<lambda>frame fd. Some, forward_to = \<lambda>dst frame w. Some (True, w), deliver_local = \<lambda>from payload w. w @ [(from, payload)]\<rparr>"

lemma log_fwd_simps [simp]:
  "forward_except log_fwd frame fd w = Some w" "forward_to log_fwd dst frame w = Some (True, w)"
  "deliver_local log_fwd from payload w = w @ [(from, payload)]"
  by (simp_all add: log_fwd_def)

lemma router_step_log:
  assumes "router_step cfg log_fwd e (gr, []) = Some (gr', ds)"
  shows "router_step cfg log_fwd e (gr, ds0) = Some (gr', ds0 @ ds)"
  using assms
  by (cases e rule: prod.exhaust; cases "snd e")
     (auto simp: on_data_def originate_broadcast_def originate_targeted_def Let_def split: prod.splits if_splits)

section \<open>Duplicates\<close>

text \<open>\<open>m\<close> is cached with a stamp not older than \<open>t0\<close> and at most \<open>k\<close> ids behind it.\<close>

definition retained :: "message_id \<Rightarrow> time_point \<Rightarrow> nat \<Rightarrow> gossip_router \<Rightarrow> bool" where
  "retained m t0 k gr \<longleftrightarrow> (\<exists>pre post t. gr_order gr = pre @ \<lparr>st_id = m, st_at = t\<rparr> # post \<and> t0 \<le> t \<and> length post \<le> k)"

lemma retainedI:
  "gr_order gr = pre @ \<lparr>st_id = m, st_at = t\<rparr> # post \<Longrightarrow> t0 \<le> t \<Longrightarrow> length post \<le> k \<Longrightarrow> retained m t0 k gr"
  unfolding retained_def by blast

lemma retained_mono: "retained m t0 k gr \<Longrightarrow> k \<le> k' \<Longrightarrow> retained m t0 k' gr"
  unfolding retained_def by (elim exE conjE, intro exI conjI, assumption+) (erule (1) le_trans)

lemma retained_cached: "wf_router cfg gr \<Longrightarrow> retained m t0 k gr \<Longrightarrow> m \<in> gr_dedup gr"
  unfolding retained_def wf_router_def by (elim exE conjE) simp

lemma retained_seen:
  assumes "wf_router cfg gr" "retained m t0 k gr" "Suc k < maxDedupEntries cfg"
  shows "retained m t0 (Suc k) (snd (seen cfg now i gr))"
proof (cases "i \<in> set (ids (gr_order gr))")
  case True
  then show ?thesis using assms retained_mono [of m t0 k gr "Suc k"] by (simp add: seen_eq)
next
  case False
  from assms(2) obtain pre post t where o: "gr_order gr = pre @ \<lparr>st_id = m, st_at = t\<rparr> # post" "t0 \<le> t" "length post \<le> k"
    unfolding retained_def by blast
  let ?n = "length (gr_order gr @ [\<lparr>st_id = i, st_at = now\<rparr>]) - maxDedupEntries cfg"
  have "?n \<le> length pre" using o assms(3) by simp
  then have "drop ?n (gr_order gr @ [\<lparr>st_id = i, st_at = now\<rparr>]) =
      drop ?n pre @ \<lparr>st_id = m, st_at = t\<rparr> # (post @ [\<lparr>st_id = i, st_at = now\<rparr>])"
    by (simp only: o(1) drop_append append_assoc append_Cons) simp
  then show ?thesis
    using assms(1) False o(2,3)
    by (intro retainedI [of _ "drop ?n pre" _ t "post @ [\<lparr>st_id = i, st_at = now\<rparr>]"])
       (simp_all add: seen_eq Let_def del: drop_append)
qed

lemma retained_first:
  assumes "wf_router cfg gr" "m \<notin> gr_dedup gr" "0 < maxDedupEntries cfg"
  shows "retained m now 0 (snd (seen cfg now m gr))"
proof -
  let ?n = "length (gr_order gr @ [\<lparr>st_id = m, st_at = now\<rparr>]) - maxDedupEntries cfg"
  have "?n \<le> length (gr_order gr)" using assms(3) by simp
  then have "drop ?n (gr_order gr @ [\<lparr>st_id = m, st_at = now\<rparr>]) = drop ?n (gr_order gr) @ [\<lparr>st_id = m, st_at = now\<rparr>]"
    by (simp only: drop_append) simp
  then show ?thesis
    using assms(1,2) by (intro retainedI [of _ "drop ?n (gr_order gr)" _ now "[]"])
      (simp_all add: seen_eq Let_def wf_router_def del: drop_append)
qed

lemma retained_sweep:
  assumes "wf_router cfg gr" "retained m t0 k gr" "now \<le> t0 + ms (dedupTtl cfg)"
  shows "retained m t0 k (evict_sweep cfg now gr)"
proof -
  from assms(2) obtain pre post t where o: "gr_order gr = pre @ \<lparr>st_id = m, st_at = t\<rparr> # post" "t0 \<le> t" "length post \<le> k"
    unfolding retained_def by blast
  then show ?thesis
    using assms(3)
    by (intro retainedI [of _ "dropWhile (\<lambda>s. st_at s < now - ms (dedupTtl cfg)) pre" _ t post])
       (simp_all add: evict_sweep_eq [OF assms(1)] Let_def dropWhile_append3)
qed

lemma retained_step:
  assumes "router_step cfg fwd (now, e) s = Some s'" "wf_router cfg (fst s)" "retained m t0 k (fst s)"
    "Suc k < maxDedupEntries cfg" "now \<le> t0 + ms (dedupTtl cfg)"
  shows "retained m t0 (Suc k) (fst s')"
  using assms(1)
proof (cases rule: router_step_cases)
  case same
  then show ?thesis using assms(3) retained_mono [of m t0 k _ "Suc k"] by simp
next
  case (seen i gr)
  then have "wf_router cfg gr" "retained m t0 k gr" using assms by (simp_all add: wf_router_def retained_def)
  then show ?thesis using seen assms(4) by (simp add: retained_seen)
next
  case sweep
  then show ?thesis using assms retained_mono [of m t0 k _ "Suc k"] by (simp add: retained_sweep)
qed

lemma retained_run:
  "run_router cfg fwd es s = Some s' \<Longrightarrow> wf_router cfg (fst s) \<Longrightarrow> retained m t0 k (fst s) \<Longrightarrow>
   k + length es < maxDedupEntries cfg \<Longrightarrow> \<forall>e\<in>set es. fst e \<le> t0 + ms (dedupTtl cfg) \<Longrightarrow>
   retained m t0 (k + length es) (fst s')"
proof (induction es arbitrary: s k)
  case (Cons e es)
  then obtain s1 where s1: "router_step cfg fwd e s = Some s1" "run_router cfg fwd es s1 = Some s'"
    by (auto simp: bind_eq_Some_conv)
  with Cons.prems have "retained m t0 (Suc k) (fst s1)"
    by (cases e) (auto intro: retained_step)
  with Cons.IH [OF s1(2), of "Suc k"] Cons.prems s1(1) show ?case
    by (auto intro: wf_router_step)
qed simp

text \<open>
  C23: A message that was recorded at time \<open>t0\<close> is dropped when it arrives again, whatever link
  it comes from: the router and the forwarder's state stay as they are, so it is neither
  delivered nor forwarded a second time.  This holds as long as fewer than \<open>maxDedupEntries\<close>
  operations happened in between, none of them later than \<open>dedupTtl\<close> after \<open>t0\<close>.
\<close>

theorem duplicate_dropped:
  assumes "wf_router cfg gr" "v_msgId v \<notin> gr_dedup gr"
    and "on_data cfg t0 v fd fwd (gr, w) = Some s1" "run_router cfg fwd es s1 = Some s2"
    and "length es < maxDedupEntries cfg" "\<forall>e\<in>set es. fst e \<le> t0 + ms (dedupTtl cfg)"
    and "v_msgId v' = v_msgId v"
  shows "on_data cfg now v' fd' fwd s2 = Some s2"
proof -
  have s1: "fst s1 = snd (seen cfg t0 (v_msgId v) gr)"
    using on_data_router [OF assms(3)] by simp
  then have wf: "wf_router cfg (fst s1)" and r: "retained (v_msgId v) t0 0 (fst s1)"
    using assms by (auto intro: wf_seen retained_first)
  have "retained (v_msgId v) t0 (length es) (fst s2)"
    using retained_run [OF assms(4) wf r] assms(5,6) by simp
  then have "v_msgId v' \<in> gr_dedup (fst s2)"
    using retained_cached [OF wf_run_router [OF assms(4) wf]] assms(7) by simp
  then show ?thesis by (simp add: on_data_def seen_def)
qed

section \<open>Local delivery\<close>

text \<open>
  What the router needs of a forwarder to count deliveries: only \<open>deliver_local\<close> hands a payload
  to the application, and it does so once.
\<close>

locale delivery_log =
  fixes fwd :: "'w forwarder"
    and delivered :: "'w \<Rightarrow> (peer_id \<times> bytes) list"
  assumes except_silent: "forward_except fwd frame fd w = Some w' \<Longrightarrow> delivered w' = delivered w"
    and to_silent: "forward_to fwd dst frame w = Some (sent, w') \<Longrightarrow> delivered w' = delivered w"
    and deliver_once: "delivered (deliver_local fwd from payload w) = delivered w @ [(from, payload)]"
begin

lemma on_data_delivers:
  assumes "on_data cfg now v fd fwd (gr, w) = Some (gr', w')"
  shows "delivered w' = delivered w @
    (if v_msgId v \<notin> gr_dedup gr \<and> (if is_zero (v_dst v) then v_src v \<noteq> gr_self gr else v_dst v = gr_self gr)
     then [(v_src v, v_payload v)] else [])"
proof (cases "v_msgId v \<in> gr_dedup gr")
  case True
  then show ?thesis using assms by (auto simp: on_data_def seen_def)
next
  case False
  then obtain gr1 where "seen cfg now (v_msgId v) gr = (False, gr1)" "gr_self gr1 = gr_self gr"
    using seen_fields(1) [of cfg now "v_msgId v" gr] by (fastforce simp: seen_def split: prod.splits)
  with False assms show ?thesis
    by (auto simp: on_data_def Let_def bind_eq_Some_conv deliver_once dest!: except_silent to_silent split: if_splits)
qed

lemma originate_broadcast_delivers:
  "originate_broadcast cfg now p fwd (gr, w) = Some (gr', w') \<Longrightarrow> delivered w' = delivered w"
  by (auto simp: originate_broadcast_def Let_def bind_eq_Some_conv dest: except_silent split: prod.splits)

lemma originate_targeted_delivers:
  "originate_targeted cfg now dst p fwd (gr, w) = Some (gr', w') \<Longrightarrow>
   delivered w' = delivered w @ (if dst = gr_self gr then [(dst, p)] else [])"
  by (auto simp: originate_targeted_def Let_def bind_eq_Some_conv deliver_once
      dest!: except_silent to_silent split: prod.splits if_splits)

end

section \<open>Minted ids\<close>

fun mint :: "nat \<Rightarrow> gossip_router \<Rightarrow> message_id list" where
  "mint 0 gr = []"
| "mint (Suc n) gr = (case next_id gr of (i, gr') \<Rightarrow> i # mint n gr')"

lemma next_id_eq:
  "next_id gr = (Message_id (take 8 (pid_bytes (gr_self gr)) @ be64 (gr_counter gr + 1)), gr\<lparr>gr_counter := gr_counter gr + 1\<rparr>)"
  by (simp add: next_id_def Let_def be64_def upt_8)

lemma mint_eq:
  "mint n gr = map (\<lambda>k. Message_id (take 8 (pid_bytes (gr_self gr)) @ be64 (gr_counter gr + of_nat (Suc k)))) [0..<n]"
proof (induction n arbitrary: gr)
  case (Suc n)
  have "[0..<Suc n] = 0 # map Suc [0..<n]" by (simp add: map_Suc_upt upt_conv_Cons del: upt_Suc)
  then show ?case by (simp add: Suc next_id_eq add_ac del: upt_Suc)
qed simp

text \<open>
  C24: The ids a node mints in a row are pairwise distinct until its 64-bit counter has gone
  round once, wherever the random seed started it; each is 16 bytes long and begins with the
  first eight bytes of the node id, so nodes that differ there never mint the same id.
\<close>

theorem minted_ids_distinct:
  assumes "wf_id (gr_self gr)" "n \<le> 2 ^ 64"
  shows "distinct (mint n gr) \<and>
    (\<forall>i\<in>set (mint n gr). wf_mid i \<and> take 8 (mid_bytes i) = take 8 (pid_bytes (gr_self gr)))"
proof
  have "inj_on (\<lambda>k. of_nat (Suc k) :: u64) {0..<n}"
  proof (rule inj_onI)
    fix x y assume "x \<in> {0..<n}" "y \<in> {0..<n}" "(of_nat (Suc x) :: u64) = of_nat (Suc y)"
    then have "(of_nat x :: u64) = of_nat y" "x < 2 ^ 64" "y < 2 ^ 64" using assms(2) by auto
    then show "x = y" by (simp add: word_of_nat_eq_iff take_bit_nat_eq_self)
  qed
  then show "distinct (mint n gr)"
    by (auto simp: mint_eq distinct_map inj_on_def)
  show "\<forall>i\<in>set (mint n gr). wf_mid i \<and> take 8 (mid_bytes i) = take 8 (pid_bytes (gr_self gr))"
    using assms(1) by (auto simp: mint_eq wf_mid_def wf_id_def)
qed

section \<open>The sweep timer\<close>

definition sweep_runner :: "mesh_config \<Rightarrow> time_point \<Rightarrow> (sweep_cb, gossip_router) runner" where
  "sweep_runner cfg now cb s = (case run_sweep (\<lambda>c. c) cfg now cb (snd s, fst s) of (gr, el) \<Rightarrow> Some (el, gr))"

text \<open>
  C37: The timer armed by \<open>start\<close> sweeps when it first fires and arms one more, which sweeps and
  arms nothing: after two sweeps the loop has no sweep timer left, and from then on only the
  size cap evicts ids.
\<close>

theorem sweep_timer_stops:
  assumes "t0 + ms (sweep_period cfg) \<le> t1" "t1 + ms (sweep_period cfg) \<le> t2"
  shows "\<exists>el1 gr1 el2 gr2.
     fire_due_timers (sweep_runner cfg t1) (idle_sys t1) (gr_start (\<lambda>c. c) cfg t0 event_loop_init, gr) = Some (el1, gr1) \<and>
     gr1 = evict_sweep cfg t1 gr \<and> map fst (timers el1) = [t1 + ms (sweep_period cfg)] \<and>
     fire_due_timers (sweep_runner cfg t2) (idle_sys t2) (el1, gr1) = Some (el2, gr2) \<and>
     gr2 = evict_sweep cfg t2 gr1 \<and> timers el2 = []"
proof -
  have p: "0 < ms (sweep_period cfg)" by (simp add: sweep_period_def Let_def)
  let ?el1 = "\<lparr>timers = [(t1 + ms (sweep_period cfg), \<lparr>t_id = 2, t_cb = Some Sweep_only\<rparr>)], cancelled = {},
    nextTimerId = 3, wakeHandler = None, running = False\<rparr>"
  have 1: "fire_due_timers (sweep_runner cfg t1) (idle_sys t1) (gr_start (\<lambda>c. c) cfg t0 event_loop_init, gr) =
      Some (?el1, evict_sweep cfg t1 gr)"
    using assms p by (simp add: fire_due_timers_def idle_sys_def fire_loop.simps gr_start_def Let_def add_timer_def
        event_loop_init_def sweep_runner_def)
  have 2: "fire_due_timers (sweep_runner cfg t2) (idle_sys t2) (?el1, evict_sweep cfg t1 gr) =
      Some (?el1\<lparr>timers := []\<rparr>, evict_sweep cfg t2 (evict_sweep cfg t1 gr))"
    using assms p by (simp add: fire_due_timers_def idle_sys_def fire_loop.simps sweep_runner_def Let_def)
  show ?thesis by (intro exI conjI, rule 1, rule refl, simp, rule 2) simp_all
qed

section \<open>Samples\<close>

text \<open>A forwarder without links that logs what is delivered.\<close>

definition local_fwd :: "(peer_id \<times> bytes) list forwarder" where
  "local_fwd = \<lparr>forward_except = (\<lambda>f fd w. Some w), forward_to = (\<lambda>d f w. Some (False, w)),
     deliver_local = (\<lambda>from p w. w @ [(from, p)])\<rparr>"

definition sample_router :: gossip_router where
  "sample_router = \<lparr>gr_self = sample_id, gr_counter = 0, gr_dedup = {}, gr_order = []\<rparr>"

definition sample_view :: data_view where
  "sample_view = \<lparr>v_src = Peer_id (9 # replicate 15 9), v_dst = zero_id, v_msgId = Message_id (replicate 16 5), v_ttl = 3, v_payload = [1, 2]\<rparr>"

lemma sample_router_on_data:
  "on_data (default_config sample_id) 0 sample_view 4 local_fwd (sample_router, []) =
     Some (sample_router\<lparr>gr_dedup := {Message_id (replicate 16 5)}, gr_order := [\<lparr>st_id = Message_id (replicate 16 5), st_at = 0\<rparr>]\<rparr>,
           [(Peer_id (9 # replicate 15 9), [1, 2])])"
  by (simp add: on_data_def seen_def sample_view_def sample_router_def default_config_def local_fwd_def Let_def sample_id_def)

theorem duplicate_dropped_witness:
  "wf_router (default_config sample_id) sample_router \<and>
   (case on_data (default_config sample_id) 0 sample_view 4 local_fwd (sample_router, []) of
      None \<Rightarrow> False
    | Some s \<Rightarrow> snd s = [(Peer_id (9 # replicate 15 9), [1, 2])] \<and>
        on_data (default_config sample_id) 5 sample_view 7 local_fwd s = Some s)"
proof -
  have "wf_router (default_config sample_id) sample_router" "v_msgId sample_view \<notin> gr_dedup sample_router"
      "(0 :: nat) < maxDedupEntries (default_config sample_id)"
    by (simp_all add: wf_router_def sample_router_def default_config_def)
  then show ?thesis
    using duplicate_dropped [OF _ _ sample_router_on_data, of "[]"] by (simp add: sample_router_on_data)
qed

theorem minted_ids_distinct_witness:
  "wf_id (gr_self sample_router) \<and> distinct (mint 3 sample_router)"
  using minted_ids_distinct [of sample_router 3] by (simp add: sample_router_def sample_id_def wf_id_def)

theorem sweep_timer_stops_witness:
  "\<exists>el1 gr1 el2 gr2.
     fire_due_timers (sweep_runner (default_config sample_id) (ms 7500)) (idle_sys (ms 7500))
       (gr_start (\<lambda>c. c) (default_config sample_id) 0 event_loop_init, sample_router) = Some (el1, gr1) \<and>
     fire_due_timers (sweep_runner (default_config sample_id) (ms 15000)) (idle_sys (ms 15000)) (el1, gr1) = Some (el2, gr2) \<and>
     timers el2 = []"
proof -
  have "sweep_period (default_config sample_id) = 7500"
    by (simp add: sweep_period_def default_config_def)
  then show ?thesis
    using sweep_timer_stops [of 0 "default_config sample_id" "ms 7500" "ms 15000" sample_router] by (auto simp: ms_def)
qed

end
