(* ===== verification/MembershipView.thy ===== *)
theory MembershipView
  imports Config Wire "HOL-Library.AList"
begin

text \<open>
  Mesh-wide membership by adjacency gossip (\<open>src/membership.hpp\<close>, \<open>src/membership.cpp\<close>).

  Hash maps and hash sets are association lists and lists without repetition; their iteration
  order is unspecified in C++, and nothing shown below depends on it.  The calls to the
  delegate and to \<open>flood_\<close> are returned as a list, in order.  In every operation the call to
  \<open>flood_\<close> comes last, so performing the calls after the state update (which is what
  \<open>PeerManager\<close> does) is the order of the code, also when the flood re-enters this component.

  Shown: the member set is always the connected component of the node in the graph of the known
  adjacency records; joins and leaves are reported exactly once, for exactly the nodes that
  entered or left it; a record is accepted only with a higher version than the stored one, so
  a flood dies out; expiry removes exactly the stale records.
\<close>

section \<open>State\<close>

record entry =
  en_version :: u64
  en_neighbors :: "peer_id list"
  en_lastSeen :: time_point

record membership =
  mb_self :: peer_id
  mb_selfNeighbors :: "peer_id list"
  mb_selfVersion :: u64
  mb_lastSelfFlood :: time_point
  mb_view :: "(peer_id \<times> entry) list"
  mb_members :: "peer_id list"

datatype mb_call =
    Member_joined peer_id
  | Member_left peer_id
  | Members_snapshot "peer_id list"
  | Flood bytes int

text \<open>The constructor; \<open>wall\<close> is the wall-clock time in milliseconds.\<close>

definition membership_init :: "int \<Rightarrow> peer_id \<Rightarrow> membership" where
  "membership_init wall self = \<lparr>mb_self = self, mb_selfNeighbors = [], mb_selfVersion = word_of_int wall,
     mb_lastSelfFlood = 0, mb_view = [], mb_members = []\<rparr>"

section \<open>Reachability\<close>

type_synonym adjacency = "(peer_id \<times> peer_id list) list"

text \<open>\<open>adj[a].insert(b)\<close>\<close>

fun adj_insert :: "peer_id \<Rightarrow> peer_id \<Rightarrow> adjacency \<Rightarrow> adjacency" where
  "adj_insert a b [] = [(a, [b])]"
| "adj_insert a b ((k, vs) # adj) = (if k = a then (k, List.insert b vs) # adj else (k, vs) # adj_insert a b adj)"

definition add_edge :: "peer_id \<Rightarrow> peer_id \<Rightarrow> adjacency \<Rightarrow> adjacency" where
  "add_edge a b adj = adj_insert b a (adj_insert a b adj)"

definition build_adj :: "membership \<Rightarrow> adjacency" where
  "build_adj m =
     fold (\<lambda>(origin, e) adj. fold (\<lambda>n. add_edge origin n) (en_neighbors e) adj) (mb_view m)
       (fold (\<lambda>n. add_edge (mb_self m) n) (mb_selfNeighbors m) [])"

text \<open>The inner loop over the neighbours: work queue, visited set and reachable set.\<close>

fun visit :: "peer_id list \<Rightarrow> peer_id list \<times> peer_id list \<times> peer_id list \<Rightarrow> peer_id list \<times> peer_id list \<times> peer_id list" where
  "visit [] s = s"
| "visit (v # vs) (work, visited, reachable) =
     (if v \<in> set visited then visit vs (work, visited, reachable)
      else visit vs (work @ [v], visited @ [v], List.insert v reachable))"

text \<open>The ids \<open>visit\<close> adds.\<close>

fun fresh :: "peer_id list \<Rightarrow> peer_id list \<Rightarrow> peer_id list" where
  "fresh [] visited = []"
| "fresh (v # vs) visited = (if v \<in> set visited then fresh vs visited else v # fresh vs (visited @ [v]))"

lemma set_fresh: "set (fresh vs visited) = set vs - set visited"
  by (induction vs visited rule: fresh.induct) auto

lemma distinct_fresh [simp]: "distinct (fresh vs visited)"
  by (induction vs visited rule: fresh.induct) (auto simp: set_fresh)

lemma visit_work: "fst (visit vs (work, visited, reachable)) = work @ fresh vs visited"
  by (induction vs "(work, visited, reachable)" arbitrary: work visited reachable rule: visit.induct) auto

lemma visit_visited: "fst (snd (visit vs (work, visited, reachable))) = visited @ fresh vs visited"
  by (induction vs "(work, visited, reachable)" arbitrary: work visited reachable rule: visit.induct) auto

lemma visit_reachable:
  "set (snd (snd (visit vs (work, visited, reachable)))) = set reachable \<union> (set vs - set visited)"
  by (induction vs "(work, visited, reachable)" arbitrary: work visited reachable rule: visit.induct) auto

lemma visit_distinct: "distinct reachable \<Longrightarrow> distinct (snd (snd (visit vs (work, visited, reachable))))"
  by (induction vs "(work, visited, reachable)" arbitrary: work visited reachable rule: visit.induct) auto

definition adj_nodes :: "adjacency \<Rightarrow> peer_id set" where
  "adj_nodes adj = \<Union> (set ` snd ` set adj)"

lemma finite_adj_nodes [simp]: "finite (adj_nodes adj)"
  by (simp add: adj_nodes_def)

lemma visit_measure:
  assumes "map_of adj u = Some vs"
  shows "2 * card (adj_nodes adj - set (visited @ fresh vs visited)) + length (work @ fresh vs visited)
           < Suc (2 * card (adj_nodes adj - set visited) + length work)"
proof -
  have sub: "set (fresh vs visited) \<subseteq> adj_nodes adj - set visited"
    using assms by (force simp: set_fresh adj_nodes_def dest: map_of_SomeD)
  have "card (adj_nodes adj - set (visited @ fresh vs visited)) + length (fresh vs visited) = card (adj_nodes adj - set visited)"
    using sub card_Diff_subset [of "set (fresh vs visited)" "adj_nodes adj - set visited"] card_mono [OF _ sub]
    by (simp add: Diff_Un Diff_Int_distrib distinct_card Diff_Diff_Int set_diff_eq Int_def)
  then show ?thesis by simp
qed

function bfs :: "adjacency \<Rightarrow> peer_id list \<Rightarrow> peer_id list \<Rightarrow> peer_id list \<Rightarrow> peer_id list" where
  "bfs adj [] visited reachable = reachable"
| "bfs adj (u # work) visited reachable =
     (case map_of adj u of
        None \<Rightarrow> bfs adj work visited reachable
      | Some vs \<Rightarrow>
          (let s = visit vs (work, visited, reachable) in bfs adj (fst s) (fst (snd s)) (snd (snd s))))"
  by pat_completeness auto

termination
  by (relation "measure (\<lambda>(adj, work, visited, reachable). 2 * card (adj_nodes adj - set visited) + length work)")
     (simp_all add: visit_work visit_visited visit_measure del: length_append set_append)

definition reach_from :: "peer_id \<Rightarrow> adjacency \<Rightarrow> peer_id list" where
  "reach_from self adj = removeAll self (bfs adj [self] [self] [])"

section \<open>Operations\<close>

definition recompute_and_fire :: "membership \<Rightarrow> membership \<times> mb_call list" where
  "recompute_and_fire m =
     (let reachable = reach_from (mb_self m) (build_adj m);
          joined = map Member_joined (filter (\<lambda>i. i \<notin> set (mb_members m)) reachable);
          left = map Member_left (filter (\<lambda>i. i \<notin> set reachable) (mb_members m))
      in if set reachable \<noteq> set (mb_members m)
         then (m\<lparr>mb_members := reachable\<rparr>, joined @ left @ [Members_snapshot reachable])
         else (m, joined @ left))"

definition flood_self :: "int \<Rightarrow> time_point \<Rightarrow> membership \<Rightarrow> membership \<times> mb_call list" where
  "flood_self except_fd now m =
     (let m' = m\<lparr>mb_selfVersion := mb_selfVersion m + 1, mb_lastSelfFlood := now\<rparr>;
          rec = \<lparr>m_origin = mb_self m, m_version = mb_selfVersion m', m_neighbors = mb_selfNeighbors m\<rparr>
      in (m', [Flood (encode_membership rec) except_fd]))"

definition set_local_neighbors :: "peer_id list \<Rightarrow> time_point \<Rightarrow> membership \<Rightarrow> membership \<times> mb_call list" where
  "set_local_neighbors neighbors now m =
     (let ns = sort neighbors
      in if ns = mb_selfNeighbors m then (m, [])
         else let (m1, c1) = recompute_and_fire (m\<lparr>mb_selfNeighbors := ns\<rparr>);
                  (m2, c2) = flood_self (-1) now m1
              in (m2, c1 @ c2))"

definition on_remote_record :: "membership_record \<Rightarrow> int \<Rightarrow> time_point \<Rightarrow> membership \<Rightarrow> membership \<times> mb_call list" where
  "on_remote_record rec inbound_fd now m =
     (if m_origin rec = mb_self m then (m, [])
      else if (case map_of (mb_view m) (m_origin rec) of None \<Rightarrow> False | Some e \<Rightarrow> m_version rec \<le> en_version e) then (m, [])
      else let e = \<lparr>en_version = m_version rec, en_neighbors = m_neighbors rec, en_lastSeen = now\<rparr>;
               (m1, c1) = recompute_and_fire (m\<lparr>mb_view := AList.update (m_origin rec) e (mb_view m)\<rparr>)
           in (m1, c1 @ [Flood (encode_membership rec) inbound_fd]))"

definition fresh_entry :: "mesh_config \<Rightarrow> time_point \<Rightarrow> entry \<Rightarrow> bool" where
  "fresh_entry cfg now e \<longleftrightarrow> \<not> now - en_lastSeen e > ms (membershipTimeout cfg)"

definition mb_tick :: "mesh_config \<Rightarrow> time_point \<Rightarrow> membership \<Rightarrow> membership \<times> mb_call list" where
  "mb_tick cfg now m =
     (let v = filter (\<lambda>(i, e). fresh_entry cfg now e) (mb_view m);
          expired = (length v < length (mb_view m));
          (m1, c1) = (if expired then recompute_and_fire (m\<lparr>mb_view := v\<rparr>) else (m, []));
          (m2, c2) = (if now - mb_lastSelfFlood m1 \<ge> ms (membershipInterval cfg) then flood_self (-1) now m1 else (m1, []))
      in (m2, c1 @ c2))"

definition mb_clear :: "membership \<Rightarrow> membership" where
  "mb_clear m = m\<lparr>mb_selfNeighbors := [], mb_view := [], mb_members := [], mb_lastSelfFlood := 0\<rparr>"

section \<open>The search finds the connected component\<close>

definition adj_rel :: "adjacency \<Rightarrow> peer_id rel" where
  "adj_rel adj = {(u, v). \<exists>vs. map_of adj u = Some vs \<and> v \<in> set vs}"

lemma bfs_correct:
  assumes "set work \<subseteq> set visited" "s \<in> set visited" "set visited \<subseteq> (adj_rel adj)\<^sup>* `` {s}"
    and "\<And>u v. u \<in> set visited \<Longrightarrow> u \<notin> set work \<Longrightarrow> (u, v) \<in> adj_rel adj \<Longrightarrow> v \<in> set visited"
    and "set visited - {s} \<subseteq> set reachable" "set reachable \<subseteq> set visited"
  shows "set (bfs adj work visited reachable) - {s} = (adj_rel adj)\<^sup>* `` {s} - {s}"
  using assms
proof (induction adj work visited reachable rule: bfs.induct)
  case (1 adj visited reachable)
  have "(adj_rel adj)\<^sup>* `` set visited \<subseteq> set visited"
    using "1.prems"(4) by (intro Image_closed_trancl [THEN equalityD1] subsetI) auto
  then have "(adj_rel adj)\<^sup>* `` {s} = set visited" using "1.prems"(2,3) by blast
  then show ?case using "1.prems"(5,6) by auto
next
  case (2 adj u work visited reachable)
  show ?case
  proof (cases "map_of adj u")
    case None
    then have "(u, v) \<notin> adj_rel adj" for v by (simp add: adj_rel_def)
    then show ?thesis using None 2 by auto
  next
    case (Some vs)
    let ?s = "visit vs (work, visited, reachable)"
    have rel: "(u, v) \<in> adj_rel adj \<longleftrightarrow> v \<in> set vs" for v using Some by (simp add: adj_rel_def)
    have u: "(s, u) \<in> (adj_rel adj)\<^sup>*" using "2.prems"(1,3) by auto
    have "set (bfs adj (fst ?s) (fst (snd ?s)) (snd (snd ?s))) - {s} = (adj_rel adj)\<^sup>* `` {s} - {s}"
    proof (rule "2.IH"(2) [OF Some refl])
      show "set (fst (snd ?s)) \<subseteq> (adj_rel adj)\<^sup>* `` {s}"
        using "2.prems"(3) u rel by (auto simp: visit_visited set_fresh intro: rtrancl_into_rtrancl)
      show "v \<in> set (fst (snd ?s))" if "x \<in> set (fst (snd ?s))" "x \<notin> set (fst ?s)" "(x, v) \<in> adj_rel adj" for x v
        using that rel "2.prems"(4) [of x v] by (cases "x = u") (auto simp: visit_visited visit_work set_fresh)
    qed (use "2.prems" in \<open>auto simp: visit_work visit_visited visit_reachable set_fresh\<close>)
    then show ?thesis using Some by (simp add: Let_def)
  qed
qed

lemma set_reach_from: "set (reach_from s adj) = (adj_rel adj)\<^sup>* `` {s} - {s}"
  using bfs_correct [of "[s]" "[s]" s adj "[]"] by (simp add: reach_from_def)

lemma distinct_bfs: "distinct reachable \<Longrightarrow> distinct (bfs adj work visited reachable)"
  by (induction adj work visited reachable rule: bfs.induct)
     (auto simp: Let_def visit_distinct split: option.split)

lemma distinct_reach_from [simp]: "distinct (reach_from s adj)"
  by (simp add: reach_from_def distinct_bfs distinct_removeAll del: bfs.simps)

lemma map_of_adj_insert:
  "map_of (adj_insert a b adj) u =
     (if u = a then Some (case map_of adj a of None \<Rightarrow> [b] | Some vs \<Rightarrow> List.insert b vs) else map_of adj u)"
  by (induction a b adj rule: adj_insert.induct) auto

lemma adj_rel_insert: "adj_rel (adj_insert a b adj) = insert (a, b) (adj_rel adj)"
  by (auto simp: adj_rel_def map_of_adj_insert split: if_splits option.splits)

lemma adj_rel_edge: "adj_rel (add_edge a b adj) = {(a, b), (b, a)} \<union> adj_rel adj"
  by (auto simp: add_edge_def adj_rel_insert)

lemma adj_rel_edges: "adj_rel (fold (add_edge a) ns adj) = {a} \<times> set ns \<union> set ns \<times> {a} \<union> adj_rel adj"
  by (induction ns arbitrary: adj) (auto simp: adj_rel_edge)

section \<open>Members are the connected component\<close>

text \<open>The links a node knows of: its own and those of the stored records.\<close>

definition links :: "membership \<Rightarrow> peer_id rel" where
  "links m = {mb_self m} \<times> set (mb_selfNeighbors m) \<union> (\<Union>(origin, e)\<in>set (mb_view m). {origin} \<times> set (en_neighbors e))"

definition component :: "membership \<Rightarrow> peer_id set" where
  "component m = (links m \<union> (links m)\<inverse>)\<^sup>* `` {mb_self m} - {mb_self m}"

lemma adj_rel_view:
  "adj_rel (fold (\<lambda>(origin, e) adj. fold (\<lambda>n. add_edge origin n) (en_neighbors e) adj) v adj) =
     (let L = (\<Union>(origin, e)\<in>set v. {origin} \<times> set (en_neighbors e)) in L \<union> L\<inverse>) \<union> adj_rel adj"
  by (induction v arbitrary: adj) (auto simp: adj_rel_edges Let_def)

lemma adj_rel_build: "adj_rel (build_adj m) = links m \<union> (links m)\<inverse>"
  unfolding build_adj_def adj_rel_view adj_rel_edges
  by (auto simp: links_def Let_def adj_rel_def)

lemma set_reach_component [simp]: "set (reach_from (mb_self m) (build_adj m)) = component m"
  by (simp add: set_reach_from adj_rel_build component_def)

definition wf_members :: "membership \<Rightarrow> bool" where
  "wf_members m \<longleftrightarrow> distinct (mb_members m) \<and> distinct (map fst (mb_view m)) \<and> set (mb_members m) = component m"

text \<open>Membership and links do not depend on the remaining fields.\<close>

lemma component_cong:
  "mb_self m = mb_self m' \<Longrightarrow> mb_selfNeighbors m = mb_selfNeighbors m' \<Longrightarrow> mb_view m = mb_view m' \<Longrightarrow> component m = component m'"
  by (simp add: component_def links_def)

lemma recompute_fields:
  "mb_self (fst (recompute_and_fire m)) = mb_self m" "mb_selfNeighbors (fst (recompute_and_fire m)) = mb_selfNeighbors m"
  "mb_view (fst (recompute_and_fire m)) = mb_view m" "mb_selfVersion (fst (recompute_and_fire m)) = mb_selfVersion m"
  "mb_lastSelfFlood (fst (recompute_and_fire m)) = mb_lastSelfFlood m"
  by (simp_all add: recompute_and_fire_def Let_def)

lemma recompute_members:
  assumes "distinct (mb_members m)"
  shows "set (mb_members (fst (recompute_and_fire m))) = component m" "distinct (mb_members (fst (recompute_and_fire m)))"
  using assms by (simp_all add: recompute_and_fire_def Let_def)

lemma wf_recompute:
  assumes "distinct (mb_members m)" "distinct (map fst (mb_view m))"
  shows "wf_members (fst (recompute_and_fire m))"
  using recompute_members [OF assms(1)] assms(2) component_cong [of "fst (recompute_and_fire m)" m]
  by (simp add: wf_members_def recompute_fields)

lemma wf_flood_self [simp]: "wf_members (fst (flood_self fd now m)) = wf_members m"
  using component_cong [of "fst (flood_self fd now m)" m] by (simp add: wf_members_def flood_self_def Let_def)

datatype mb_op = Neighbors "peer_id list" | Record membership_record int | Tick

fun mb_step :: "mesh_config \<Rightarrow> time_point \<times> mb_op \<Rightarrow> membership \<Rightarrow> membership \<times> mb_call list" where
  "mb_step cfg (now, Neighbors ns) m = set_local_neighbors ns now m"
| "mb_step cfg (now, Record rec fd) m = on_remote_record rec fd now m"
| "mb_step cfg (now, Tick) m = mb_tick cfg now m"

fun mb_run :: "mesh_config \<Rightarrow> (time_point \<times> mb_op) list \<Rightarrow> membership \<Rightarrow> membership" where
  "mb_run cfg [] m = m"
| "mb_run cfg (e # es) m = mb_run cfg es (fst (mb_step cfg e m))"

lemma fst_set_local_neighbors:
  "fst (set_local_neighbors ns now m) =
     (if sort ns = mb_selfNeighbors m then m
      else fst (flood_self (-1) now (fst (recompute_and_fire (m\<lparr>mb_selfNeighbors := sort ns\<rparr>)))))"
  by (simp add: set_local_neighbors_def Let_def split: prod.split)

lemma fst_on_remote_record:
  "fst (on_remote_record rec fd now m) =
     (if m_origin rec = mb_self m \<or> (\<exists>e. map_of (mb_view m) (m_origin rec) = Some e \<and> m_version rec \<le> en_version e) then m
      else fst (recompute_and_fire (m\<lparr>mb_view := AList.update (m_origin rec)
             \<lparr>en_version = m_version rec, en_neighbors = m_neighbors rec, en_lastSeen = now\<rparr> (mb_view m)\<rparr>)))"
  by (auto simp: on_remote_record_def Let_def split: prod.split option.splits)

lemma filter_all_length: "\<not> length (filter P xs) < length xs \<Longrightarrow> filter P xs = xs"
proof (induction xs)
  case (Cons x xs)
  then show ?case using length_filter_le [of P xs] by (cases "P x") auto
qed simp

lemma mb_tick_cases:
  obtains (keep) "filter (\<lambda>(i, e). fresh_entry cfg now e) (mb_view m) = mb_view m"
      "fst (mb_tick cfg now m) = m \<or> fst (mb_tick cfg now m) = fst (flood_self (-1) now m)"
  | (expire) m1 where "m1 = fst (recompute_and_fire (m\<lparr>mb_view := filter (\<lambda>(i, e). fresh_entry cfg now e) (mb_view m)\<rparr>))"
      "fst (mb_tick cfg now m) = m1 \<or> fst (mb_tick cfg now m) = fst (flood_self (-1) now m1)"
proof (cases "length (filter (\<lambda>(i, e). fresh_entry cfg now e) (mb_view m)) < length (mb_view m)")
  case True
  then show ?thesis by (intro that(2) [OF refl]) (simp add: mb_tick_def Let_def split: prod.split)
next
  case False
  then have "filter (\<lambda>(i, e). fresh_entry cfg now e) (mb_view m) = mb_view m"
    by (simp add: filter_all_length)
  then show ?thesis using that(1) by (simp add: mb_tick_def Let_def split: prod.split)
qed

lemma wf_mb_step: "wf_members m \<Longrightarrow> wf_members (fst (mb_step cfg e m))"
proof (cases e)
  case (Pair now op)
  assume wf: "wf_members m"
  then have d: "distinct (mb_members m)" "distinct (map fst (mb_view m))" by (simp_all add: wf_members_def)
  show ?thesis
  proof (cases op)
    case (Neighbors ns)
    then show ?thesis using Pair wf d by (simp add: fst_set_local_neighbors wf_recompute)
  next
    case (Record rec fd)
    then show ?thesis using Pair wf d by (simp add: fst_on_remote_record wf_recompute distinct_update)
  next
    case Tick
    have "distinct (map fst (filter (\<lambda>(i, e). fresh_entry cfg now e) (mb_view m)))"
      using d(2) by (rule distinct_map_filter)
    then show ?thesis using Pair Tick wf d by (cases rule: mb_tick_cases [of cfg now m]) (auto simp: wf_recompute)
  qed
qed

lemma wf_mb_run: "wf_members m \<Longrightarrow> wf_members (mb_run cfg es m)"
  by (induction es arbitrary: m) (simp_all add: wf_mb_step)

lemma wf_membership_init: "wf_members (membership_init wall self)"
  by (simp add: wf_members_def membership_init_def component_def links_def)

text \<open>
  C27: After any sequence of neighbour updates, received records and ticks, the member set
  without repetition is exactly the set of other nodes connected to this one in the undirected
  graph of its own links and the stored adjacency records.
\<close>

theorem members_are_component:
  "distinct (mb_members (mb_run cfg es (membership_init wall self))) \<and>
   set (mb_members (mb_run cfg es (membership_init wall self))) = component (mb_run cfg es (membership_init wall self))"
  using wf_mb_run [OF wf_membership_init] by (simp add: wf_members_def)

section \<open>Join and leave events\<close>

fun joins :: "mb_call list \<Rightarrow> peer_id list" where
  "joins [] = []"
| "joins (Member_joined i # cs) = i # joins cs"
| "joins (c # cs) = joins cs"

fun leaves :: "mb_call list \<Rightarrow> peer_id list" where
  "leaves [] = []"
| "leaves (Member_left i # cs) = i # leaves cs"
| "leaves (c # cs) = leaves cs"

lemma joins_append [simp]: "joins (a @ b) = joins a @ joins b"
  by (induction a rule: joins.induct) auto

lemma leaves_append [simp]: "leaves (a @ b) = leaves a @ leaves b"
  by (induction a rule: leaves.induct) auto

lemma joins_map [simp]: "joins (map Member_joined is) = is" "joins (map Member_left is) = []"
  by (induction "is") auto

lemma leaves_map [simp]: "leaves (map Member_left is) = is" "leaves (map Member_joined is) = []"
  by (induction "is") auto

text \<open>\<open>C\<close> before and \<open>C'\<close> after: the calls report the difference, each node once.\<close>

definition events_between :: "peer_id set \<Rightarrow> peer_id set \<Rightarrow> mb_call list \<Rightarrow> bool" where
  "events_between C C' calls \<longleftrightarrow> distinct (joins calls) \<and> set (joins calls) = C' - C \<and>
     distinct (leaves calls) \<and> set (leaves calls) = C - C'"

lemma events_none [simp]: "events_between C C []"
  by (simp add: events_between_def)

lemma events_flood [simp]: "events_between C C' (calls @ [Flood f fd]) = events_between C C' calls"
  by (simp add: events_between_def)

lemma recompute_events:
  "distinct (mb_members m) \<Longrightarrow> events_between (set (mb_members m)) (component m) (snd (recompute_and_fire m))"
  by (auto simp: events_between_def recompute_and_fire_def Let_def)

lemma snd_set_local_neighbors:
  "snd (set_local_neighbors ns now m) =
     (if sort ns = mb_selfNeighbors m then []
      else snd (recompute_and_fire (m\<lparr>mb_selfNeighbors := sort ns\<rparr>)) @
           snd (flood_self (-1) now (fst (recompute_and_fire (m\<lparr>mb_selfNeighbors := sort ns\<rparr>)))))"
  by (simp add: set_local_neighbors_def Let_def split: prod.split)

lemma snd_on_remote_record:
  "snd (on_remote_record rec fd now m) =
     (if m_origin rec = mb_self m \<or> (\<exists>e. map_of (mb_view m) (m_origin rec) = Some e \<and> m_version rec \<le> en_version e) then []
      else snd (recompute_and_fire (m\<lparr>mb_view := AList.update (m_origin rec)
             \<lparr>en_version = m_version rec, en_neighbors = m_neighbors rec, en_lastSeen = now\<rparr> (mb_view m)\<rparr>)) @
           [Flood (encode_membership rec) fd])"
  by (auto simp: on_remote_record_def Let_def split: prod.split option.splits)

lemma flood_self_call: "\<exists>f. snd (flood_self fd now m) = [Flood f fd]"
  by (simp add: flood_self_def Let_def)

lemma component_flood_self [simp]: "component (fst (flood_self fd now m)) = component m"
  by (rule component_cong) (simp_all add: flood_self_def Let_def)

lemma component_recompute [simp]: "component (fst (recompute_and_fire m)) = component m"
  by (rule component_cong) (simp_all add: recompute_fields)

lemma mb_step_events:
  assumes "wf_members m"
  shows "events_between (component m) (component (fst (mb_step cfg e m))) (snd (mb_step cfg e m))"
proof -
  have d: "distinct (mb_members m)" "set (mb_members m) = component m" using assms by (simp_all add: wf_members_def)
  obtain now op where e: "e = (now, op)" by (cases e)
  show ?thesis
  proof (cases op)
    case (Neighbors ns)
    let ?m = "m\<lparr>mb_selfNeighbors := sort ns\<rparr>"
    obtain f where f: "snd (flood_self (-1) now (fst (recompute_and_fire ?m))) = [Flood f (-1)]"
      using flood_self_call by blast
    show ?thesis using e Neighbors d recompute_events [of ?m]
      by (simp add: fst_set_local_neighbors snd_set_local_neighbors f)
  next
    case (Record rec fd)
    let ?m = "m\<lparr>mb_view := AList.update (m_origin rec)
      \<lparr>en_version = m_version rec, en_neighbors = m_neighbors rec, en_lastSeen = now\<rparr> (mb_view m)\<rparr>"
    show ?thesis using e Record d recompute_events [of ?m]
      by (auto simp: fst_on_remote_record snd_on_remote_record)
  next
    case Tick
    let ?m = "m\<lparr>mb_view := filter (\<lambda>(i, e). fresh_entry cfg now e) (mb_view m)\<rparr>"
    obtain f where f: "snd (flood_self (-1) now (fst (recompute_and_fire ?m))) = [Flood f (-1)]"
      using flood_self_call by blast
    obtain f' where f': "snd (flood_self (-1) now m) = [Flood f' (-1)]"
      using flood_self_call by blast
    have "events_between (component m) (component m) [Flood f' (-1)]" using events_flood [of _ _ "[]"] by simp
    then show ?thesis using e Tick d recompute_events [of ?m] f f'
      by (simp add: mb_tick_def Let_def recompute_fields split: prod.split) (metis component_flood_self component_recompute events_flood fst_conv snd_conv)
  qed
qed

text \<open>
  C28: Every operation on any reachable state reports through the delegate exactly the change of
  the connected component: one \<open>member_joined\<close> per node that entered, one \<open>member_left\<close> per node
  that left, and nothing else.
\<close>

theorem membership_events_exact:
  "let m = mb_run cfg es (membership_init wall self); (m', calls) = mb_step cfg e m
   in distinct (joins calls) \<and> set (joins calls) = component m' - component m \<and>
      distinct (leaves calls) \<and> set (leaves calls) = component m - component m'"
  using mb_step_events [OF wf_mb_run [OF wf_membership_init [of wall self], of cfg es], of cfg e]
  by (simp add: events_between_def Let_def case_prod_beta)

section \<open>Versions\<close>

text \<open>The records of a sequence that are accepted, that is, stored and flooded on.\<close>

fun accepted :: "(membership_record \<times> int \<times> time_point) list \<Rightarrow> membership \<Rightarrow> membership_record list" where
  "accepted [] m = []"
| "accepted ((rec, fd, now) # rs) m =
     (case on_remote_record rec fd now m of (m', calls) \<Rightarrow> (if calls = [] then [] else [rec]) @ accepted rs m')"

definition stored_version :: "peer_id \<Rightarrow> membership \<Rightarrow> u64 option" where
  "stored_version i m = map_option en_version (map_of (mb_view m) i)"

lemma accepted_version:
  assumes "snd (on_remote_record rec fd now m) \<noteq> []"
  shows "stored_version (m_origin rec) (fst (on_remote_record rec fd now m)) = Some (m_version rec)"
    "stored_version (m_origin rec) m = Some v \<Longrightarrow> v < m_version rec"
    "i \<noteq> m_origin rec \<Longrightarrow> stored_version i (fst (on_remote_record rec fd now m)) = stored_version i m"
  using assms by (auto simp: snd_on_remote_record fst_on_remote_record stored_version_def recompute_fields update_conv'
      split: if_splits)

lemma rejected_unchanged: "snd (on_remote_record rec fd now m) = [] \<Longrightarrow> fst (on_remote_record rec fd now m) = m"
  by (auto simp: snd_on_remote_record fst_on_remote_record split: if_splits)

lemma accepted_increasing:
  "sorted_wrt (<) (map m_version (filter (\<lambda>r. m_origin r = i) (accepted rs m))) \<and>
   (\<forall>r\<in>set (accepted rs m). m_origin r = i \<longrightarrow> (\<forall>v. stored_version i m = Some v \<longrightarrow> v < m_version r))"
proof (induction rs m rule: accepted.induct)
  case (2 rec fd now rs m)
  obtain m' calls where s: "on_remote_record rec fd now m = (m', calls)" by fastforce
  show ?case
  proof (cases "calls = []")
    case True
    then show ?thesis using s 2 [OF s [symmetric]] rejected_unchanged [of rec fd now m] by simp
  next
    case False
    note a = accepted_version [of rec fd now m, unfolded s, simplified, OF False]
    show ?thesis
    proof (cases "m_origin rec = i")
      case True
      then show ?thesis using s 2 [OF s [symmetric]] False a(1,2) by (auto intro: less_trans)
    next
      case other: False
      then show ?thesis using s 2 [OF s [symmetric]] False a(3) [of i] by auto
    qed
  qed
qed simp


section \<open>Expiry and exchange\<close>

lemma map_of_filter_fresh:
  "distinct (map fst v) \<Longrightarrow> map_of (filter (\<lambda>(i, e). P e) v) i = (case map_of v i of Some e \<Rightarrow> if P e then Some e else None | None \<Rightarrow> None)"
proof (induction v)
  case (Cons a v)
  obtain k e where a: "a = (k, e)" by (cases a)
  have "map_of (filter (\<lambda>(i, e). P e) v) k = None" if "k \<notin> fst ` set v"
    using that by (force simp: map_of_eq_None_iff)
  then show ?case using Cons a by (auto simp: map_of_eq_None_iff split: option.splits)
qed simp

text \<open>
  C30: A tick drops exactly the records that were not refreshed within \<open>membershipTimeout\<close>; it
  floods the node's own record exactly when \<open>membershipInterval\<close> has passed since the last flood,
  and then as its last call, to all links, with the next version.
\<close>

theorem tick_expires_and_keeps_alive:
  assumes "wf_members m" "mb_tick cfg now m = (m', calls)"
  shows "map_of (mb_view m') i =
           (case map_of (mb_view m) i of
              Some e \<Rightarrow> if now - en_lastSeen e > ms (membershipTimeout cfg) then None else Some e
            | None \<Rightarrow> None) \<and>
         (if now - mb_lastSelfFlood m \<ge> ms (membershipInterval cfg)
          then mb_selfVersion m' = mb_selfVersion m + 1 \<and> mb_lastSelfFlood m' = now \<and> calls \<noteq> [] \<and>
               last calls = Flood (encode_membership \<lparr>m_origin = mb_self m, m_version = mb_selfVersion m + 1,
                                     m_neighbors = mb_selfNeighbors m\<rparr>) (-1)
          else mb_selfVersion m' = mb_selfVersion m \<and> (\<forall>f fd. Flood f fd \<notin> set calls))"
proof -
  let ?v = "filter (\<lambda>(i, e). fresh_entry cfg now e) (mb_view m)"
  have d: "distinct (map fst (mb_view m))" using assms(1) by (simp add: wf_members_def)
  obtain m1 c1 where m1: "(if length ?v < length (mb_view m) then recompute_and_fire (m\<lparr>mb_view := ?v\<rparr>) else (m, [])) = (m1, c1)"
    by fastforce
  have f1: "mb_view m1 = ?v" "mb_self m1 = mb_self m" "mb_selfNeighbors m1 = mb_selfNeighbors m"
      "mb_selfVersion m1 = mb_selfVersion m" "mb_lastSelfFlood m1 = mb_lastSelfFlood m"
    using m1 filter_all_length [of "\<lambda>(i, e). fresh_entry cfg now e" "mb_view m"]
      recompute_fields [of "m\<lparr>mb_view := ?v\<rparr>"] by (auto split: if_splits)
  have c1: "Flood f fd \<notin> set c1" for f fd
    using m1 by (auto simp: recompute_and_fire_def Let_def split: if_splits)
  have "(m', calls) = (if now - mb_lastSelfFlood m \<ge> ms (membershipInterval cfg)
      then (fst (flood_self (-1) now m1), c1 @ snd (flood_self (-1) now m1)) else (m1, c1))"
    using assms(2) [unfolded mb_tick_def Let_def m1] f1(5) by (auto simp: case_prod_beta split: if_splits)
  then show ?thesis
    using f1 c1 map_of_filter_fresh [OF d, of "fresh_entry cfg now" i]
    by (auto simp: flood_self_def Let_def fresh_entry_def split: if_splits option.splits)
qed

text \<open>
  C31: The frame a node floods about itself is decoded by every receiver that admits its size,
  and a receiver that has no record of that version yet stores the sender's neighbours under the
  sender's id with the receiving time.
\<close>

theorem flooded_record_ingested:
  assumes "flood_self fd now a = (a', [Flood frame fd])"
    and "wf_id (mb_self a)" "\<forall>n\<in>set (mb_selfNeighbors a). wf_id n" "length (mb_selfNeighbors a) \<le> 65535"
    and "length frame \<le> 4 + maxb"
    and "mb_self b \<noteq> mb_self a" "\<forall>v. stored_version (mb_self a) b = Some v \<longrightarrow> v < mb_selfVersion a + 1"
  shows "\<exists>f. try_decode_frame (frame @ rest) maxb out = Ok f (length frame) \<and> f_type f = Membership \<and>
     map_of (mb_view (fst (on_remote_record (f_membership f) inbound now' b))) (mb_self a) =
       Some \<lparr>en_version = mb_selfVersion a + 1, en_neighbors = mb_selfNeighbors a, en_lastSeen = now'\<rparr>"
proof -
  let ?r = "\<lparr>m_origin = mb_self a, m_version = mb_selfVersion a + 1, m_neighbors = mb_selfNeighbors a\<rparr>"
  have frame: "frame = encode_msg (MMembership ?r)"
    using assms(1) by (simp add: flood_self_def Let_def)
  have wf: "wf_msg (MMembership ?r)" using assms(2,3) by simp
  have "length frame \<le> 31 + 16 * 65535"
    using assms(2-4) by (simp add: frame encode_membership_def put_u32_def put_u8_def put_u16_def put_u64_def put_id_def
        put_bytes_def length_concat comp_def wf_id_def if_min sum_list_triv cong: map_cong)
  then have "try_decode_frame (frame @ rest) maxb out = Ok (parsed_msg (MMembership ?r) out) (length frame)"
    using decode_encode [OF wf, of maxb rest out] assms(5) by (simp add: frame)
  then show ?thesis
    using assms(4,6,7) by (auto simp: fst_on_remote_record recompute_fields stored_version_def update_conv')
qed

section \<open>Witnesses\<close>

definition peer_a :: peer_id where "peer_a = Peer_id (replicate 16 1)"
definition peer_b :: peer_id where "peer_b = Peer_id (replicate 16 2)"

lemma peer_ab [simp]: "wf_id peer_a" "wf_id peer_b" "peer_a \<noteq> peer_b" "peer_b \<noteq> peer_a"
  by (simp_all add: peer_a_def peer_b_def wf_id_def replicate_eq_replicate)

theorem tick_expires_and_keeps_alive_witness:
  "let m = mb_run (default_config peer_a) [(0, Record \<lparr>m_origin = peer_b, m_version = 7, m_neighbors = []\<rparr> 4)] (membership_init 0 peer_a)
   in map_of (mb_view m) peer_b = Some \<lparr>en_version = 7, en_neighbors = [], en_lastSeen = 0\<rparr> \<and>
      map_of (mb_view (fst (mb_tick (default_config peer_a) (ms 8001) m))) peer_b = None \<and>
      mb_selfVersion (fst (mb_tick (default_config peer_a) (ms 8001) m)) = 1"
proof -
  let ?m = "mb_run (default_config peer_a) [(0, Record \<lparr>m_origin = peer_b, m_version = 7, m_neighbors = []\<rparr> 4)] (membership_init 0 peer_a)"
  have m: "mb_view ?m = [(peer_b, \<lparr>en_version = 7, en_neighbors = [], en_lastSeen = 0\<rparr>)]" "mb_lastSelfFlood ?m = 0" "mb_selfVersion ?m = 0"
    by (simp_all add: fst_on_remote_record recompute_fields membership_init_def)
  have "wf_members ?m" by (rule wf_mb_run [OF wf_membership_init])
  then show ?thesis
    using tick_expires_and_keeps_alive [of ?m "default_config peer_a" "ms 8001" "fst (mb_tick (default_config peer_a) (ms 8001) ?m)"
        "snd (mb_tick (default_config peer_a) (ms 8001) ?m)" peer_b] m
    by (simp add: Let_def default_config_def ms_def)
qed

theorem flooded_record_ingested_witness:
  "\<exists>f. try_decode_frame (encode_membership \<lparr>m_origin = peer_a, m_version = 1, m_neighbors = [peer_b]\<rparr>) 1000 parsed_frame_init = Ok f 47 \<and>
     map_of (mb_view (fst (on_remote_record (f_membership f) 4 99 (membership_init 0 peer_b)))) peer_a =
       Some \<lparr>en_version = 1, en_neighbors = [peer_b], en_lastSeen = 99\<rparr>"
proof -
  let ?a = "(membership_init 0 peer_a)\<lparr>mb_selfNeighbors := [peer_b]\<rparr>"
  let ?frame = "encode_membership \<lparr>m_origin = peer_a, m_version = 1, m_neighbors = [peer_b]\<rparr>"
  have len: "length ?frame = 47"
    by (simp add: encode_membership_def put_u32_def put_u8_def put_u16_def put_u64_def put_id_def put_bytes_def peer_a_def peer_b_def Let_def)
  have fl: "flood_self 3 5 ?a = (fst (flood_self 3 5 ?a), [Flood ?frame 3])"
    by (simp add: flood_self_def Let_def membership_init_def)
  show ?thesis
    using flooded_record_ingested [OF fl, of 1000 "membership_init 0 peer_b" "[]" parsed_frame_init 4 99] len
    by (auto simp: membership_init_def stored_version_def)
qed

end
