(* ===== verification/CryptoSession.thy ===== *)
theory CryptoSession
  imports Wire
begin

text \<open>
  The cryptographic layer (\<open>src/crypto.hpp\<close>, \<open>src/crypto.cpp\<close>).  libsodium is a parameter: the
  record \<open>sodium\<close> has one field per function the file calls, and \<open>None\<close> in its place is the
  library built without it, whose stubs are the second half of the file.  The streaming hash
  (\<open>init\<close>, \<open>update\<close>, \<open>final\<close>) is the hash of the concatenated updates.

  What libsodium documents is stated as predicates on the parameter (\<open>dh_agrees\<close>, \<open>aead_correct\<close>,
  \<open>hash_sized\<close>, \<open>memcmp_correct\<close>) and assumed only where a statement says so.

  Shown: both ends of a handshake derive mirrored session keys and matching confirmation tags;
  records opened in the order they were sealed give the plaintexts back, with the counters in
  lockstep; nonces do not repeat before the counter does; an end that is offered its own
  ephemeral key expects exactly the confirmation tag it sends.
\<close>

section \<open>libsodium\<close>

record 'w sodium =
  sodium_init :: int
  sodium_memcmp :: "bytes \<Rightarrow> bytes \<Rightarrow> int"
  crypto_generichash :: "nat \<Rightarrow> bytes \<Rightarrow> bytes \<Rightarrow> bytes"
  crypto_scalarmult :: "bytes \<Rightarrow> bytes \<Rightarrow> bytes option"
  crypto_box_keypair :: "'w \<Rightarrow> (bytes \<times> bytes) \<times> 'w"
  aead_encrypt :: "bytes \<Rightarrow> bytes \<Rightarrow> bytes \<Rightarrow> bytes"
  aead_decrypt :: "bytes \<Rightarrow> bytes \<Rightarrow> bytes \<Rightarrow> bytes option"
  crypto_sign_keypair :: "'w \<Rightarrow> (bytes \<times> bytes) \<times> 'w"
  crypto_sign_seed_keypair :: "bytes \<Rightarrow> bytes \<times> bytes"
  crypto_sign_ed25519_sk_to_seed :: "bytes \<Rightarrow> bytes"
  crypto_sign_detached :: "bytes \<Rightarrow> bytes \<Rightarrow> bytes"
  crypto_sign_verify_detached :: "bytes \<Rightarrow> bytes \<Rightarrow> bytes \<Rightarrow> int"

text \<open>\<open>crypto_generichash\<close> takes the output length, the message and the key.\<close>

type_synonym 'w crypto = "'w sodium option"

section \<open>Data\<close>

type_synonym key32 = bytes
type_synonym tag32 = bytes
type_synonym mac16 = bytes
type_synonym id_pubkey = bytes
type_synonym id_seckey = bytes
type_synonym seed32 = bytes
type_synonym id_sig = bytes

record ephemeral_keypair =
  ek_pk :: key32
  ek_sk :: key32

record secure_session =
  txKey :: key32
  rxKey :: key32
  txCtr :: u64
  rxCtr :: u64

record handshake_result =
  hr_session :: secure_session
  hr_myConfirmTag :: tag32
  hr_expectedPeerTag :: tag32

record identity_keypair =
  ik_pk :: id_pubkey
  ik_sk :: id_seckey

text \<open>What a node knows of itself (\<open>local_identity\<close> of \<open>src/peer_connection.hpp\<close>).\<close>

record local_identity =
  li_nodeId :: peer_id
  li_groupName :: string
  li_protocolVersion :: u8
  li_listenPort :: u16
  li_secure :: bool
  li_groupKey :: key32
  li_discoveryKey :: key32
  li_hasIdentity :: bool
  li_idKeys :: identity_keypair
  li_nodeName :: string
  li_trustedKeys :: "id_pubkey list"

section \<open>Operations\<close>

text \<open>\<open>memset\<close> of the 12 bytes, then the loop over the eight counter bytes.\<close>

definition nonce_from_counter :: "u64 \<Rightarrow> bytes" where
  "nonce_from_counter ctr = foldl (\<lambda>nonce i. nonce[12 - 1 - i := byte_at (i * 8) ctr]) (replicate 12 0) [0..<8]"

definition kPskCtx :: string where
  "kPskCtx = ''multimaster-psk-v1''"

definition crypto_init :: "'w crypto \<Rightarrow> bool" where
  "crypto_init cr = (case cr of None \<Rightarrow> False | Some sd \<Rightarrow> sodium_init sd \<ge> 0)"

definition crypto_available :: "'w crypto \<Rightarrow> bool" where
  "crypto_available cr = (case cr of None \<Rightarrow> False | Some sd \<Rightarrow> True)"

definition derive_group_key :: "'w crypto \<Rightarrow> string \<Rightarrow> key32" where
  "derive_group_key cr passphrase = (case cr of None \<Rightarrow> replicate 32 0
     | Some sd \<Rightarrow> crypto_generichash sd 32 (str_bytes passphrase) (str_bytes kPskCtx))"

definition derive_discovery_key :: "'w crypto \<Rightarrow> key32 \<Rightarrow> key32" where
  "derive_discovery_key cr groupKey = (case cr of None \<Rightarrow> replicate 32 0
     | Some sd \<Rightarrow> crypto_generichash sd 32 (str_bytes ''discovery'') groupKey)"

definition discovery_tag :: "'w crypto \<Rightarrow> bytes \<Rightarrow> key32 \<Rightarrow> mac16" where
  "discovery_tag cr msg discoveryKey = (case cr of None \<Rightarrow> replicate 16 0
     | Some sd \<Rightarrow> crypto_generichash sd 16 msg discoveryKey)"

definition discovery_verify :: "'w crypto \<Rightarrow> bytes \<Rightarrow> bytes \<Rightarrow> key32 \<Rightarrow> bool" where
  "discovery_verify cr msg tag discoveryKey = (case cr of None \<Rightarrow> False
     | Some sd \<Rightarrow> if length tag \<noteq> 16 then False
                  else sodium_memcmp sd (discovery_tag cr msg discoveryKey) tag = 0)"

definition gen_ephemeral :: "'w crypto \<Rightarrow> 'w \<Rightarrow> ephemeral_keypair \<times> 'w" where
  "gen_ephemeral cr w = (case cr of None \<Rightarrow> (\<lparr>ek_pk = replicate 32 0, ek_sk = replicate 32 0\<rparr>, w)
     | Some sd \<Rightarrow> (case crypto_box_keypair sd w of ((pk, sk), w') \<Rightarrow> (\<lparr>ek_pk = pk, ek_sk = sk\<rparr>, w')))"

definition verify_tag :: "'w crypto \<Rightarrow> bytes \<Rightarrow> bytes \<Rightarrow> bool" where
  "verify_tag cr a b = (case cr of None \<Rightarrow> False
     | Some sd \<Rightarrow> if length a \<noteq> length b then False else sodium_memcmp sd a b = 0)"

definition do_handshake :: "'w crypto \<Rightarrow> ephemeral_keypair \<Rightarrow> key32 \<Rightarrow> key32 \<Rightarrow> string \<Rightarrow> handshake_result option" where
  "do_handshake cr mine peerEphPk groupKey groupName = (case cr of None \<Rightarrow> None
     | Some sd \<Rightarrow>
        (case crypto_scalarmult sd (ek_sk mine) peerEphPk of
           None \<Rightarrow> None
         | Some dh \<Rightarrow>
            let iAmLo = (memcmp (ek_pk mine) peerEphPk < 0);
                lo = (if iAmLo then ek_pk mine else peerEphPk);
                hi = (if iAmLo then peerEphPk else ek_pk mine);
                master = crypto_generichash sd 64 (dh @ lo @ hi @ str_bytes groupName) groupKey;
                skbytes = crypto_generichash sd 64 (str_bytes ''mm-session-keys-v1'') master;
                kA = take 32 skbytes;
                kB = take 32 (drop 32 skbytes);
                confirmBase = crypto_generichash sd 32 (str_bytes ''mm-confirm-v1'') master
            in Some \<lparr>hr_session = \<lparr>txKey = (if iAmLo then kA else kB), rxKey = (if iAmLo then kB else kA), txCtr = 0, rxCtr = 0\<rparr>,
                 hr_myConfirmTag = crypto_generichash sd 32 (ek_pk mine) confirmBase,
                 hr_expectedPeerTag = crypto_generichash sd 32 peerEphPk confirmBase\<rparr>))"

text \<open>The record of \<open>seal\<close>: the length of the ciphertext in four bytes, then the ciphertext.\<close>

definition seal :: "'w crypto \<Rightarrow> bytes \<Rightarrow> secure_session \<Rightarrow> bytes \<times> secure_session" where
  "seal cr plaintext s = (case cr of None \<Rightarrow> ([], s)
     | Some sd \<Rightarrow>
        let ctLen = length plaintext + 16
        in (be32 (of_nat ctLen) @ aead_encrypt sd (txKey s) (nonce_from_counter (txCtr s)) plaintext,
            s\<lparr>txCtr := txCtr s + 1\<rparr>))"

definition open_record :: "'w crypto \<Rightarrow> bytes \<Rightarrow> secure_session \<Rightarrow> bytes option \<times> secure_session" where
  "open_record cr ciphertext s = (case cr of None \<Rightarrow> (None, s)
     | Some sd \<Rightarrow>
        if length ciphertext < 16 then (None, s)
        else case aead_decrypt sd (rxKey s) (nonce_from_counter (rxCtr s)) ciphertext of
               None \<Rightarrow> (None, s)
             | Some pt \<Rightarrow> (Some pt, s\<lparr>rxCtr := rxCtr s + 1\<rparr>))"

definition gen_identity :: "'w crypto \<Rightarrow> 'w \<Rightarrow> identity_keypair \<times> 'w" where
  "gen_identity cr w = (case cr of None \<Rightarrow> (\<lparr>ik_pk = replicate 32 0, ik_sk = replicate 64 0\<rparr>, w)
     | Some sd \<Rightarrow> (case crypto_sign_keypair sd w of ((pk, sk), w') \<Rightarrow> (\<lparr>ik_pk = pk, ik_sk = sk\<rparr>, w')))"

definition identity_from_seed :: "'w crypto \<Rightarrow> seed32 \<Rightarrow> identity_keypair" where
  "identity_from_seed cr seed = (case cr of None \<Rightarrow> \<lparr>ik_pk = replicate 32 0, ik_sk = replicate 64 0\<rparr>
     | Some sd \<Rightarrow> (case crypto_sign_seed_keypair sd seed of (pk, sk) \<Rightarrow> \<lparr>ik_pk = pk, ik_sk = sk\<rparr>))"

definition seed_of :: "'w crypto \<Rightarrow> identity_keypair \<Rightarrow> seed32" where
  "seed_of cr kp = (case cr of None \<Rightarrow> replicate 32 0 | Some sd \<Rightarrow> crypto_sign_ed25519_sk_to_seed sd (ik_sk kp))"

definition id_from_identity :: "'w crypto \<Rightarrow> id_pubkey \<Rightarrow> bytes" where
  "id_from_identity cr pk = (case cr of None \<Rightarrow> replicate 16 0 | Some sd \<Rightarrow> crypto_generichash sd 16 pk [])"

definition crypto_sign :: "'w crypto \<Rightarrow> bytes \<Rightarrow> id_seckey \<Rightarrow> id_sig" where
  "crypto_sign cr msg sk = (case cr of None \<Rightarrow> replicate 64 0 | Some sd \<Rightarrow> crypto_sign_detached sd msg sk)"

definition verify_sig :: "'w crypto \<Rightarrow> bytes \<Rightarrow> id_sig \<Rightarrow> id_pubkey \<Rightarrow> bool" where
  "verify_sig cr msg sig pk = (case cr of None \<Rightarrow> False | Some sd \<Rightarrow> crypto_sign_verify_detached sd sig msg pk = 0)"

section \<open>What libsodium documents\<close>

definition dh_agrees :: "'w sodium \<Rightarrow> ephemeral_keypair \<Rightarrow> ephemeral_keypair \<Rightarrow> bool" where
  "dh_agrees sd a b \<longleftrightarrow> crypto_scalarmult sd (ek_sk a) (ek_pk b) = crypto_scalarmult sd (ek_sk b) (ek_pk a)"

definition aead_correct :: "'w sodium \<Rightarrow> bool" where
  "aead_correct sd \<longleftrightarrow> (\<forall>k n m. aead_decrypt sd k n (aead_encrypt sd k n m) = Some m \<and>
     length (aead_encrypt sd k n m) = length m + 16)"

definition hash_sized :: "'w sodium \<Rightarrow> bool" where
  "hash_sized sd \<longleftrightarrow> (\<forall>n m k. length (crypto_generichash sd n m k) = n)"

definition memcmp_correct :: "'w sodium \<Rightarrow> bool" where
  "memcmp_correct sd \<longleftrightarrow> (\<forall>a b. length a = length b \<longrightarrow> (sodium_memcmp sd a b = 0 \<longleftrightarrow> a = b))"

lemma verify_tag_iff: "memcmp_correct sd \<Longrightarrow> verify_tag (Some sd) a b \<longleftrightarrow> a = b"
  by (auto simp: verify_tag_def memcmp_correct_def)

section \<open>Handshake\<close>

lemma memcmp_mirror:
  assumes "a \<noteq> b"
  shows "memcmp b a < 0 \<longleftrightarrow> \<not> memcmp a b < 0"
proof -
  have "memcmp b a \<noteq> 0" using assms by simp
  then show ?thesis using memcmp_antisym [of a b] by linarith
qed

text \<open>
  C25: Two ends with the same group key and group name that hold each other's (distinct)
  ephemeral public keys either both fail or both succeed, and then each transmits with the key
  the other receives with, each expects the confirmation tag the other sends, and all counters
  start at zero.
\<close>

theorem handshake_agreement:
  assumes "dh_agrees sd a b" "ek_pk a \<noteq> ek_pk b"
  shows "case (do_handshake (Some sd) a (ek_pk b) groupKey groupName, do_handshake (Some sd) b (ek_pk a) groupKey groupName) of
      (Some ra, Some rb) \<Rightarrow>
        txKey (hr_session ra) = rxKey (hr_session rb) \<and> rxKey (hr_session ra) = txKey (hr_session rb) \<and>
        hr_myConfirmTag ra = hr_expectedPeerTag rb \<and> hr_expectedPeerTag ra = hr_myConfirmTag rb \<and>
        txCtr (hr_session ra) = 0 \<and> rxCtr (hr_session ra) = 0 \<and> txCtr (hr_session rb) = 0 \<and> rxCtr (hr_session rb) = 0
    | (None, None) \<Rightarrow> True
    | _ \<Rightarrow> False"
  using assms(1) memcmp_mirror [OF assms(2)]
  by (auto simp: do_handshake_def dh_agrees_def Let_def split: option.split)

text \<open>
  C35: An end that is offered its own ephemeral public key (a peer that reflects the hello it
  received) does not notice: it expects exactly the confirmation tag that it sends itself, so
  the reflected confirmation passes \<open>verify_tag\<close> although the peer knows no group key.
\<close>

theorem reflected_confirmation_accepted:
  assumes "memcmp_correct sd" "do_handshake (Some sd) mine (ek_pk mine) groupKey groupName = Some hr"
  shows "verify_tag (Some sd) (hr_myConfirmTag hr) (hr_expectedPeerTag hr)"
  using assms(2) by (auto simp: do_handshake_def Let_def verify_tag_iff [OF assms(1)] split: option.splits)

section \<open>Records\<close>

lemma nonce_eq: "nonce_from_counter c = replicate 4 0 @ be64 c"
  by (simp add: nonce_from_counter_def be64_def upt_8 numeral_eq_Suc)

text \<open>
  The nonce is 12 bytes long and determines the record counter, so under one key no nonce
  is used twice before the 64-bit counter wraps.
\<close>

theorem nonce_injective:
  "length (nonce_from_counter c) = 12 \<and> (nonce_from_counter c = nonce_from_counter d \<longleftrightarrow> c = d)"
  by (simp add: nonce_eq)

fun seal_all :: "'w crypto \<Rightarrow> bytes list \<Rightarrow> secure_session \<Rightarrow> bytes list \<times> secure_session" where
  "seal_all cr [] s = ([], s)"
| "seal_all cr (m # fs) s = (case seal cr m s of (r, s') \<Rightarrow> (case seal_all cr fs s' of (rs, s'') \<Rightarrow> (r # rs, s'')))"

fun open_all :: "'w crypto \<Rightarrow> bytes list \<Rightarrow> secure_session \<Rightarrow> bytes list option \<times> secure_session" where
  "open_all cr [] s = (Some [], s)"
| "open_all cr (r # rs) s =
     (case open_record cr (drop 4 r) s of
        (None, s') \<Rightarrow> (None, s')
      | (Some m, s') \<Rightarrow> (case open_all cr rs s' of (fs, s'') \<Rightarrow> (map_option ((#) m) fs, s'')))"

lemma open_seal:
  assumes "aead_correct sd" "txKey a = rxKey b" "txCtr a = rxCtr b"
  shows "open_record (Some sd) (drop 4 (fst (seal (Some sd) m a))) b = (Some m, b\<lparr>rxCtr := rxCtr b + 1\<rparr>)"
    "length (fst (seal (Some sd) m a)) = length m + 20" "peek_len (fst (seal (Some sd) m a) @ rest) = of_nat (length m + 16)"
  using assms by (simp_all add: seal_def open_record_def aead_correct_def Let_def wire_simps)

text \<open>
  C26: Records sealed by one end and opened in the same order by the other give back exactly the
  plaintexts; afterwards the receiver's counter equals the sender's again, both advanced by the
  number of records.
\<close>

theorem sealed_stream_opens:
  assumes "aead_correct sd" "txKey a = rxKey b" "txCtr a = rxCtr b" "seal_all (Some sd) fs a = (rs, a')"
  shows "\<exists>b'. open_all (Some sd) rs b = (Some fs, b') \<and> rxCtr b' = txCtr a' \<and>
           rxCtr b' = rxCtr b + of_nat (length fs) \<and> rxKey b' = rxKey b \<and> txKey a' = txKey a"
  using assms(2-4)
proof (induction fs arbitrary: a b rs)
  case (Cons m fs)
  obtain r a1 where r: "seal (Some sd) m a = (r, a1)" by fastforce
  obtain rs' a2 where rs': "seal_all (Some sd) fs a1 = (rs', a2)" by fastforce
  have a1: "a1 = a\<lparr>txCtr := txCtr a + 1\<rparr>" using r by (auto simp: seal_def Let_def)
  have "open_record (Some sd) (drop 4 r) b = (Some m, b\<lparr>rxCtr := rxCtr b + 1\<rparr>)"
    using open_seal(1) [OF assms(1) Cons.prems(1,2), of m] r by simp
  then show ?case
    using Cons.IH [of a1 "b\<lparr>rxCtr := rxCtr b + 1\<rparr>" rs'] Cons.prems r rs' a1 by (auto simp: add_ac)
qed simp

text \<open>
  The discovery authenticator is accepted exactly when it is the keyed hash of the datagram
  body under the discovery key.
\<close>

theorem discovery_verify_iff:
  assumes "hash_sized sd" "memcmp_correct sd"
  shows "discovery_verify (Some sd) msg tag key \<longleftrightarrow> tag = discovery_tag (Some sd) msg key"
  using assms by (auto simp: discovery_verify_def discovery_tag_def hash_sized_def memcmp_correct_def)

section \<open>Witnesses\<close>

text \<open>A toy library with the documented behaviour: addition modulo 256 as key agreement.\<close>

definition pad_to :: "nat \<Rightarrow> bytes \<Rightarrow> bytes" where
  "pad_to n bs = take n (bs @ replicate n 0)"

definition toy_sodium :: "'w sodium" where
  "toy_sodium = \<lparr>sodium_init = 0, sodium_memcmp = (\<lambda>a b. if a = b then 0 else -1),
     crypto_generichash = (\<lambda>n m k. pad_to n (m @ k)),
     crypto_scalarmult = (\<lambda>sk pk. Some (pad_to 32 [hd (sk @ [0]) + hd (pk @ [0])])),
     crypto_box_keypair = (\<lambda>w. ((replicate 32 1, replicate 32 1), w)),
     aead_encrypt = (\<lambda>k n m. m @ pad_to 16 n), aead_decrypt = (\<lambda>k n c. if drop (length c - 16) c = pad_to 16 n then Some (take (length c - 16) c) else None),
     crypto_sign_keypair = (\<lambda>w. ((replicate 32 2, replicate 64 2), w)), crypto_sign_seed_keypair = (\<lambda>s. (s, s @ s)),
     crypto_sign_ed25519_sk_to_seed = (\<lambda>sk. take 32 sk),
     crypto_sign_detached = (\<lambda>m sk. pad_to 64 (take 32 sk @ m)), crypto_sign_verify_detached = (\<lambda>s m pk. if s = pad_to 64 (pk @ m) then 0 else -1)\<rparr>"

lemma length_pad_to [simp]: "length (pad_to n bs) = n"
  by (simp add: pad_to_def)

lemma toy_laws [simp]:
  "aead_correct toy_sodium" "hash_sized toy_sodium" "memcmp_correct toy_sodium"
  by (simp_all add: aead_correct_def hash_sized_def memcmp_correct_def toy_sodium_def)

definition toy :: "unit sodium" where
  "toy = toy_sodium"

lemma toy_laws' [simp]: "aead_correct toy" "hash_sized toy" "memcmp_correct toy"
  by (simp_all add: toy_def)

definition toy_keypair :: "byte \<Rightarrow> ephemeral_keypair" where
  "toy_keypair b = \<lparr>ek_pk = replicate 32 b, ek_sk = replicate 32 b\<rparr>"

lemma toy_dh: "dh_agrees toy (toy_keypair a) (toy_keypair b)"
  by (simp add: dh_agrees_def toy_def toy_sodium_def toy_keypair_def add.commute hd_append)

lemma toy_handshake: "do_handshake (Some toy) (toy_keypair a) pk k g \<noteq> None"
  by (simp add: do_handshake_def toy_def toy_sodium_def Let_def)

theorem handshake_agreement_witness:
  "dh_agrees toy (toy_keypair 1) (toy_keypair 2) \<and> ek_pk (toy_keypair 1) \<noteq> ek_pk (toy_keypair 2) \<and>
   (\<exists>ra rb. do_handshake (Some toy) (toy_keypair 1) (ek_pk (toy_keypair 2)) [7] ''g'' = Some ra \<and>
      do_handshake (Some toy) (toy_keypair 2) (ek_pk (toy_keypair 1)) [7] ''g'' = Some rb \<and>
      txKey (hr_session ra) = rxKey (hr_session rb) \<and> hr_myConfirmTag ra = hr_expectedPeerTag rb)"
proof -
  have pk: "ek_pk (toy_keypair 1) \<noteq> ek_pk (toy_keypair 2)" by (simp add: toy_keypair_def replicate_eq_replicate)
  obtain ra rb where "do_handshake (Some toy) (toy_keypair 1) (ek_pk (toy_keypair 2)) [7] ''g'' = Some ra"
      "do_handshake (Some toy) (toy_keypair 2) (ek_pk (toy_keypair 1)) [7] ''g'' = Some rb"
    using toy_handshake by fastforce
  then show ?thesis using handshake_agreement [OF toy_dh pk, of "[7]" "''g''"] toy_dh pk by simp
qed

theorem reflected_confirmation_accepted_witness:
  "\<exists>hr. do_handshake (Some toy) (toy_keypair 1) (ek_pk (toy_keypair 1)) [7] ''g'' = Some hr \<and>
     verify_tag (Some toy) (hr_myConfirmTag hr) (hr_expectedPeerTag hr)"
proof -
  obtain hr where hr: "do_handshake (Some toy) (toy_keypair 1) (ek_pk (toy_keypair 1)) [7] ''g'' = Some hr"
    using toy_handshake by fastforce
  then show ?thesis using reflected_confirmation_accepted [OF toy_laws'(3) hr] by blast
qed

theorem sealed_stream_opens_witness:
  "\<exists>rs a' b'. seal_all (Some toy) [[1, 2], [3]] \<lparr>txKey = [1], rxKey = [2], txCtr = 5, rxCtr = 0\<rparr> = (rs, a') \<and>
     open_all (Some toy) rs \<lparr>txKey = [2], rxKey = [1], txCtr = 0, rxCtr = 5\<rparr> = (Some [[1, 2], [3]], b') \<and> rxCtr b' = 7"
proof -
  obtain rs a' where s: "seal_all (Some toy) [[1, 2], [3]] \<lparr>txKey = [1], rxKey = [2], txCtr = 5, rxCtr = 0\<rparr> = (rs, a')"
    by fastforce
  then show ?thesis
    using sealed_stream_opens [OF toy_laws'(1) _ _ s, of "\<lparr>txKey = [2], rxKey = [1], txCtr = 0, rxCtr = 5\<rparr>"]
    by - (rule exI [of _ rs], rule exI [of _ a'], auto simp del: seal_all.simps)
qed

theorem discovery_verify_iff_witness:
  "discovery_verify (Some toy) [1] (discovery_tag (Some toy) [1] [7]) [7]"
  using discovery_verify_iff [OF toy_laws'(2,3)] by blast

end
