(* ===== verification/Sockets.thy ===== *)
theory Sockets
  imports EventLoop Config
begin

text \<open>
  Address construction (\<open>make_addr\<close> of \<open>src/socket.cpp\<close>), the TCP listener (\<open>src/listener.hpp\<close>,
  \<open>src/listener.cpp\<close>) and the socket calls it shares with discovery, which are fields of the
  parameter \<open>'w net\<close>.  A thrown \<open>std::system_error\<close> is \<open>Inl\<close> of its error number (\<open>None\<close>: what \<open>epoll_ctl\<close>
  left in \<open>errno\<close>) and message.
\<close>

record 'w net =
  inet_pton :: "string \<Rightarrow> u32 option"
  net_socket_udp :: "'w \<Rightarrow> (int + int) \<times> 'w"
  net_setsockopt :: "int \<Rightarrow> string \<Rightarrow> u32 \<Rightarrow> 'w \<Rightarrow> 'w"
  net_bind :: "int \<Rightarrow> sockaddr_in \<Rightarrow> 'w \<Rightarrow> (int + unit) \<times> 'w"
  net_listen :: "int \<Rightarrow> nat \<Rightarrow> 'w \<Rightarrow> (int + unit) \<times> 'w"
  net_getsockname :: "int \<Rightarrow> 'w \<Rightarrow> sockaddr_in option \<times> 'w"
  net_accept :: "int \<Rightarrow> 'w \<Rightarrow> (int + int \<times> sockaddr_in) \<times> 'w"
  net_join :: "int \<Rightarrow> u32 \<Rightarrow> u32 \<Rightarrow> 'w \<Rightarrow> (int + unit) \<times> 'w"
  net_sendto :: "int \<Rightarrow> bytes \<Rightarrow> sockaddr_in \<Rightarrow> 'w \<Rightarrow> 'w"
  net_recvfrom :: "int \<Rightarrow> nat \<Rightarrow> 'w \<Rightarrow> (int + bytes \<times> sockaddr_in) \<times> 'w"

definition INADDR_ANY :: u32 where
  "INADDR_ANY = 0"

definition make_addr :: "'w net \<Rightarrow> string \<Rightarrow> u16 \<Rightarrow> sockaddr_in option" where
  "make_addr net ip port =
     (if ip = [] \<or> ip = ''0.0.0.0'' then Some \<lparr>sin_addr = INADDR_ANY, sin_port = port\<rparr>
      else map_option (\<lambda>a. \<lparr>sin_addr = a, sin_port = port\<rparr>) (inet_pton net ip))"

record listener =
  ls_fd :: int
  ls_boundPort :: u16

definition EINVAL :: int where
  "EINVAL = 22"

text \<open>\<open>start\<close>; \<open>h\<close> is the handler pointer that is registered.\<close>

definition listener_start ::
    "'w sys \<Rightarrow> 'w net \<Rightarrow> nat \<Rightarrow> string \<Rightarrow> u16 \<Rightarrow> 'w \<Rightarrow> ((int option \<times> string) + listener) \<times> 'w" where
  "listener_start sys net h bindAddress port w =
     (case sys_socket_tcp sys w of
        (Inl e, w) \<Rightarrow> (Inl (Some e, ''listener socket()''), w)
      | (Inr fd, w) \<Rightarrow>
         (let w = net_setsockopt net fd ''SO_REUSEADDR'' 1 w in
          case make_addr net bindAddress port of
            None \<Rightarrow> (Inl (Some EINVAL, ''bad bind address''), w)
          | Some addr \<Rightarrow>
             (case net_bind net fd addr w of
                (Inl e, w) \<Rightarrow> (Inl (Some e, ''listener bind()''), w)
              | (Inr _, w) \<Rightarrow>
                 (case net_listen net fd 64 w of
                    (Inl e, w) \<Rightarrow> (Inl (Some e, ''listen()''), w)
                  | (Inr _, w) \<Rightarrow>
                     (case net_getsockname net fd w of (bound, w) \<Rightarrow>
                        let bp = (case bound of None \<Rightarrow> 0 | Some a \<Rightarrow> sin_port a) in
                        case loop_add sys fd EPOLLIN h w of
                          (ok, w) \<Rightarrow> if ok then (Inr \<lparr>ls_fd = fd, ls_boundPort = bp\<rparr>, w)
                                     else (Inl (None, ''listener epoll add''), w))))))"

text \<open>The accept loop: every connection is handed to \<open>onAccept\<close> until the call fails.\<close>

partial_function (option) accept_loop ::
    "'w net \<Rightarrow> (int \<Rightarrow> sockaddr_in \<Rightarrow> 'w \<Rightarrow> 'w option) \<Rightarrow> int \<Rightarrow> 'w \<Rightarrow> 'w option" where
  "accept_loop net onAccept fd w =
     (case net_accept net fd w of
        (Inl e, w) \<Rightarrow> if e = EAGAIN then Some w else if e = EINTR then accept_loop net onAccept fd w else Some w
      | (Inr (conn, peer), w) \<Rightarrow> do { w \<leftarrow> onAccept conn peer w; accept_loop net onAccept fd w })"

unbundle bit_operations_syntax

definition listener_on_io_events ::
    "'w net \<Rightarrow> (int \<Rightarrow> sockaddr_in \<Rightarrow> 'w \<Rightarrow> 'w option) \<Rightarrow> u32 \<Rightarrow> listener \<Rightarrow> 'w \<Rightarrow> 'w option" where
  "listener_on_io_events net onAccept events l w =
     (if events AND EPOLLIN = 0 then Some w else accept_loop net onAccept (ls_fd l) w)"

end
