(* ===== verification/DiscoveryService.thy ===== *)
theory DiscoveryService
  imports Sockets CryptoSession
begin

text \<open>
  Multicast discovery (\<open>src/discovery.hpp\<close>, \<open>src/discovery.cpp\<close>): setting the socket up,
  announcing, and the filter on received datagrams.

  Shown: a node's announce is admitted by exactly the other nodes with the same version, group,
  security mode and key (group names beyond 255 bytes excluded: such a node is never admitted),
  everything that is admitted carries these properties, and the announce period stays within
  twenty percent of the configured one.
\<close>

unbundle bit_operations_syntax

record discovery =
  d_fd :: int
  d_groupAddr :: sockaddr_in
  d_usable :: bool

definition discovery_init :: discovery where
  "discovery_init = \<lparr>d_fd = -1, d_groupAddr = \<lparr>sin_addr = 0, sin_port = 0\<rparr>, d_usable = False\<rparr>"

definition self_announce :: "local_identity \<Rightarrow> announce" where
  "self_announce self = \<lparr>a_protocolVersion = li_protocolVersion self,
     a_flags = (if li_secure self then kAnnounceFlagSecure else 0), a_tcpListenPort = li_listenPort self,
     a_nodeId = li_nodeId self, a_groupName = li_groupName self\<rparr>"

definition announce_datagram :: "'w crypto \<Rightarrow> local_identity \<Rightarrow> bytes" where
  "announce_datagram cr self =
     (let dat = encode_announce (self_announce self)
      in if li_secure self then dat @ discovery_tag cr dat (li_discoveryKey self) else dat)"

definition send_announce :: "'w crypto \<Rightarrow> 'w net \<Rightarrow> local_identity \<Rightarrow> discovery \<Rightarrow> 'w \<Rightarrow> 'w" where
  "send_announce cr net self d w =
     (if \<not> d_usable d then w else net_sendto net (d_fd d) (announce_datagram cr self) (d_groupAddr d) w)"

text \<open>
  \<open>schedule_announce\<close>: \<open>jit lo hi\<close> is the draw from \<open>uniform_int_distribution(lo, hi)\<close>; \<open>div\<close> of
  the magnitude is the truncating division of the code.
\<close>

definition announce_delay :: "(int \<Rightarrow> int \<Rightarrow> 'w \<Rightarrow> int \<times> 'w) \<Rightarrow> mesh_config \<Rightarrow> 'w \<Rightarrow> int \<times> 'w" where
  "announce_delay jit cfg w =
     (let base = announceInterval cfg
      in case jit (- (base div 5)) (base div 5) w of (j, w') \<Rightarrow> (base + j, w'))"

definition schedule_announce ::
    "'w sys \<Rightarrow> (int \<Rightarrow> int \<Rightarrow> 'w \<Rightarrow> int \<times> 'w) \<Rightarrow> mesh_config \<Rightarrow> 'cb \<Rightarrow> 'cb event_loop \<times> 'w \<Rightarrow> 'cb event_loop \<times> 'w" where
  "schedule_announce sys jit cfg announce_cb s =
     (case announce_delay jit cfg (snd s) of (delay, w) \<Rightarrow>
        (case sys_now sys w of (now, w') \<Rightarrow> (snd (add_timer now (ms delay) announce_cb (fst s)), w')))"

text \<open>The timer callback: announce, then schedule the next one.\<close>

definition run_announce ::
    "'w sys \<Rightarrow> 'w crypto \<Rightarrow> 'w net \<Rightarrow> (int \<Rightarrow> int \<Rightarrow> 'w \<Rightarrow> int \<times> 'w) \<Rightarrow> mesh_config \<Rightarrow> local_identity \<Rightarrow> discovery \<Rightarrow> 'cb \<Rightarrow>
     'cb event_loop \<times> 'w \<Rightarrow> 'cb event_loop \<times> 'w" where
  "run_announce sys cr net jit cfg self d announce_cb s =
     schedule_announce sys jit cfg announce_cb (fst s, send_announce cr net self d (snd s))"

text \<open>
  \<open>start\<close>; a failed step is reported with its message and \<open>errno\<close> (\<open>None\<close> where the call that
  failed does not set it) and leaves discovery unusable.
\<close>

definition discovery_start ::
    "'w sys \<Rightarrow> 'w crypto \<Rightarrow> 'w net \<Rightarrow> (int \<Rightarrow> int \<Rightarrow> 'w \<Rightarrow> int \<times> 'w) \<Rightarrow> mesh_config \<Rightarrow> local_identity \<Rightarrow> nat \<Rightarrow> 'cb \<Rightarrow>
     'cb event_loop \<times> 'w \<Rightarrow> (int option \<times> string) option \<times> discovery \<times> 'cb event_loop \<times> 'w" where
  "discovery_start sys cr net jit cfg self h announce_cb s =
     (let el = fst s; d0 = discovery_init in
      case net_socket_udp net (snd s) of
        (Inl e, w) \<Rightarrow> (Some (Some e, ''multicast socket()''), d0, el, w)
      | (Inr fd, w) \<Rightarrow>
         (let d1 = d0\<lparr>d_fd := fd\<rparr>;
              w = net_setsockopt net fd ''SO_REUSEPORT'' 1 (net_setsockopt net fd ''SO_REUSEADDR'' 1 w)
          in case (case make_addr net ''0.0.0.0'' (multicastPort cfg) of None \<Rightarrow> (Inl EINVAL, w) | Some a \<Rightarrow> net_bind net fd a w) of
            (Inl e, w) \<Rightarrow> (Some (Some e, ''multicast bind()''), d1, el, w)
          | (Inr _, w) \<Rightarrow>
             (case inet_pton net (multicastAddr cfg) of
                None \<Rightarrow> (Some (None, ''bad multicast address''), d1, el, w)
              | Some maddr \<Rightarrow>
                 (let iface = (if multicastIface cfg \<noteq> [] then (case inet_pton net (multicastIface cfg) of None \<Rightarrow> 0 | Some a \<Rightarrow> a) else INADDR_ANY)
                  in case net_join net fd maddr iface w of
                    (Inl e, w) \<Rightarrow> (Some (Some e, ''IP_ADD_MEMBERSHIP''), d1, el, w)
                  | (Inr _, w) \<Rightarrow>
                     (let w = net_setsockopt net fd ''IP_MULTICAST_TTL'' (ucast (multicastTtl cfg)) w;
                          w = net_setsockopt net fd ''IP_MULTICAST_LOOP'' 1 w;
                          w = (if multicastIface cfg \<noteq> [] then net_setsockopt net fd ''IP_MULTICAST_IF'' iface w else w)
                      in case make_addr net (multicastAddr cfg) (multicastPort cfg) of
                        None \<Rightarrow> (Some (None, ''bad multicast dest''), d1, el, w)
                      | Some dest \<Rightarrow>
                         (let d2 = d1\<lparr>d_groupAddr := dest\<rparr> in
                          case loop_add sys fd EPOLLIN h w of
                            (ok, w) \<Rightarrow>
                              if \<not> ok then (Some (None, ''multicast epoll add''), d2, el, w)
                              else let d3 = d2\<lparr>d_usable := True\<rparr>
                                   in (None, d3, run_announce sys cr net jit cfg self d3 announce_cb (el, w))))))))"

text \<open>The filter of \<open>on_io_events\<close> on one datagram.\<close>

definition admit_datagram :: "'w crypto \<Rightarrow> local_identity \<Rightarrow> bytes \<Rightarrow> announce option" where
  "admit_datagram cr self datagram =
     (let body = (if li_secure self then take (length datagram - 16) datagram else datagram);
          received = drop (length datagram - 16) datagram
      in if li_secure self \<and> (length datagram \<le> 16 \<or> \<not> discovery_verify cr body received (li_discoveryKey self)) then None
         else case decode_announce body of
           None \<Rightarrow> None
         | Some a \<Rightarrow>
             if (a_flags a AND kAnnounceFlagSecure \<noteq> 0) \<noteq> li_secure self then None
             else if a_protocolVersion a \<noteq> li_protocolVersion self then None
             else if a_groupName a \<noteq> li_groupName self then None
             else if a_nodeId a = li_nodeId self then None
             else Some a)"

partial_function (option) recv_loop ::
    "'w crypto \<Rightarrow> 'w net \<Rightarrow> (announce \<Rightarrow> sockaddr_in \<Rightarrow> 'w \<Rightarrow> 'w option) \<Rightarrow> local_identity \<Rightarrow> int \<Rightarrow> 'w \<Rightarrow> 'w option" where
  "recv_loop cr net onDiscover self fd w =
     (case net_recvfrom net fd 2048 w of
        (Inl e, w) \<Rightarrow> Some w
      | (Inr (datagram, src), w) \<Rightarrow>
         (case admit_datagram cr self datagram of
            None \<Rightarrow> recv_loop cr net onDiscover self fd w
          | Some a \<Rightarrow> do { w \<leftarrow> onDiscover a src w; recv_loop cr net onDiscover self fd w }))"

definition discovery_on_io_events ::
    "'w crypto \<Rightarrow> 'w net \<Rightarrow> (announce \<Rightarrow> sockaddr_in \<Rightarrow> 'w \<Rightarrow> 'w option) \<Rightarrow> local_identity \<Rightarrow> u32 \<Rightarrow> discovery \<Rightarrow> 'w \<Rightarrow> 'w option" where
  "discovery_on_io_events cr net onDiscover self events d w =
     (if events AND EPOLLIN = 0 then Some w else recv_loop cr net onDiscover self (d_fd d) w)"

section \<open>Who admits whom\<close>

lemma flag_secure: "((if s then kAnnounceFlagSecure else 0) AND kAnnounceFlagSecure \<noteq> 0) = s"
  by (simp add: kAnnounceFlagSecure_def)

lemma decode_self_announce:
  "wf_id (li_nodeId self) \<Longrightarrow> decode_announce (encode_announce (self_announce self)) =
     Some ((self_announce self)\<lparr>a_groupName := take 255 (li_groupName self)\<rparr>)"
  using decode_announce_encode [of "self_announce self" "[]"] by (simp add: self_announce_def)

lemma admit_body:
  assumes "wf_id (li_nodeId a)" "li_secure a = li_secure b"
  shows "(case decode_announce (encode_announce (self_announce a)) of
      None \<Rightarrow> None
    | Some x \<Rightarrow>
        if (a_flags x AND kAnnounceFlagSecure \<noteq> 0) \<noteq> li_secure b then None
        else if a_protocolVersion x \<noteq> li_protocolVersion b then None
        else if a_groupName x \<noteq> li_groupName b then None
        else if a_nodeId x = li_nodeId b then None else Some x) =
    (if li_protocolVersion a = li_protocolVersion b \<and> take 255 (li_groupName a) = li_groupName b \<and> li_nodeId a \<noteq> li_nodeId b
     then Some ((self_announce a)\<lparr>a_groupName := li_groupName b\<rparr>) else None)"
  unfolding decode_self_announce [OF assms(1)]
  using assms(2) flag_secure [of "li_secure a"] by (simp add: self_announce_def)

text \<open>
  C32: Between nodes with the same security mode and discovery key, the datagram one node
  multicasts is admitted by another exactly when the versions agree, the node ids differ and the
  receiver's group name is the sender's cut to 255 bytes; the receiver then learns the sender's
  id and listening port.  In particular a group name beyond 255 bytes isolates its nodes.
\<close>

theorem announce_admitted_iff:
  assumes "wf_id (li_nodeId a)" "li_secure a = li_secure b" "li_discoveryKey a = li_discoveryKey b"
    and "hash_sized sd" "memcmp_correct sd"
  shows "admit_datagram (Some sd) b (announce_datagram (Some sd) a) =
    (if li_protocolVersion a = li_protocolVersion b \<and> take 255 (li_groupName a) = li_groupName b \<and> li_nodeId a \<noteq> li_nodeId b
     then Some ((self_announce a)\<lparr>a_groupName := li_groupName b\<rparr>) else None)"
proof (cases "li_secure a")
  case True
  let ?dat = "encode_announce (self_announce a)"
  have l: "length (discovery_tag (Some sd) ?dat (li_discoveryKey a)) = 16"
    using assms(4) by (simp add: discovery_tag_def hash_sized_def)
  have v: "discovery_verify (Some sd) ?dat (discovery_tag (Some sd) ?dat (li_discoveryKey a)) (li_discoveryKey b)"
    using assms(3-5) l by (simp add: discovery_verify_def memcmp_correct_def)
  have "?dat \<noteq> []" by (simp add: encode_announce_def put_u8_def)
  then show ?thesis
    using True l v assms(2) admit_body [OF assms(1,2)]
    by (simp add: admit_datagram_def announce_datagram_def Let_def)
next
  case False
  then show ?thesis
    using assms(2) admit_body [OF assms(1,2)] by (simp add: admit_datagram_def announce_datagram_def Let_def)
qed

text \<open>
  C33: Whatever datagram arrives, an admitted announce has the receiver's version, group and
  security mode, does not carry the receiver's own id, and in a secured mesh the datagram ends
  in the keyed hash of the rest under the discovery key.
\<close>

theorem admitted_is_compatible:
  assumes "admit_datagram (Some sd) self datagram = Some a" "hash_sized sd" "memcmp_correct sd"
  shows "a_protocolVersion a = li_protocolVersion self \<and> a_groupName a = li_groupName self \<and> a_nodeId a \<noteq> li_nodeId self \<and>
    (a_flags a AND kAnnounceFlagSecure \<noteq> 0) = li_secure self \<and>
    (li_secure self \<longrightarrow> (\<exists>body. datagram = body @ discovery_tag (Some sd) body (li_discoveryKey self) \<and> decode_announce body = Some a))"
proof -
  have "discovery_tag (Some sd) body k = tag" if "discovery_verify (Some sd) body tag k" for body tag k
    using that assms(2,3) by (simp add: discovery_verify_def discovery_tag_def hash_sized_def memcmp_correct_def split: if_splits)
  then show ?thesis
    using assms(1) unfolding admit_datagram_def Let_def
    by (auto split: if_splits option.splits intro!: exI [of _ "take (length datagram - 16) datagram"])
qed

text \<open>
  With a jitter within the requested bounds, the delay to the next announce is between 80
  and 120 percent of the configured interval.
\<close>

theorem announce_delay_bounds:
  assumes "\<And>lo hi w. lo \<le> hi \<Longrightarrow> lo \<le> fst (jit lo hi w) \<and> fst (jit lo hi w) \<le> hi" "0 \<le> announceInterval cfg"
  shows "4 * announceInterval cfg \<le> 5 * fst (announce_delay jit cfg w) \<and>
         5 * fst (announce_delay jit cfg w) \<le> 6 * announceInterval cfg"
proof -
  let ?b = "announceInterval cfg"
  have "- (?b div 5) \<le> ?b div 5" using assms(2) by simp
  from assms(1) [OF this, of w] have "- (?b div 5) \<le> fst (jit (- (?b div 5)) (?b div 5) w)" "fst (jit (- (?b div 5)) (?b div 5) w) \<le> ?b div 5"
    by auto
  moreover have "5 * (?b div 5) \<le> ?b" by simp
  ultimately show ?thesis by (auto simp: announce_delay_def Let_def case_prod_beta)
qed

section \<open>Witnesses\<close>

definition sample_self :: "peer_id \<Rightarrow> bool \<Rightarrow> local_identity" where
  "sample_self i s = \<lparr>li_nodeId = i, li_groupName = ''g'', li_protocolVersion = 1, li_listenPort = 9000, li_secure = s,
     li_groupKey = replicate 32 3, li_discoveryKey = replicate 32 4, li_hasIdentity = False,
     li_idKeys = \<lparr>ik_pk = replicate 32 0, ik_sk = replicate 64 0\<rparr>, li_nodeName = [], li_trustedKeys = []\<rparr>"

theorem announce_admitted_iff_witness:
  "admit_datagram (Some toy) (sample_self zero_id True) (announce_datagram (Some toy) (sample_self (Peer_id (1 # replicate 15 1)) True)) =
     Some (self_announce (sample_self (Peer_id (1 # replicate 15 1)) True))"
  using announce_admitted_iff [of "sample_self (Peer_id (1 # replicate 15 1)) True" "sample_self zero_id True" toy]
  by (simp add: sample_self_def wf_id_def zero_id_def self_announce_def numeral_eq_Suc)

theorem admitted_is_compatible_witness:
  "\<exists>a. admit_datagram (Some toy) (sample_self zero_id False) (announce_datagram (Some toy) (sample_self (Peer_id (1 # replicate 15 1)) False)) = Some a \<and>
     a_groupName a = ''g''"
proof -
  obtain a where a: "admit_datagram (Some toy) (sample_self zero_id False)
      (announce_datagram (Some toy) (sample_self (Peer_id (1 # replicate 15 1)) False)) = Some a"
    using decode_self_announce [of "sample_self (Peer_id (1 # replicate 15 1)) False"]
    by (simp add: admit_datagram_def announce_datagram_def Let_def sample_self_def self_announce_def wf_id_def zero_id_def numeral_eq_Suc)
  then show ?thesis using admitted_is_compatible [OF a] by (auto simp: sample_self_def)
qed

theorem announce_delay_bounds_witness:
  "announceInterval (default_config zero_id) = 1000 \<and>
   4 * announceInterval (default_config zero_id) \<le> 5 * fst (announce_delay (\<lambda>lo hi (w :: unit). (hi, w)) (default_config zero_id) ())"
  using announce_delay_bounds [of "\<lambda>lo hi (w :: unit). (hi, w)" "default_config zero_id" "()"] by (simp add: default_config_def)

end
