(* ===== verification/PeerConnection.thy ===== *)
theory PeerConnection
  imports Buffer CryptoSession Config EventLoop
begin

text \<open>
  One TCP connection (\<open>src/peer_connection.hpp\<close>, \<open>src/peer_connection.cpp\<close>): the nonblocking
  connect, the symmetric hello handshake, the confirmation and identity checks of a secured
  mesh, the two parse loops, the outbound queue with its overflow policies, and closing.

  The connection calls its owner through \<open>connection_listener\<close>.  Here that is the record
  \<open>'w listener_ops\<close> of functions on the connection and the state \<open>'w\<close> of everything else; the
  calls happen where the code makes them.  A computation that does not return, or that would
  dereference the empty \<open>sess_\<close>, is \<open>None\<close>.
\<close>

unbundle bit_operations_syntax

section \<open>State\<close>

datatype conn_state = ConnectingOut | Handshaking | AwaitingConfirm | Established | Dead

record conn =
  c_ptr :: nat
  c_fd :: int
  c_peerAddr :: sockaddr_in
  c_inbound :: bool
  c_state :: conn_state
  c_peerId :: peer_id
  c_peerListenPort :: u16
  c_localNonce :: u64
  c_peerNonce :: u64
  c_secure :: bool
  c_ephKeys :: ephemeral_keypair
  c_sess :: "secure_session option"
  c_myConfirmTag :: tag32
  c_expectedPeerTag :: tag32
  c_useIdentity :: bool
  c_myIdSig :: id_sig
  c_peerHello :: hello
  c_plain :: buffer
  c_in :: buffer
  c_out :: buffer
  c_wantWrite :: bool
  c_createdAt :: time_point
  c_lastRecv :: time_point
  c_lastSend :: time_point
  c_registered :: bool
  c_dead :: bool

text \<open>What a connection holds references to: system, libsodium, configuration, identity.\<close>

record 'w env =
  ev_sys :: "'w sys"
  ev_crypto :: "'w crypto"
  ev_cfg :: mesh_config
  ev_self :: local_identity

record 'w listener_ops =
  cl_handshake :: "hello \<Rightarrow> conn \<times> 'w \<Rightarrow> (conn \<times> 'w) option"
  cl_data :: "data_view \<Rightarrow> conn \<times> 'w \<Rightarrow> (conn \<times> 'w) option"
  cl_membership :: "membership_record \<Rightarrow> conn \<times> 'w \<Rightarrow> (conn \<times> 'w) option"
  cl_identity :: "identity_record \<Rightarrow> conn \<times> 'w \<Rightarrow> (conn \<times> 'w) option"
  cl_closed :: "conn \<times> 'w \<Rightarrow> (conn \<times> 'w) option"
  cl_error :: "error \<Rightarrow> 'w \<Rightarrow> 'w"

section \<open>Closing\<close>

definition mark_dead :: "'w env \<Rightarrow> 'w listener_ops \<Rightarrow> conn \<times> 'w \<Rightarrow> (conn \<times> 'w) option" where
  "mark_dead env L s =
     (case s of (c, w) \<Rightarrow>
        if c_dead c then Some (c, w)
        else let c1 = c\<lparr>c_dead := True, c_state := Dead\<rparr>
             in if c_registered c1 \<and> c_fd c1 \<ge> 0
                then cl_closed L (c1\<lparr>c_registered := False\<rparr>, snd (loop_del (ev_sys env) (c_fd c1) w))
                else cl_closed L (c1, w))"

definition fail :: "'w env \<Rightarrow> 'w listener_ops \<Rightarrow> error_category \<Rightarrow> int \<Rightarrow> string \<Rightarrow> conn \<times> 'w \<Rightarrow> (conn \<times> 'w) option" where
  "fail env L cat err what s =
     (case s of (c, w) \<Rightarrow>
        if c_dead c then Some (c, w)
        else let w1 = (if cat \<noteq> Socket \<or> err \<noteq> 0
                       then cl_error L \<lparr>e_category = cat, e_sysErrno = err, e_what = what,
                              e_peer = (if is_zero (c_peerId c) then None else Some (c_peerId c))\<rparr> w
                       else w)
             in mark_dead env L (c, w1))"

section \<open>Sending\<close>

definition update_epoll :: "'w env \<Rightarrow> conn \<times> 'w \<Rightarrow> conn \<times> 'w" where
  "update_epoll env s =
     (case s of (c, w) \<Rightarrow>
        if c_dead c \<or> \<not> c_registered c then (c, w)
        else let needWrite = (\<not> buf_empty (c_out c) \<or> c_state c = ConnectingOut)
             in if needWrite = c_wantWrite c then (c, w)
                else case loop_mod (ev_sys env) (c_fd c) (EPOLLIN OR (if needWrite then EPOLLOUT else 0)) (c_ptr c) w of
                       (ok, w1) \<Rightarrow> (if ok then c\<lparr>c_wantWrite := needWrite\<rparr> else c, w1))"

partial_function (option) flush_outbound :: "'w env \<Rightarrow> 'w listener_ops \<Rightarrow> conn \<times> 'w \<Rightarrow> (conn \<times> 'w) option" where
  "flush_outbound env L s =
     (case s of (c, w) \<Rightarrow>
        if buf_empty (c_out c) then Some (update_epoll env (c, w))
        else (case sys_send (ev_sys env) (c_fd c) (buf_data (c_out c)) w of (r, w1) \<Rightarrow>
               (case r of
                  Inr n \<Rightarrow> if n > 0 then flush_outbound env L (c\<lparr>c_out := consume n (c_out c)\<rparr>, w1)
                           else fail env L Socket (sys_errno (ev_sys env) w1) ''send failed'' (c, w1)
                | Inl e \<Rightarrow> if e = EAGAIN then Some (update_epoll env (c, w1))
                           else if e = EINTR then flush_outbound env L (c, w1)
                           else fail env L Socket e ''send failed'' (c, w1))))"

text \<open>Append to the outbound buffer, stamp \<open>lastSend_\<close>, flush.\<close>

definition push_out :: "'w env \<Rightarrow> 'w listener_ops \<Rightarrow> bytes \<Rightarrow> conn \<times> 'w \<Rightarrow> (conn \<times> 'w) option" where
  "push_out env L rec s =
     (case s of (c, w) \<Rightarrow>
        (case sys_now (ev_sys env) w of (now, w1) \<Rightarrow>
           flush_outbound env L (c\<lparr>c_out := buf_append rec (c_out c), c_lastSend := now\<rparr>, w1)))"

definition my_hello :: "local_identity \<Rightarrow> conn \<Rightarrow> hello" where
  "my_hello self c =
     hello_init\<lparr>h_nodeId := li_nodeId self, h_protocolVersion := li_protocolVersion self, h_tcpListenPort := li_listenPort self,
       h_groupName := li_groupName self, h_nonce := c_localNonce c, h_secure := c_secure c,
       h_ephPubKey := (if c_secure c then ek_pk (c_ephKeys c) else h_ephPubKey hello_init),
       h_hasIdentity := li_hasIdentity self,
       h_idPubKey := (if li_hasIdentity self then ik_pk (li_idKeys self) else h_idPubKey hello_init),
       h_nodeName := (if li_hasIdentity self then li_nodeName self else h_nodeName hello_init)\<rparr>"

definition send_hello :: "'w env \<Rightarrow> 'w listener_ops \<Rightarrow> conn \<times> 'w \<Rightarrow> (conn \<times> 'w) option" where
  "send_hello env L s =
     (case s of (c, w) \<Rightarrow>
        (case (if c_secure c then gen_ephemeral (ev_crypto env) w else (c_ephKeys c, w)) of (ek, w1) \<Rightarrow>
           let c1 = c\<lparr>c_ephKeys := ek\<rparr>;
               frame = encode_hello (if c_inbound c1 then HelloAck else Hello) (my_hello (ev_self env) c1)
           in push_out env L frame (c1, w1)))"

definition send_auth_confirm :: "'w env \<Rightarrow> 'w listener_ops \<Rightarrow> conn \<times> 'w \<Rightarrow> (conn \<times> 'w) option" where
  "send_auth_confirm env L s =
     push_out env L (encode_auth_confirm (c_myConfirmTag (fst s)) (c_useIdentity (fst s)) (c_myIdSig (fst s))) s"

text \<open>\<open>enqueue\<close> in its two halves: the record to send, and the queue with its overflow policy.\<close>

definition outgoing_record :: "'w env \<Rightarrow> bytes \<Rightarrow> conn \<Rightarrow> (bytes \<times> conn) option" where
  "outgoing_record env frame c =
     (if c_secure c \<and> c_state c = Established
      then do { ss \<leftarrow> c_sess c; (case seal (ev_crypto env) frame ss of (r, ss') \<Rightarrow> Some (r, c\<lparr>c_sess := Some ss'\<rparr>)) }
      else Some (frame, c))"

definition queue_record :: "'w env \<Rightarrow> 'w listener_ops \<Rightarrow> bytes \<Rightarrow> conn \<times> 'w \<Rightarrow> (conn \<times> 'w) option" where
  "queue_record env L rec s =
     (case s of (c, w) \<Rightarrow>
        if buf_size (c_out c) + length rec > maxOutboundQueueBytes (ev_cfg env)
        then (case overflowPolicy (ev_cfg env) of
                Disconnect \<Rightarrow> fail env L Backpressure 0 ''outbound queue overflow'' (c, w)
              | DropNewest \<Rightarrow> Some (c, cl_error L \<lparr>e_category = Backpressure, e_sysErrno = 0,
                                  e_what = ''dropped outbound (newest)'', e_peer = Some (c_peerId c)\<rparr> w)
              | DropOldest \<Rightarrow>
                  push_out env L rec (if buf_empty (c_out c) then c else c\<lparr>c_out := consume (buf_size (c_out c)) (c_out c)\<rparr>, w))
        else push_out env L rec (c, w))"

definition enqueue :: "'w env \<Rightarrow> 'w listener_ops \<Rightarrow> bytes \<Rightarrow> conn \<times> 'w \<Rightarrow> (conn \<times> 'w) option" where
  "enqueue env L frame s =
     (if c_dead (fst s) then Some s
      else do { (rec, c) \<leftarrow> outgoing_record env frame (fst s); queue_record env L rec (c, snd s) })"

definition send_raw :: "'w env \<Rightarrow> 'w listener_ops \<Rightarrow> bytes \<Rightarrow> conn \<times> 'w \<Rightarrow> (conn \<times> 'w) option" where
  "send_raw env L frame s = enqueue env L frame s"

definition maybe_heartbeat :: "'w env \<Rightarrow> 'w listener_ops \<Rightarrow> time_point \<Rightarrow> int \<Rightarrow> conn \<times> 'w \<Rightarrow> (conn \<times> 'w) option" where
  "maybe_heartbeat env L now interval s =
     (if c_state (fst s) \<noteq> Established \<or> c_dead (fst s) then Some s
      else if now - c_lastSend (fst s) \<ge> ms interval then send_raw env L encode_heartbeat s
      else Some s)"

definition close_gracefully :: "'w env \<Rightarrow> 'w listener_ops \<Rightarrow> conn \<times> 'w \<Rightarrow> (conn \<times> 'w) option" where
  "close_gracefully env L s =
     (if c_dead (fst s) then Some s
      else do { s1 \<leftarrow> enqueue env L encode_goodbye s; mark_dead env L s1 })"

section \<open>Creation\<close>

definition null_keys :: ephemeral_keypair where
  "null_keys = \<lparr>ek_pk = replicate 32 0, ek_sk = replicate 32 0\<rparr>"

definition conn_init :: "nat \<Rightarrow> int \<Rightarrow> sockaddr_in \<Rightarrow> bool \<Rightarrow> conn_state \<Rightarrow> u64 \<Rightarrow> bool \<Rightarrow> time_point \<Rightarrow> conn" where
  "conn_init ptr fd addr inb st nonce sec now = \<lparr>c_ptr = ptr, c_fd = fd, c_peerAddr = addr, c_inbound = inb, c_state = st,
     c_peerId = zero_id, c_peerListenPort = 0, c_localNonce = nonce, c_peerNonce = 0, c_secure = sec,
     c_ephKeys = null_keys, c_sess = None, c_myConfirmTag = replicate 32 0, c_expectedPeerTag = replicate 32 0,
     c_useIdentity = False, c_myIdSig = replicate 64 0, c_peerHello = hello_init, c_plain = empty_buffer,
     c_in = empty_buffer, c_out = empty_buffer, c_wantWrite = False, c_createdAt = now, c_lastRecv = now, c_lastSend = now,
     c_registered = False, c_dead = False\<rparr>"

definition accept_conn ::
    "'w env \<Rightarrow> 'w listener_ops \<Rightarrow> nat \<Rightarrow> int \<Rightarrow> sockaddr_in \<Rightarrow> u64 \<Rightarrow> 'w \<Rightarrow> (conn \<times> 'w) option" where
  "accept_conn env L ptr fd addr nonce w =
     (case sys_now (ev_sys env) w of (now, w1) \<Rightarrow>
        let c = conn_init ptr fd addr True Handshaking nonce (li_secure (ev_self env)) now
        in case loop_add (ev_sys env) fd EPOLLIN ptr w1 of
             (ok, w2) \<Rightarrow> send_hello env L (if ok then c\<lparr>c_registered := True\<rparr> else c, w2))"

definition dial_conn :: "'w env \<Rightarrow> nat \<Rightarrow> sockaddr_in \<Rightarrow> u64 \<Rightarrow> 'w \<Rightarrow> conn \<times> 'w" where
  "dial_conn env ptr target nonce w =
     (case sys_now (ev_sys env) w of (now, w1) \<Rightarrow>
        (conn_init ptr (-1) target False ConnectingOut nonce (li_secure (ev_self env)) now, w1))"

text \<open>\<open>start_connect\<close>; the boolean is its result.\<close>

definition start_connect :: "'w env \<Rightarrow> 'w listener_ops \<Rightarrow> conn \<times> 'w \<Rightarrow> (bool \<times> conn \<times> 'w) option" where
  "start_connect env L s =
     (case s of (c, w) \<Rightarrow>
        (case sys_socket_tcp (ev_sys env) w of
           (Inl e, w1) \<Rightarrow> map_option (Pair False) (fail env L Socket e ''socket() failed'' (c, w1))
         | (Inr fd, w1) \<Rightarrow>
            let c1 = c\<lparr>c_fd := fd\<rparr> in
            (case sys_connect (ev_sys env) fd (c_peerAddr c1) w1 of (r, w2) \<Rightarrow>
               (case (case r of Inl e \<Rightarrow> if e \<noteq> EINPROGRESS then Some e else None | Inr _ \<Rightarrow> None) of
                  Some e \<Rightarrow> map_option (Pair False) (fail env L Socket e ''connect() failed'' (c1, w2))
                | None \<Rightarrow>
                   (case loop_add (ev_sys env) fd EPOLLOUT (c_ptr c1) w2 of (ok, w3) \<Rightarrow>
                      if \<not> ok then map_option (Pair False) (fail env L Socket (sys_errno (ev_sys env) w3) ''epoll add failed'' (c1, w3))
                      else Some (True, c1\<lparr>c_registered := True, c_wantWrite := True\<rparr>, w3))))))"

definition on_connect_complete :: "'w env \<Rightarrow> 'w listener_ops \<Rightarrow> conn \<times> 'w \<Rightarrow> (conn \<times> 'w) option" where
  "on_connect_complete env L s =
     (case s of (c, w) \<Rightarrow>
        (case sys_so_error (ev_sys env) (c_fd c) w of (ok, err, w1) \<Rightarrow>
           if \<not> ok \<or> err \<noteq> 0 then fail env L Socket err ''async connect failed'' (c, w1)
           else let c1 = c\<lparr>c_state := Handshaking\<rparr>
                in case (if c_registered c1 then loop_mod (ev_sys env) (c_fd c1) EPOLLIN (c_ptr c1) w1 else (False, w1)) of
                     (done, w2) \<Rightarrow> send_hello env L (if done then c1\<lparr>c_wantWrite := False\<rparr> else c1, w2)))"

section \<open>Handshake\<close>

definition id_transcript :: "bytes \<Rightarrow> bytes \<Rightarrow> string \<Rightarrow> bytes" where
  "id_transcript firstEph secondEph name = str_bytes ''mm-id-v1'' @ firstEph @ secondEph @ str_bytes name"

text \<open>The buffer a frame was decoded from: \<open>in_\<close> or \<open>plain_\<close>.\<close>

datatype src_buffer = In | Plain

fun src_data :: "src_buffer \<Rightarrow> conn \<Rightarrow> buffer" where
  "src_data In c = c_in c"
| "src_data Plain c = c_plain c"

fun src_consume :: "src_buffer \<Rightarrow> nat \<Rightarrow> conn \<Rightarrow> conn" where
  "src_consume In n c = c\<lparr>c_in := consume n (c_in c)\<rparr>"
| "src_consume Plain n c = c\<lparr>c_plain := consume n (c_plain c)\<rparr>"

text \<open>A failing step: close and return \<open>false\<close>.\<close>

definition reject :: "'w env \<Rightarrow> 'w listener_ops \<Rightarrow> error_category \<Rightarrow> string \<Rightarrow> conn \<times> 'w \<Rightarrow> (bool \<times> conn \<times> 'w) option" where
  "reject env L cat what s = map_option (Pair False) (fail env L cat 0 what s)"

text \<open>The result \<open>!dead_\<close> after a call that may have closed the connection.\<close>

definition unless_dead :: "(conn \<times> 'w) option \<Rightarrow> (bool \<times> conn \<times> 'w) option" where
  "unless_dead r = map_option (\<lambda>s. (\<not> c_dead (fst s), s)) r"

text \<open>What \<open>handle_hello\<close> records of an acceptable hello, and its secured branch.\<close>

definition note_hello :: "hello \<Rightarrow> conn \<Rightarrow> conn" where
  "note_hello h c = c\<lparr>c_peerId := h_nodeId h, c_peerListenPort := h_tcpListenPort h, c_peerNonce := h_nonce h\<rparr>"

definition install_session :: "'w env \<Rightarrow> hello \<Rightarrow> handshake_result \<Rightarrow> conn \<Rightarrow> conn" where
  "install_session env h hr c =
     (let self = ev_self env;
          useId = (li_hasIdentity self \<and> h_hasIdentity h);
          c2 = c\<lparr>c_sess := Some (hr_session hr), c_myConfirmTag := hr_myConfirmTag hr,
                 c_expectedPeerTag := hr_expectedPeerTag hr, c_peerHello := h, c_useIdentity := useId\<rparr>;
          c3 = (if useId
                then c2\<lparr>c_myIdSig := crypto_sign (ev_crypto env)
                       (id_transcript (ek_pk (c_ephKeys c2)) (h_ephPubKey h) (li_nodeName self)) (ik_sk (li_idKeys self))\<rparr>
                else c2)
      in c3\<lparr>c_state := AwaitingConfirm\<rparr>)"

definition begin_auth :: "'w env \<Rightarrow> 'w listener_ops \<Rightarrow> hello \<Rightarrow> conn \<times> 'w \<Rightarrow> (bool \<times> conn \<times> 'w) option" where
  "begin_auth env L h s =
     (case s of (c, w) \<Rightarrow>
        if li_hasIdentity (ev_self env) \<and> requireIdentity (ev_cfg env) \<and> \<not> h_hasIdentity h
        then reject env L Identity ''peer presented no identity'' (c, w)
        else (case do_handshake (ev_crypto env) (c_ephKeys c) (h_ephPubKey h) (li_groupKey (ev_self env)) (li_groupName (ev_self env)) of
                None \<Rightarrow> reject env L Crypto ''key agreement failed'' (c, w)
              | Some hr \<Rightarrow> unless_dead (send_auth_confirm env L (install_session env h hr c, w))))"

definition handle_hello ::
    "'w env \<Rightarrow> 'w listener_ops \<Rightarrow> parsed_frame \<Rightarrow> nat \<Rightarrow> src_buffer \<Rightarrow> conn \<times> 'w \<Rightarrow> (bool \<times> conn \<times> 'w) option" where
  "handle_hello env L frame consumed src s =
     (case s of (c, w) \<Rightarrow>
        let self = ev_self env; h = f_hello frame in
        if c_state c \<noteq> Handshaking then Some (True, src_consume src consumed c, w)
        else if h_protocolVersion h \<noteq> li_protocolVersion self \<or> h_groupName h \<noteq> li_groupName self
        then reject env L Protocol ''protocol/group mismatch'' (c, w)
        else if h_secure h \<noteq> c_secure c then reject env L Protocol ''security mode mismatch'' (c, w)
        else let c1 = src_consume src consumed (note_hello h c) in
          if \<not> c_secure c1 then unless_dead (cl_handshake L h (c1\<lparr>c_state := Established\<rparr>, w))
          else begin_auth env L h (c1, w))"

text \<open>The checks on a confirmation, in order; \<open>None\<close> when all pass.\<close>

definition auth_error :: "'w env \<Rightarrow> parsed_frame \<Rightarrow> conn \<Rightarrow> (error_category \<times> string) option" where
  "auth_error env frame c =
     (let self = ev_self env; cr = ev_crypto env; ph = c_peerHello c in
      if \<not> verify_tag cr (f_auth_tag frame) (c_expectedPeerTag c) then Some (Crypto, ''authentication failed'')
      else if c_useIdentity c then
        (if \<not> f_has_auth_sig frame then Some (Identity, ''missing identity signature'')
         else if memcmp (id_from_identity cr (h_idPubKey ph)) (pid_bytes (c_peerId c)) \<noteq> 0
         then Some (Identity, ''node id does not match identity key'')
         else if \<not> verify_sig cr (id_transcript (h_ephPubKey ph) (ek_pk (c_ephKeys c)) (h_nodeName ph)) (f_auth_sig frame) (h_idPubKey ph)
         then Some (Identity, ''identity signature invalid'')
         else if li_trustedKeys self \<noteq> [] \<and> h_idPubKey ph \<notin> set (li_trustedKeys self)
         then Some (Identity, ''peer identity not in allowlist'')
         else None)
      else None)"

definition handle_auth_confirm ::
    "'w env \<Rightarrow> 'w listener_ops \<Rightarrow> parsed_frame \<Rightarrow> nat \<Rightarrow> src_buffer \<Rightarrow> conn \<times> 'w \<Rightarrow> (bool \<times> conn \<times> 'w) option" where
  "handle_auth_confirm env L frame consumed src s =
     (case s of (c, w) \<Rightarrow>
        if \<not> c_secure c \<or> c_state c \<noteq> AwaitingConfirm then reject env L Protocol ''unexpected auth confirm'' (c, w)
        else let c1 = src_consume src consumed c in
          (case auth_error env frame c1 of
             Some (cat, what) \<Rightarrow> reject env L cat what (c1, w)
           | None \<Rightarrow> unless_dead (cl_handshake L (c_peerHello c1) (c1\<lparr>c_state := Established\<rparr>, w))))"

section \<open>Receiving\<close>

definition dispatch ::
    "'w env \<Rightarrow> 'w listener_ops \<Rightarrow> parsed_frame \<Rightarrow> nat \<Rightarrow> src_buffer \<Rightarrow> conn \<times> 'w \<Rightarrow> (bool \<times> conn \<times> 'w) option" where
  "dispatch env L frame consumed src s =
     (case s of (c0, w0) \<Rightarrow>
       (case sys_now (ev_sys env) w0 of (now, w) \<Rightarrow>
         let c = c0\<lparr>c_lastRecv := now\<rparr> in
         (case f_type frame of
            Hello \<Rightarrow> handle_hello env L frame consumed src (c, w)
          | HelloAck \<Rightarrow> handle_hello env L frame consumed src (c, w)
          | AuthConfirm \<Rightarrow> handle_auth_confirm env L frame consumed src (c, w)
          | Heartbeat \<Rightarrow> Some (True, src_consume src consumed c, w)
          | Goodbye \<Rightarrow> reject env L Socket ''peer said goodbye'' (src_consume src consumed c, w)
          | Data \<Rightarrow>
              if c_state c \<noteq> Established then reject env L Protocol ''data before handshake'' (c, w)
              else do {
                s1 \<leftarrow> cl_data L (f_data frame) (c, w);
                Some (if c_dead (fst s1) then (False, s1) else (True, src_consume src consumed (fst s1), snd s1)) }
          | Membership \<Rightarrow>
              if c_state c \<noteq> Established then reject env L Protocol ''membership before handshake'' (c, w)
              else unless_dead (cl_membership L (f_membership frame) (src_consume src consumed c, w))
          | IdentityRecord \<Rightarrow>
              if c_state c \<noteq> Established then reject env L Protocol ''identity record before handshake'' (c, w)
              else unless_dead (cl_identity L (f_identity frame) (src_consume src consumed c, w)))))"

partial_function (option) parse_plaintext :: "'w env \<Rightarrow> 'w listener_ops \<Rightarrow> conn \<times> 'w \<Rightarrow> (bool \<times> conn \<times> 'w) option" where
  "parse_plaintext env L s =
     (case try_decode_frame (buf_data (c_in (fst s))) (maxMessageBytes (ev_cfg env)) parsed_frame_init of
        NeedMore \<Rightarrow> Some (True, s)
      | Error \<Rightarrow> reject env L Protocol ''malformed/oversized frame'' s
      | Ok frame consumed \<Rightarrow> do {
          (go, s1) \<leftarrow> dispatch env L frame consumed In s;
          (if \<not> go then Some (False, s1)
           else if c_secure (fst s1) \<and> c_state (fst s1) = Established then Some (True, s1)
           else parse_plaintext env L s1) })"

partial_function (option) drain_records :: "'w env \<Rightarrow> 'w listener_ops \<Rightarrow> conn \<times> 'w \<Rightarrow> (bool \<times> conn \<times> 'w) option" where
  "drain_records env L s =
     (case s of (c, w) \<Rightarrow>
        if buf_size (c_in c) < 4 then Some (True, c, w)
        else let clen = peek_len (buf_data (c_in c)) in
          if clen < 16 \<or> unat clen > maxMessageBytes (ev_cfg env) + 64
          then reject env L Protocol ''malformed encrypted record'' (c, w)
          else if buf_size (c_in c) < 4 + unat clen then Some (True, c, w)
          else do {
            ss \<leftarrow> c_sess c;
            (case open_record (ev_crypto env) (take (unat clen) (drop 4 (buf_data (c_in c)))) ss of (r, ss') \<Rightarrow>
               (case r of
                  None \<Rightarrow> reject env L Crypto ''record authentication failed'' (c, w)
                | Some pt \<Rightarrow> drain_records env L
                    (c\<lparr>c_sess := Some ss', c_plain := buf_append pt (c_plain c), c_in := consume (unat (4 + clen)) (c_in c)\<rparr>, w))) })"

partial_function (option) parse_secure :: "'w env \<Rightarrow> 'w listener_ops \<Rightarrow> conn \<times> 'w \<Rightarrow> (conn \<times> 'w) option" where
  "parse_secure env L s =
     (case try_decode_frame (buf_data (c_plain (fst s))) (maxMessageBytes (ev_cfg env)) parsed_frame_init of
        NeedMore \<Rightarrow> Some s
      | Error \<Rightarrow> fail env L Protocol 0 ''malformed decrypted frame'' s
      | Ok frame consumed \<Rightarrow> do {
          (go, s1) \<leftarrow> dispatch env L frame consumed Plain s;
          (if \<not> go then Some s1 else parse_secure env L s1) })"

definition parse_inbound :: "'w env \<Rightarrow> 'w listener_ops \<Rightarrow> conn \<times> 'w \<Rightarrow> (conn \<times> 'w) option" where
  "parse_inbound env L s =
     do {
       (go, s1) \<leftarrow> (if \<not> (c_secure (fst s) \<and> c_state (fst s) = Established) then parse_plaintext env L s else Some (True, s));
       (if \<not> go then Some s1
        else if c_secure (fst s1) \<and> c_state (fst s1) = Established
        then do { (go2, s2) \<leftarrow> drain_records env L s1; (if \<not> go2 then Some s2 else parse_secure env L s2) }
        else Some s1) }"

text \<open>The loop around \<open>recv\<close>; \<open>true\<close> when it ended on \<open>EAGAIN\<close>.\<close>

partial_function (option) read_loop :: "'w env \<Rightarrow> 'w listener_ops \<Rightarrow> conn \<times> 'w \<Rightarrow> (bool \<times> conn \<times> 'w) option" where
  "read_loop env L s =
     (case s of (c, w) \<Rightarrow>
       (case reserve_tail 65536 (c_in c) of (tail, b) \<Rightarrow>
         (case sys_recv (ev_sys env) (c_fd c) 65536 w of (r, w1) \<Rightarrow>
            (case r of
               Inr bs \<Rightarrow>
                 if bs \<noteq> [] then read_loop env L (c\<lparr>c_in := uncommit (65536 - length bs) (fill_tail tail bs b)\<rparr>, w1)
                 else reject env L Socket ''peer closed connection'' (c\<lparr>c_in := uncommit 65536 b\<rparr>, w1)
             | Inl e \<Rightarrow>
                 let c1 = c\<lparr>c_in := uncommit 65536 b\<rparr> in
                 if e = EAGAIN then Some (True, c1, w1)
                 else if e = EINTR then read_loop env L (c1, w1)
                 else map_option (Pair False) (fail env L Socket e ''recv failed'' (c1, w1))))))"

definition do_read :: "'w env \<Rightarrow> 'w listener_ops \<Rightarrow> conn \<times> 'w \<Rightarrow> (conn \<times> 'w) option" where
  "do_read env L s = do { (go, s1) \<leftarrow> read_loop env L s; (if go then parse_inbound env L s1 else Some s1) }"

definition on_io_events :: "'w env \<Rightarrow> 'w listener_ops \<Rightarrow> u32 \<Rightarrow> conn \<times> 'w \<Rightarrow> (conn \<times> 'w) option" where
  "on_io_events env L events s =
     (if c_dead (fst s) then Some s
      else if events AND (EPOLLHUP OR EPOLLERR) \<noteq> 0 then fail env L Socket 0 ''peer hangup/error'' s
      else do {
        s1 \<leftarrow> (if c_state (fst s) = ConnectingOut \<and> events AND EPOLLOUT \<noteq> 0 then on_connect_complete env L s else Some s);
        (if c_dead (fst s1) then Some s1
         else do {
           s2 \<leftarrow> (if events AND EPOLLOUT \<noteq> 0 then flush_outbound env L s1 else Some s1);
           (if c_dead (fst s2) then Some s2
            else if events AND (EPOLLIN OR EPOLLRDHUP) \<noteq> 0 then do_read env L s2 else Some s2) }) })"

end
