(* ===== verification/ConnectionSteps.thy ===== *)
theory ConnectionSteps
  imports PeerConnection
begin

text \<open>
  The connection of \<open>PeerConnection\<close> as an automaton.  \<open>send_step\<close> and \<open>io_step\<close> are the
  elementary steps of a connection together with the state of everything else: system calls,
  changes of the outbound or inbound side, the transitions of the handshake with their guards,
  and the calls to the owner.  Every operation of the code is a sequence of such steps, so an
  invariant of a connection, or of its owner, is proved step by step and not loop by loop.

  The locale \<open>owner\<close> is the contract of \<open>connection_listener\<close>: a callback may send on the
  connection and may close it, and leaves everything else of it alone.
\<close>

section \<open>What sending and the owner may change\<close>

text \<open>The system calls \<open>send\<close> and \<open>recv\<close> respect the lengths they are given.\<close>

definition send_bounded :: "'w sys \<Rightarrow> bool" where
  "send_bounded sys \<longleftrightarrow> (\<forall>fd bs w n w'. sys_send sys fd bs w = (Inr n, w') \<longrightarrow> n \<le> length bs)"

definition recv_bounded :: "'w sys \<Rightarrow> bool" where
  "recv_bounded sys \<longleftrightarrow> (\<forall>fd n w bs w'. sys_recv sys fd n w = (Inr bs, w') \<longrightarrow> length bs \<le> n)"

text \<open>
  \<open>core\<close> is the part of a connection that neither sending nor the owner touches: the inbound
  side, the peer's data, all keys and the receive counter.  \<open>keeps sys c c'\<close>: the core is the
  same, and the state is unless the connection died.
\<close>

definition core :: "conn \<Rightarrow> conn" where
  "core c = c\<lparr>c_out := empty_buffer, c_sess := map_option (\<lambda>ss. ss\<lparr>txCtr := 0\<rparr>) (c_sess c), c_wantWrite := False,
     c_lastSend := 0, c_registered := False, c_dead := False, c_state := Dead\<rparr>"

definition keeps :: "'w sys \<Rightarrow> conn \<Rightarrow> conn \<Rightarrow> bool" where
  "keeps sys c c' \<longleftrightarrow> core c = core c' \<and> (send_bounded sys \<and> wf_buffer (c_out c) \<longrightarrow> wf_buffer (c_out c')) \<and>
     (if c_dead c' then c_state c' = Dead \<or> (c_dead c \<and> c_state c' = c_state c) else \<not> c_dead c \<and> c_state c' = c_state c)"

lemma keeps_refl [simp]: "keeps sys c c"
  by (simp add: keeps_def)

lemma keeps_trans [trans]: "keeps sys a b \<Longrightarrow> keeps sys b c \<Longrightarrow> keeps sys a c"
  by (auto simp: keeps_def split: if_splits)

lemma keeps_fields:
  assumes "keeps sys c c'"
  shows "c_ptr c' = c_ptr c" "c_fd c' = c_fd c" "c_peerAddr c' = c_peerAddr c" "c_inbound c' = c_inbound c"
    "c_peerId c' = c_peerId c" "c_peerListenPort c' = c_peerListenPort c" "c_localNonce c' = c_localNonce c"
    "c_peerNonce c' = c_peerNonce c" "c_secure c' = c_secure c" "c_ephKeys c' = c_ephKeys c"
    "c_myConfirmTag c' = c_myConfirmTag c" "c_expectedPeerTag c' = c_expectedPeerTag c" "c_useIdentity c' = c_useIdentity c"
    "c_myIdSig c' = c_myIdSig c" "c_peerHello c' = c_peerHello c" "c_plain c' = c_plain c" "c_in c' = c_in c"
    "c_createdAt c' = c_createdAt c" "c_lastRecv c' = c_lastRecv c"
    "map_option txKey (c_sess c') = map_option txKey (c_sess c)" "map_option rxKey (c_sess c') = map_option rxKey (c_sess c)"
    "map_option rxCtr (c_sess c') = map_option rxCtr (c_sess c)"
proof -
  have e: "core c' = core c" using assms by (simp add: keeps_def)
  show "c_ptr c' = c_ptr c" using arg_cong [OF e, of c_ptr] by (simp add: core_def)
  show "c_fd c' = c_fd c" using arg_cong [OF e, of c_fd] by (simp add: core_def)
  show "c_peerAddr c' = c_peerAddr c" using arg_cong [OF e, of c_peerAddr] by (simp add: core_def)
  show "c_inbound c' = c_inbound c" using arg_cong [OF e, of c_inbound] by (simp add: core_def)
  show "c_peerId c' = c_peerId c" using arg_cong [OF e, of c_peerId] by (simp add: core_def)
  show "c_peerListenPort c' = c_peerListenPort c" using arg_cong [OF e, of c_peerListenPort] by (simp add: core_def)
  show "c_localNonce c' = c_localNonce c" using arg_cong [OF e, of c_localNonce] by (simp add: core_def)
  show "c_peerNonce c' = c_peerNonce c" using arg_cong [OF e, of c_peerNonce] by (simp add: core_def)
  show "c_secure c' = c_secure c" using arg_cong [OF e, of c_secure] by (simp add: core_def)
  show "c_ephKeys c' = c_ephKeys c" using arg_cong [OF e, of c_ephKeys] by (simp add: core_def)
  show "c_myConfirmTag c' = c_myConfirmTag c" using arg_cong [OF e, of c_myConfirmTag] by (simp add: core_def)
  show "c_expectedPeerTag c' = c_expectedPeerTag c" using arg_cong [OF e, of c_expectedPeerTag] by (simp add: core_def)
  show "c_useIdentity c' = c_useIdentity c" using arg_cong [OF e, of c_useIdentity] by (simp add: core_def)
  show "c_myIdSig c' = c_myIdSig c" using arg_cong [OF e, of c_myIdSig] by (simp add: core_def)
  show "c_peerHello c' = c_peerHello c" using arg_cong [OF e, of c_peerHello] by (simp add: core_def)
  show "c_plain c' = c_plain c" using arg_cong [OF e, of c_plain] by (simp add: core_def)
  show "c_in c' = c_in c" using arg_cong [OF e, of c_in] by (simp add: core_def)
  show "c_createdAt c' = c_createdAt c" using arg_cong [OF e, of c_createdAt] by (simp add: core_def)
  show "c_lastRecv c' = c_lastRecv c" using arg_cong [OF e, of c_lastRecv] by (simp add: core_def)
  have ss: "map_option (\<lambda>ss. ss\<lparr>txCtr := 0\<rparr>) (c_sess c') = map_option (\<lambda>ss. ss\<lparr>txCtr := 0\<rparr>) (c_sess c)"
    using arg_cong [OF e, of c_sess] by (simp add: core_def)
  show "map_option txKey (c_sess c') = map_option txKey (c_sess c)"
    using arg_cong [OF ss, of "map_option txKey"] by (simp add: option.map_comp comp_def)
  show "map_option rxKey (c_sess c') = map_option rxKey (c_sess c)"
    using arg_cong [OF ss, of "map_option rxKey"] by (simp add: option.map_comp comp_def)
  show "map_option rxCtr (c_sess c') = map_option rxCtr (c_sess c)"
    using arg_cong [OF ss, of "map_option rxCtr"] by (simp add: option.map_comp comp_def)
qed

lemma keeps_sess: "keeps sys c c' \<Longrightarrow> c_sess c' = None \<longleftrightarrow> c_sess c = None"
  using keeps_fields(20) [of sys c c'] by auto

lemma keeps_dead: "keeps sys c c' \<Longrightarrow> c_dead c \<Longrightarrow> c_dead c'"
  by (auto simp: keeps_def split: if_splits)

lemma keeps_state: "keeps sys c c' \<Longrightarrow> \<not> c_dead c' \<Longrightarrow> c_state c' = c_state c \<and> \<not> c_dead c"
  by (simp add: keeps_def)


section \<open>Steps of sending\<close>

text \<open>The calls that move the state of everything else without involving the owner.\<close>

definition sys_moves :: "'w env \<Rightarrow> 'w \<Rightarrow> 'w \<Rightarrow> bool" where
  "sys_moves env w w' \<longleftrightarrow>
     (\<exists>t. sys_now (ev_sys env) w = (t, w')) \<or> (\<exists>opn fd ev p ok. sys_epoll_ctl (ev_sys env) opn fd ev p w = (ok, w')) \<or>
     (\<exists>r. sys_socket_tcp (ev_sys env) w = (r, w')) \<or> (\<exists>fd a r. sys_connect (ev_sys env) fd a w = (r, w')) \<or>
     (\<exists>fd ok err. sys_so_error (ev_sys env) fd w = (ok, err, w')) \<or> (\<exists>fd n r. sys_recv (ev_sys env) fd n w = (r, w')) \<or>
     (\<exists>fd bs r. sys_send (ev_sys env) fd bs w = (r, w')) \<or> (\<exists>ek. gen_ephemeral (ev_crypto env) w = (ek, w'))"

lemma sys_moves_intros [intro]:
  "sys_now (ev_sys env) w = (t, w') \<Longrightarrow> sys_moves env w w'"
  "sys_epoll_ctl (ev_sys env) opn fd ev p w = (ok, w') \<Longrightarrow> sys_moves env w w'"
  "sys_socket_tcp (ev_sys env) w = (r1, w') \<Longrightarrow> sys_moves env w w'"
  "sys_connect (ev_sys env) fd a w = (r2, w') \<Longrightarrow> sys_moves env w w'"
  "sys_so_error (ev_sys env) fd w = (ok, err, w') \<Longrightarrow> sys_moves env w w'"
  "sys_recv (ev_sys env) fd n w = (r3, w') \<Longrightarrow> sys_moves env w w'"
  "sys_send (ev_sys env) fd bs w = (r4, w') \<Longrightarrow> sys_moves env w w'"
  "gen_ephemeral (ev_crypto env) w = (ek, w') \<Longrightarrow> sys_moves env w w'"
  unfolding sys_moves_def by blast+

text \<open>A change of the outbound side only.\<close>

definition outbound :: "'w sys \<Rightarrow> conn \<Rightarrow> conn \<Rightarrow> bool" where
  "outbound sys c c' \<longleftrightarrow> keeps sys c c' \<and> c_dead c' = c_dead c \<and> c_state c' = c_state c \<and> c_registered c' = c_registered c"

inductive send_step :: "'w env \<Rightarrow> 'w listener_ops \<Rightarrow> conn \<times> 'w \<Rightarrow> conn \<times> 'w \<Rightarrow> bool" for env L where
  Sys: "sys_moves env w w' \<Longrightarrow> send_step env L (c, w) (c, w')"
| Outbound: "outbound (ev_sys env) c c' \<Longrightarrow> send_step env L (c, w) (c', w)"
| Report: "send_step env L (c, w) (c, cl_error L e w)"
| Close: "\<not> c_dead c \<Longrightarrow> cl_closed L (c\<lparr>c_dead := True, c_state := Dead, c_registered := r\<rparr>, w) = Some s' \<Longrightarrow> send_step env L (c, w) s'"

abbreviation sends :: "'w env \<Rightarrow> 'w listener_ops \<Rightarrow> conn \<times> 'w \<Rightarrow> conn \<times> 'w \<Rightarrow> bool" where
  "sends env L \<equiv> (send_step env L)\<^sup>*\<^sup>*"

lemmas then_step = rtranclp.rtrancl_into_rtrancl and first_step = converse_rtranclp_into_rtranclp

lemma first_sys: "sys_moves env w w' \<Longrightarrow> sends env L (c, w') s \<Longrightarrow> sends env L (c, w) s"
  by (rule first_step [where r = "send_step env L"]) (rule Sys)

lemma first_outbound: "outbound (ev_sys env) c c' \<Longrightarrow> sends env L (c', w) s \<Longrightarrow> sends env L (c, w) s"
  by (rule first_step [where r = "send_step env L"]) (rule Outbound)

lemma first_report: "sends env L (c, cl_error L e w) s \<Longrightarrow> sends env L (c, w) s"
  by (rule first_step [where r = "send_step env L"]) (rule Report)

section \<open>Sending is a sequence of steps\<close>

lemma mark_dead_sends:
  assumes "mark_dead env L s = Some s'"
  shows "sends env L s s'"
proof -
  obtain c w where s: "s = (c, w)" by fastforce
  obtain ok w1 where d: "loop_del (ev_sys env) (c_fd c) w = (ok, w1)" by fastforce
  consider "c_dead c" | "\<not> c_dead c" "c_registered c" "c_fd c \<ge> 0" | "\<not> c_dead c" "\<not> (c_registered c \<and> c_fd c \<ge> 0)" by blast
  then show ?thesis
  proof cases
    case 1
    then show ?thesis using assms s by (simp add: mark_dead_def)
  next
    case 2
    then have "send_step env L (c, w1) s'" using assms s d by (auto simp: mark_dead_def Let_def intro!: Close [where r = False])
    moreover have "sys_moves env w w1" using d by (auto simp: loop_del_def)
    ultimately show ?thesis using s by (auto intro: first_sys)
  next
    case 3
    then have "cl_closed L (c\<lparr>c_dead := True, c_state := Dead, c_registered := c_registered c\<rparr>, w) = Some s'"
      using assms s by (simp add: mark_dead_def Let_def split: if_splits)
    then show ?thesis using 3 s by (blast intro: Close)
  qed
qed

lemma fail_sends: "fail env L cat err what s = Some s' \<Longrightarrow> sends env L s s'"
  by (cases s) (auto simp: fail_def Let_def split: if_splits dest: mark_dead_sends intro: first_report)

lemma update_epoll_sends: "sends env L s (update_epoll env s)"
proof -
  obtain c w where s: "s = (c, w)" by fastforce
  let ?n = "\<not> buf_empty (c_out c) \<or> c_state c = ConnectingOut"
  obtain ok w1 where m: "loop_mod (ev_sys env) (c_fd c) (EPOLLIN OR (if ?n then EPOLLOUT else 0)) (c_ptr c) w = (ok, w1)" by fastforce
  have "sys_moves env w w1" using m by (auto simp: loop_mod_def)
  moreover have "outbound (ev_sys env) c (if ok then c\<lparr>c_wantWrite := ?n\<rparr> else c)"
    by (simp add: outbound_def keeps_def core_def)
  ultimately have "sends env L (c, w) (if ok then c\<lparr>c_wantWrite := ?n\<rparr> else c, w1)"
    by (blast intro: first_sys first_outbound)
  then show ?thesis using s m by (auto simp: update_epoll_def Let_def)
qed

lemma outbound_consume:
  assumes "send_bounded sys \<Longrightarrow> n \<le> buf_size (c_out c)"
  shows "outbound sys c (c\<lparr>c_out := consume n (c_out c)\<rparr>)"
  using assms by (auto simp: outbound_def keeps_def core_def)

lemma flush_outbound_sends:
  assumes "flush_outbound env L s = Some s'"
  shows "sends env L s s'"
proof -
  let ?P = "\<lambda>e l s s'. e = env \<longrightarrow> l = L \<longrightarrow> sends env L s s'"
  have "?P env L s s'"
  proof (rule flush_outbound.raw_induct [where P = ?P, OF _ assms(1)], intro impI, goal_cases)
    case (1 flush e l s s')
    note IH = "1"(1) [of env L, simplified] and body = "1"(2) [unfolded "1"(3,4)]
    obtain c w where s: "s = (c, w)" by fastforce
    obtain r w1 where r: "sys_send (ev_sys env) (c_fd c) (buf_data (c_out c)) w = (r, w1)" by fastforce
    then have w1: "sys_moves env w w1" by auto
    show ?case
    proof (cases "buf_empty (c_out c)")
      case True
      then show ?thesis using body s update_epoll_sends [of env L "(c, w)"] by simp
    next
      case ne: False
      show ?thesis
      proof (cases r)
        case (Inl e)
        have "sends env L (c, w1) s'"
          using body s r ne Inl IH [of "(c, w1)" s'] update_epoll_sends [of env L "(c, w1)"] "1"(3,4)
          by (auto split: if_splits dest: fail_sends)
        then show ?thesis using s first_sys [OF w1] by simp
      next
        case (Inr n)
        let ?c = "c\<lparr>c_out := consume n (c_out c)\<rparr>"
        have "outbound (ev_sys env) c ?c" using r Inr by (intro outbound_consume) (force simp: send_bounded_def)
        moreover have "sends env L (?c, w1) s'" if "n > 0" using body s r ne Inr IH [of "(?c, w1)" s'] "1"(3,4) that by simp
        moreover have "sends env L (c, w1) s'" if "n = 0" using body s r ne Inr that by (auto dest: fail_sends)
        ultimately have "sends env L (c, w1) s'" by (cases "n = 0") (auto intro: first_outbound)
        then show ?thesis using s first_sys [OF w1] by simp
      qed
    qed
  qed
  then show ?thesis by simp
qed

lemma push_out_sends:
  assumes "push_out env L rec s = Some s'"
  shows "sends env L s s'"
proof -
  obtain c w where s: "s = (c, w)" by fastforce
  obtain now w1 where n: "sys_now (ev_sys env) w = (now, w1)" by fastforce
  let ?c = "c\<lparr>c_out := buf_append rec (c_out c), c_lastSend := now\<rparr>"
  have "outbound (ev_sys env) c ?c" by (simp add: outbound_def keeps_def core_def)
  moreover have "sends env L (?c, w1) s'" using assms s n by (auto simp: push_out_def dest: flush_outbound_sends)
  ultimately show ?thesis using s n by (blast intro: first_outbound first_sys)
qed

lemma outgoing_outbound:
  assumes "outgoing_record env frame c = Some (rec, c')"
  shows "outbound sys c c' \<and> c_out c' = c_out c"
proof (cases "c_secure c \<and> c_state c = Established")
  case True
  then obtain ss where "c_sess c = Some ss" using assms by (auto simp: outgoing_record_def bind_eq_Some_conv)
  moreover obtain r ss' where "seal (ev_crypto env) frame ss = (r, ss')" by fastforce
  ultimately have ss: "c_sess c = Some ss" "seal (ev_crypto env) frame ss = (rec, ss')" "c' = c\<lparr>c_sess := Some ss'\<rparr>"
    using assms True by (auto simp: outgoing_record_def)
  then have "ss'\<lparr>txCtr := 0\<rparr> = ss\<lparr>txCtr := 0\<rparr>" by (auto simp: seal_def Let_def split: option.splits)
  then show ?thesis using ss by (simp add: outbound_def keeps_def core_def)
next
  case False
  then show ?thesis using assms by (auto simp: outgoing_record_def outbound_def)
qed

lemma queue_record_sends:
  assumes "queue_record env L rec s = Some s'"
  shows "sends env L s s'"
proof -
  obtain c w where s: "s = (c, w)" by fastforce
  let ?c = "c\<lparr>c_out := consume (buf_size (c_out c)) (c_out c)\<rparr>"
  have "outbound (ev_sys env) c ?c" by (rule outbound_consume) simp
  then have "push_out env L rec (?c, w) = Some s' \<Longrightarrow> sends env L (c, w) s'"
    by (blast intro: first_outbound dest: push_out_sends)
  then show ?thesis
    using assms s
    by (auto simp: queue_record_def split: if_splits overflow.splits dest: fail_sends push_out_sends intro: Report)
qed

lemma enqueue_sends: "enqueue env L frame s = Some s' \<Longrightarrow> sends env L s s'"
  by (cases s) (auto simp: enqueue_def bind_eq_Some_conv split: if_splits
      dest!: queue_record_sends dest: outgoing_outbound [of _ _ _ _ _ "ev_sys env"] intro: first_outbound)

lemma send_raw_sends: "send_raw env L frame s = Some s' \<Longrightarrow> sends env L s s'"
  by (simp add: send_raw_def enqueue_sends)

lemma maybe_heartbeat_sends: "maybe_heartbeat env L now i s = Some s' \<Longrightarrow> sends env L s s'"
  by (auto simp: maybe_heartbeat_def send_raw_sends split: if_splits)

lemma close_gracefully_sends: "close_gracefully env L s = Some s' \<Longrightarrow> sends env L s s'"
  by (auto simp: close_gracefully_def bind_eq_Some_conv split: if_splits
      dest!: mark_dead_sends enqueue_sends intro: rtranclp_trans)

text \<open>An owner whose \<open>on_peer_closed\<close> leaves the core alone.\<close>

definition closed_keeps :: "'w env \<Rightarrow> 'w listener_ops \<Rightarrow> bool" where
  "closed_keeps env L \<longleftrightarrow> (\<forall>s s'. cl_closed L s = Some s' \<longrightarrow> keeps (ev_sys env) (fst s) (fst s'))"

lemma closed_keepsD: "cl_closed L s = Some s' \<Longrightarrow> closed_keeps env L \<Longrightarrow> keeps (ev_sys env) (fst s) (fst s')"
  unfolding closed_keeps_def by blast

lemma send_step_keeps: "send_step env L s s' \<Longrightarrow> closed_keeps env L \<Longrightarrow> keeps (ev_sys env) (fst s) (fst s')"
proof (induction rule: send_step.induct)
  case (Close c r w s')
  then have "keeps (ev_sys env) (c\<lparr>c_dead := True, c_state := Dead, c_registered := r\<rparr>) (fst s')"
    using Close(2,3) unfolding closed_keeps_def by (metis fst_conv)
  moreover have "keeps (ev_sys env) c (c\<lparr>c_dead := True, c_state := Dead, c_registered := r\<rparr>)"
    using Close by (simp add: keeps_def core_def)
  ultimately show ?case using keeps_trans by auto
qed (simp_all add: outbound_def)

lemma sends_keeps:
  assumes "sends env L s s'" "closed_keeps env L"
  shows "keeps (ev_sys env) (fst s) (fst s')"
  using assms(1) by induction (auto intro: keeps_trans send_step_keeps [OF _ assms(2)])

lemma mark_dead_dead: "mark_dead env L s = Some s' \<Longrightarrow> closed_keeps env L \<Longrightarrow> c_dead (fst s')"
  by (cases s) (auto simp: mark_dead_def Let_def split: if_splits dest!: closed_keepsD dest: keeps_dead)

lemma fail_dead: "fail env L cat err what s = Some s' \<Longrightarrow> closed_keeps env L \<Longrightarrow> c_dead (fst s')"
  by (cases s) (auto simp: fail_def Let_def split: if_splits dest: mark_dead_dead)

lemma close_gracefully_dead: "close_gracefully env L s = Some s' \<Longrightarrow> closed_keeps env L \<Longrightarrow> c_dead (fst s')"
  by (auto simp: close_gracefully_def bind_eq_Some_conv split: if_splits dest: mark_dead_dead)

section \<open>Invariant of a connection\<close>

definition wf_conn :: "conn \<Rightarrow> bool" where
  "wf_conn c \<longleftrightarrow> wf_buffer (c_in c) \<and> wf_buffer (c_out c) \<and> wf_buffer (c_plain c) \<and> (c_dead c \<longleftrightarrow> c_state c = Dead) \<and>
     (c_secure c \<and> (c_state c = AwaitingConfirm \<or> c_state c = Established) \<longrightarrow> c_sess c \<noteq> None) \<and>
     (c_state c = AwaitingConfirm \<longrightarrow> c_secure c \<and> h_nodeId (c_peerHello c) = c_peerId c)"

lemma wf_conn_init: "st \<in> {ConnectingOut, Handshaking} \<Longrightarrow> wf_conn (conn_init ptr fd addr inb st nonce sec now)"
  by (auto simp: wf_conn_def conn_init_def)

lemma wf_keeps: "keeps sys c c' \<Longrightarrow> send_bounded sys \<Longrightarrow> wf_conn c \<Longrightarrow> wf_conn c'"
  using keeps_fields(5,9,15,16,17) [of sys c c'] keeps_sess [of sys c c']
  by (auto simp: wf_conn_def keeps_def split: if_splits)

lemma wf_src_consume:
  "wf_conn c \<Longrightarrow> n \<le> buf_size (src_data src c) \<Longrightarrow> wf_conn (src_consume src n c)"
  by (cases src) (simp_all add: wf_conn_def)

lemma src_consume_simps [simp]:
  "c_dead (src_consume src n c) = c_dead c" "c_state (src_consume src n c) = c_state c" "c_secure (src_consume src n c) = c_secure c"
  "c_sess (src_consume src n c) = c_sess c" "c_ephKeys (src_consume src n c) = c_ephKeys c" "c_peerId (src_consume src n c) = c_peerId c"
  "c_useIdentity (src_consume src n c) = c_useIdentity c" "c_peerHello (src_consume src n c) = c_peerHello c"
  "c_expectedPeerTag (src_consume src n c) = c_expectedPeerTag c" "c_myConfirmTag (src_consume src n c) = c_myConfirmTag c"
  "c_myIdSig (src_consume src n c) = c_myIdSig c" "c_out (src_consume src n c) = c_out c"
  "src_data src (src_consume src n c) = consume n (src_data src c)"
  by (cases src; simp)+

lemma keeps_src: "keeps sys c c' \<Longrightarrow> src_data src c' = src_data src c"
  by (cases src) (simp_all add: keeps_fields)

lemma src_data_simps [simp]:
  "src_data src (c\<lparr>c_state := st\<rparr>) = src_data src c" "src_data src (c\<lparr>c_lastRecv := t\<rparr>) = src_data src c"
  "src_data src (note_hello h c) = src_data src c" "src_data src (install_session env h hr c) = src_data src c"
  by (cases src; simp add: note_hello_def install_session_def Let_def)+

lemma decode_ok_length: "try_decode_frame s maxb out = Ok f n \<Longrightarrow> 5 \<le> n \<and> n \<le> length s"
  by (auto simp: try_decode_frame_def Let_def word_less_nat_alt split: if_splits option.splits prod.splits)

section \<open>Steps of handling an event\<close>

text \<open>A change of the inbound side only: buffers, receive counter and time stamp.\<close>

definition inbound :: "'w sys \<Rightarrow> conn \<Rightarrow> conn \<Rightarrow> bool" where
  "inbound sys c c' \<longleftrightarrow>
     c\<lparr>c_in := c_in c', c_plain := c_plain c', c_lastRecv := c_lastRecv c', c_sess := c_sess c'\<rparr> = c' \<and>
     map_option (\<lambda>ss. ss\<lparr>rxCtr := 0\<rparr>) (c_sess c') = map_option (\<lambda>ss. ss\<lparr>rxCtr := 0\<rparr>) (c_sess c) \<and>
     (send_bounded sys \<and> recv_bounded sys \<and> wf_conn c \<longrightarrow> wf_conn c')"

text \<open>The peer's hello fits this node: the checks of \<open>handle_hello\<close>.\<close>

definition compatible :: "'w env \<Rightarrow> hello \<Rightarrow> conn \<Rightarrow> bool" where
  "compatible env h c \<longleftrightarrow> h_protocolVersion h = li_protocolVersion (ev_self env) \<and> h_groupName h = li_groupName (ev_self env) \<and>
     h_secure h = c_secure c"

text \<open>The next frame of a buffer and its length.\<close>

definition pending :: "'w env \<Rightarrow> src_buffer \<Rightarrow> conn \<Rightarrow> parsed_frame \<Rightarrow> nat \<Rightarrow> bool" where
  "pending env src c f n \<longleftrightarrow> try_decode_frame (buf_data (src_data src c)) (maxMessageBytes (ev_cfg env)) parsed_frame_init = Ok f n"

inductive io_step :: "'w env \<Rightarrow> 'w listener_ops \<Rightarrow> conn \<times> 'w \<Rightarrow> conn \<times> 'w \<Rightarrow> bool" for env L where
  Send: "send_step env L s s' \<Longrightarrow> io_step env L s s'"
| Receive: "inbound (ev_sys env) c c' \<Longrightarrow> io_step env L (c, w) (c', w)"
| Connected: "c_state c = ConnectingOut \<Longrightarrow> io_step env L (c, w) (c\<lparr>c_state := Handshaking\<rparr>, w)"
| Keys: "c_state c = Handshaking \<Longrightarrow> io_step env L (c, w) (c\<lparr>c_ephKeys := ek\<rparr>, w)"
| Note: "c_state c = Handshaking \<Longrightarrow> pending env src c f n \<Longrightarrow> f_type f \<in> {Hello, HelloAck} \<Longrightarrow> compatible env (f_hello f) c \<Longrightarrow>
    io_step env L (c, w) (note_hello (f_hello f) c, w)"
| Session: "c_state c = Handshaking \<Longrightarrow> c_secure c \<Longrightarrow> compatible env h c \<Longrightarrow> c_peerId c = h_nodeId h \<Longrightarrow>
    (li_hasIdentity (ev_self env) \<and> requireIdentity (ev_cfg env) \<longrightarrow> h_hasIdentity h) \<Longrightarrow>
    do_handshake (ev_crypto env) (c_ephKeys c) (h_ephPubKey h) (li_groupKey (ev_self env)) (li_groupName (ev_self env)) = Some hr \<Longrightarrow>
    io_step env L (c, w) (install_session env h hr c, w)"
| Open: "c_state c = Handshaking \<Longrightarrow> \<not> c_secure c \<Longrightarrow> compatible env h c \<Longrightarrow> c_peerId c = h_nodeId h \<Longrightarrow>
    cl_handshake L h (c\<lparr>c_state := Established\<rparr>, w) = Some s' \<Longrightarrow> io_step env L (c, w) s'"
| Confirmed: "c_state c = AwaitingConfirm \<Longrightarrow> c_secure c \<Longrightarrow> pending env src c f n \<Longrightarrow> f_type f = AuthConfirm \<Longrightarrow> auth_error env f c = None \<Longrightarrow>
    cl_handshake L (c_peerHello c) ((src_consume src n c)\<lparr>c_state := Established\<rparr>, w) = Some s' \<Longrightarrow> io_step env L (c, w) s'"
| Message: "c_state c = Established \<Longrightarrow> pending env src c f n \<Longrightarrow> f_type f = Data \<Longrightarrow>
    cl_data L (f_data f) (c, w) = Some s' \<Longrightarrow> io_step env L (c, w) s'"
| Member: "c_state c = Established \<Longrightarrow> pending env src c f n \<Longrightarrow> f_type f = Membership \<Longrightarrow>
    cl_membership L (f_membership f) (src_consume src n c, w) = Some s' \<Longrightarrow> io_step env L (c, w) s'"
| Name: "c_state c = Established \<Longrightarrow> pending env src c f n \<Longrightarrow> f_type f = IdentityRecord \<Longrightarrow>
    cl_identity L (f_identity f) (src_consume src n c, w) = Some s' \<Longrightarrow> io_step env L (c, w) s'"

abbreviation ios :: "'w env \<Rightarrow> 'w listener_ops \<Rightarrow> conn \<times> 'w \<Rightarrow> conn \<times> 'w \<Rightarrow> bool" where
  "ios env L \<equiv> (io_step env L)\<^sup>*\<^sup>*"

lemma sends_ios: "sends env L s s' \<Longrightarrow> ios env L s s'"
  by (rule mono_rtranclp [rule_format]) (rule Send)

lemma one_io: "io_step env L s s' \<Longrightarrow> ios env L s s'"
  by (rule r_into_rtranclp)

lemma then_ios: "io_step env L s s1 \<Longrightarrow> ios env L s1 s' \<Longrightarrow> ios env L s s'"
  by (rule converse_rtranclp_into_rtranclp)

lemma sys_ios: "sys_moves env w w' \<Longrightarrow> ios env L (c, w') s \<Longrightarrow> ios env L (c, w) s"
  by (rule then_ios [OF Send]) (rule Sys)

lemma receive_ios: "inbound (ev_sys env) c c' \<Longrightarrow> ios env L (c', w) s \<Longrightarrow> ios env L (c, w) s"
  by (rule then_ios [OF Receive])

lemma inbound_refl [simp]: "inbound sys c c"
  by (simp add: inbound_def)

lemma inbound_lastRecv [simp]: "inbound sys c (c\<lparr>c_lastRecv := t\<rparr>)"
  by (simp add: inbound_def wf_conn_def)

lemma pending_le: "pending env src c f n \<Longrightarrow> n \<le> buf_size (src_data src c)"
  using decode_ok_length by (fastforce simp: pending_def)

lemma pending_lastRecv [simp]: "pending env src (c\<lparr>c_lastRecv := t\<rparr>) f n = pending env src c f n"
  by (simp add: pending_def)

lemma inbound_consume: "n \<le> buf_size (src_data src c) \<Longrightarrow> inbound sys c (src_consume src n c)"
  using wf_src_consume [of c n src] by (cases src) (auto simp: inbound_def)

lemma reserve_uncommit:
  assumes "reserve_tail n b = (tail, b1)" "length bs \<le> n"
  shows "uncommit (n - length bs) (fill_tail tail bs b1) = buf_append bs b" "uncommit n b1 = b"
  using assms by (auto simp: reserve_tail_def fill_tail_def uncommit_def buf_append_def)

text \<open>One round of the \<open>recv\<close> loop in terms of the queue contract of the buffer.\<close>

lemma read_loop_unfold:
  assumes "recv_bounded (ev_sys env)"
  shows "read_loop env L (c, w) =
     (case sys_recv (ev_sys env) (c_fd c) 65536 w of (r, w1) \<Rightarrow>
        (case r of
           Inr bs \<Rightarrow> if bs \<noteq> [] then read_loop env L (c\<lparr>c_in := buf_append bs (c_in c)\<rparr>, w1)
                    else reject env L Socket ''peer closed connection'' (c, w1)
         | Inl e \<Rightarrow> if e = EAGAIN then Some (True, c, w1)
                    else if e = EINTR then read_loop env L (c, w1)
                    else map_option (Pair False) (fail env L Socket e ''recv failed'' (c, w1))))"
proof -
  obtain tail b where t: "reserve_tail 65536 (c_in c) = (tail, b)" by fastforce
  obtain r w1 where r: "sys_recv (ev_sys env) (c_fd c) 65536 w = (r, w1)" by fastforce
  have un: "uncommit 65536 b = c_in c" using reserve_uncommit(2) [OF t, of "[]"] by simp
  show ?thesis
  proof (cases r)
    case (Inl e)
    then show ?thesis by (subst read_loop.simps) (simp add: t r un Let_def)
  next
    case (Inr bs)
    have "length bs \<le> 65536" using assms r Inr by (force simp: recv_bounded_def)
    then show ?thesis using Inr by (subst read_loop.simps) (simp add: t r un reserve_uncommit(1) [OF t])
  qed
qed

section \<open>The contract of the owner\<close>

definition owner_keeps :: "'w env \<Rightarrow> 'w listener_ops \<Rightarrow> bool" where
  "owner_keeps env L \<longleftrightarrow> (\<forall>s s'. (\<exists>h. cl_handshake L h s = Some s') \<or> (\<exists>v. cl_data L v s = Some s') \<or> (\<exists>m. cl_membership L m s = Some s') \<or>
     (\<exists>i. cl_identity L i s = Some s') \<or> cl_closed L s = Some s' \<longrightarrow> keeps (ev_sys env) (fst s) (fst s'))"

lemma owner_keepsD:
  assumes "owner_keeps env L"
  shows "cl_handshake L h s = Some s' \<Longrightarrow> keeps (ev_sys env) (fst s) (fst s')" "cl_data L v s = Some s' \<Longrightarrow> keeps (ev_sys env) (fst s) (fst s')"
    "cl_membership L m s = Some s' \<Longrightarrow> keeps (ev_sys env) (fst s) (fst s')" "cl_identity L i s = Some s' \<Longrightarrow> keeps (ev_sys env) (fst s) (fst s')"
    "cl_closed L s = Some s' \<Longrightarrow> keeps (ev_sys env) (fst s) (fst s')"
  using assms unfolding owner_keeps_def by blast+

text \<open>
  What the parser knows after a frame of \<open>n\<close> bytes was handled with result \<open>go\<close>: the handler was
  a sequence of steps, it asks to go on exactly if the connection lives, and then exactly the
  frame was consumed.
\<close>

definition frame_done :: "'w env \<Rightarrow> 'w listener_ops \<Rightarrow> src_buffer \<Rightarrow> nat \<Rightarrow> bool \<Rightarrow> conn \<times> 'w \<Rightarrow> conn \<times> 'w \<Rightarrow> bool" where
  "frame_done env L src n go s s' \<longleftrightarrow> ios env L s s' \<and> (go \<longleftrightarrow> \<not> c_dead (fst s')) \<and> c_secure (fst s') = c_secure (fst s) \<and>
     (go \<longrightarrow> src_data src (fst s') = consume n (src_data src (fst s)) \<and>
       (c_state (fst s) = Established \<longrightarrow> c_state (fst s') = Established))"

locale owner =
  fixes env :: "'w env" and L :: "'w listener_ops"
  assumes owner: "owner_keeps env L"
begin

lemmas cl_keeps = owner_keepsD [OF owner]

lemma closes: "closed_keeps env L"
  using cl_keeps(5) by (simp add: closed_keeps_def)

lemmas sent_keeps = sends_keeps [OF _ closes]

lemma failed:
  assumes "fail env L cat err what s1 = Some s'" "ios env L s s1"
  shows "ios env L s s' \<and> c_dead (fst s') \<and> c_secure (fst s') = c_secure (fst s1)"
  using assms fail_sends [OF assms(1)] fail_dead [OF assms(1) closes] keeps_fields(9) [OF sent_keeps [OF fail_sends [OF assms(1)]]]
  by (auto intro: rtranclp_trans sends_ios)

lemma reject_done:
  assumes "reject env L cat what s1 = Some (go, s')" "ios env L s s1" "c_secure (fst s1) = c_secure (fst s)"
  shows "frame_done env L src n go s s'"
  using assms failed [of cat 0 what s1 s' s] by (auto simp: reject_def frame_done_def)

lemma unless_dead_done:
  assumes "unless_dead r = Some (go, s')" "ios env L s (cx, wx)" "r = Some s' \<Longrightarrow> ios env L (cx, wx) s' \<and> keeps (ev_sys env) cy (fst s')"
    and "c_secure cy = c_secure (fst s)" "src_data src cy = consume n (src_data src (fst s))"
    and "c_state (fst s) = Established \<Longrightarrow> c_state cy = Established"
  shows "frame_done env L src n go s s'"
proof -
  from assms(1) have r: "r = Some s'" and go: "go = (\<not> c_dead (fst s'))" by (auto simp: unless_dead_def)
  then have i: "ios env L (cx, wx) s'" and k: "keeps (ev_sys env) cy (fst s')" using assms(3) by auto
  have "ios env L s s'" using assms(2) i by (rule rtranclp_trans)
  then show ?thesis
    using assms(4-) keeps_state [OF k] keeps_src [OF k, of src] keeps_fields(9) [OF k] go
    by (auto simp: frame_done_def)
qed

lemma begin_auth_done:
  assumes "begin_auth env L h (cx, w) = Some (go, s')" "ios env L s (cx, w)" "c_state cx = Handshaking" "c_secure cx" "compatible env h cx" "c_peerId cx = h_nodeId h"
    and "c_secure (fst s)" "src_data src cx = consume n (src_data src (fst s))" "c_state (fst s) \<noteq> Established"
  shows "frame_done env L src n go s s'"
proof (cases "(li_hasIdentity (ev_self env) \<and> requireIdentity (ev_cfg env) \<and> \<not> h_hasIdentity h) \<or>
    do_handshake (ev_crypto env) (c_ephKeys cx) (h_ephPubKey h) (li_groupKey (ev_self env)) (li_groupName (ev_self env)) = None")
  case True
  then show ?thesis using assms by (auto simp: begin_auth_def split: if_splits elim!: reject_done)
next
  case False
  then obtain hr where hr: "do_handshake (ev_crypto env) (c_ephKeys cx) (h_ephPubKey h) (li_groupKey (ev_self env)) (li_groupName (ev_self env)) = Some hr"
    by blast
  let ?c = "install_session env h hr cx"
  have "io_step env L (cx, w) (?c, w)" using assms False hr by (intro Session) auto
  moreover have "unless_dead (send_auth_confirm env L (?c, w)) = Some (go, s')"
    using assms(1) False hr by (auto simp: begin_auth_def)
  moreover have "send_auth_confirm env L (?c, w) = Some s' \<Longrightarrow> sends env L (?c, w) s'"
    by (simp add: send_auth_confirm_def push_out_sends)
  moreover have "c_secure ?c" using assms(4) by (simp add: install_session_def Let_def)
  ultimately show ?thesis
    using assms(7-) sent_keeps [of "(?c, w)" s'] unless_dead_done [of "send_auth_confirm env L (?c, w)" go s' s ?c w ?c src n]
      assms(2,8) sends_ios [of env L "(?c, w)" s'] rtranclp.rtrancl_into_rtrancl [of "io_step env L" s "(cx, w)" "(?c, w)"]
    by auto
qed

lemma handle_hello_done:
  assumes "handle_hello env L f n src (c, w) = Some (go, s')" "ios env L s (c, w)" "\<not> c_dead c" "pending env src c f n"
    and "f_type f \<in> {Hello, HelloAck}" "c_secure c = c_secure (fst s)" "c_state c = c_state (fst s)" "src_data src c = src_data src (fst s)"
  shows "frame_done env L src n go s s'"
proof (cases "c_state c = Handshaking")
  case False
  have "io_step env L (c, w) (src_consume src n c, w)" using pending_le [OF assms(4)] by (intro Receive inbound_consume)
  then show ?thesis
    using assms False rtranclp.rtrancl_into_rtrancl [of "io_step env L" s "(c, w)"] by (auto simp: handle_hello_def frame_done_def)
next
  case st: True
  let ?h = "f_hello f"
  let ?c1 = "src_consume src n (note_hello ?h c)"
  show ?thesis
  proof (cases "compatible env ?h c")
    case False
    then have "\<exists>what. reject env L Protocol what (c, w) = Some (go, s')"
      using assms(1) st by (auto simp: handle_hello_def compatible_def Let_def split: if_splits)
    then show ?thesis using reject_done assms(2,6) by fastforce
  next
    case ok: True
    have c1: "c_state ?c1 = Handshaking" "c_secure ?c1 = c_secure c" "compatible env ?h ?c1" "c_peerId ?c1 = h_nodeId ?h"
      using st ok by (simp_all add: note_hello_def compatible_def)
    have "io_step env L (c, w) (note_hello ?h c, w)" using st ok assms(4,5) by (intro Note)
    moreover have "io_step env L (note_hello ?h c, w) (?c1, w)" using pending_le [OF assms(4)] by (intro Receive inbound_consume) simp
    ultimately have i: "ios env L s (?c1, w)" using assms(2) by (auto intro: rtranclp.rtrancl_into_rtrancl)
    let ?e = "?c1\<lparr>c_state := Established\<rparr>"
    show ?thesis
    proof (cases "c_secure c")
      case True
      then have "begin_auth env L ?h (?c1, w) = Some (go, s')"
        using assms(1) st ok by (simp add: handle_hello_def compatible_def Let_def note_hello_def split: if_splits)
      then show ?thesis using begin_auth_done [OF _ i] c1 True assms(6-) st by simp
    next
      case False
      then have "unless_dead (cl_handshake L ?h (?e, w)) = Some (go, s')"
        using assms(1) st ok by (simp add: handle_hello_def compatible_def Let_def note_hello_def split: if_splits)
      then show ?thesis
        by (rule unless_dead_done [OF _ i, where cy = ?e]) (use c1 False assms(6-) cl_keeps(1) [of ?h "(?e, w)" s'] in \<open>auto intro!: one_io Open\<close>)
    qed
  qed
qed

lemma auth_error_consume [simp]: "auth_error e f (src_consume src n c) = auth_error e f c"
  by (simp add: auth_error_def Let_def)

lemma handle_auth_confirm_done:
  assumes "handle_auth_confirm env L f n src (c, w) = Some (go, s')" "ios env L s (c, w)" "pending env src c f n" "f_type f = AuthConfirm"
    and "c_secure c = c_secure (fst s)" "c_state c = c_state (fst s)" "src_data src c = src_data src (fst s)"
  shows "frame_done env L src n go s s'"
proof (cases "c_secure c \<and> c_state c = AwaitingConfirm")
  case False
  then show ?thesis using assms by (auto simp: handle_auth_confirm_def elim!: reject_done)
next
  case st: True
  let ?c1 = "src_consume src n c"
  let ?e = "?c1\<lparr>c_state := Established\<rparr>"
  have "io_step env L (c, w) (?c1, w)" using pending_le [OF assms(3)] by (intro Receive inbound_consume)
  then have i: "ios env L s (?c1, w)" using assms(2) by (rule rtranclp.rtrancl_into_rtrancl [rotated])
  show ?thesis
  proof (cases "auth_error env f c")
    case None
    then have "unless_dead (cl_handshake L (c_peerHello c) (?e, w)) = Some (go, s')"
      using assms(1) st by (simp add: handle_auth_confirm_def Let_def)
    then show ?thesis
      by (rule unless_dead_done [OF _ assms(2), where cy = ?e])
         (use st None assms(3-) cl_keeps(1) [of "c_peerHello c" "(?e, w)" s'] in \<open>auto intro!: one_io Confirmed\<close>)
  next
    case (Some e)
    then show ?thesis using assms(1,5) st i by (cases e) (auto simp: handle_auth_confirm_def Let_def elim!: reject_done)
  qed
qed

lemma dispatch_done:
  assumes "dispatch env L f n src s = Some (go, s')" "\<not> c_dead (fst s)" "pending env src (fst s) f n"
  shows "frame_done env L src n go s s'"
proof -
  obtain c0 w0 where s: "s = (c0, w0)" by fastforce
  obtain now w where now: "sys_now (ev_sys env) w0 = (now, w)" by fastforce
  let ?c = "c0\<lparr>c_lastRecv := now\<rparr>"
  let ?c1 = "src_consume src n ?c"
  have i: "ios env L s (?c, w)" unfolding s
    by (rule sys_ios [where w' = w], use now in blast, rule receive_ios [where c' = ?c]) simp_all
  note n = pending_le [OF assms(3)]
  have p: "pending env src ?c f n" using assms(3) s by simp
  have "io_step env L (?c, w) (?c1, w)" using n s by (intro Receive inbound_consume) simp
  then have i1: "ios env L s (?c1, w)" using i by (rule rtranclp.rtrancl_into_rtrancl [rotated])
  have rej: "frame_done env L src n go s s'" if "reject env L cat what (cx, w) = Some (go, s')" "cx \<in> {?c, ?c1}" for cat what cx
    using that(1) by (rule reject_done) (use that(2) i i1 s in auto)
  show ?thesis
  proof (cases "f_type f = Data \<or> f_type f = Membership \<or> f_type f = IdentityRecord")
    case False
    have beat: "frame_done env L src n True s (?c1, w)" using i1 s assms(2) by (simp add: frame_done_def)
    have hello: "frame_done env L src n go s s'"
      if "handle_hello env L f n src (?c, w) = Some (go, s')" "f_type f = Hello \<or> f_type f = HelloAck"
      using that(1) i by (rule handle_hello_done) (use assms(2) p that(2) s in auto)
    have auth: "frame_done env L src n go s s'"
      if "handle_auth_confirm env L f n src (?c, w) = Some (go, s')" "f_type f = AuthConfirm"
      using that(1) i by (rule handle_auth_confirm_done) (use p that(2) s in simp_all)
    show ?thesis
      using False assms(1) now s beat hello auth rej by (cases "f_type f") (simp_all add: dispatch_def Let_def)
  next
    case app: True
    show ?thesis
    proof (cases "c_state ?c = Established")
      case False
      then show ?thesis using assms(1) s now app rej by (auto simp: dispatch_def Let_def)
    next
      case est: True
      consider s1 where "f_type f = Data" "cl_data L (f_data f) (?c, w) = Some s1"
          "(go, s') = (if c_dead (fst s1) then (False, s1) else (True, src_consume src n (fst s1), snd s1))"
        | "f_type f = Membership" "unless_dead (cl_membership L (f_membership f) (?c1, w)) = Some (go, s')"
        | "f_type f = IdentityRecord" "unless_dead (cl_identity L (f_identity f) (?c1, w)) = Some (go, s')"
        using assms(1) s now app est by (auto simp: dispatch_def Let_def bind_eq_Some_conv)
      then show ?thesis
      proof cases
        case (1 s1)
        have k: "keeps (ev_sys env) ?c (fst s1)" using cl_keeps(2) [OF 1(2)] by simp
        have is1: "ios env L s s1" using i est p 1(1,2) by (blast intro: rtranclp.rtrancl_into_rtrancl Message)
        have "n \<le> buf_size (src_data src (fst s1))" using n s keeps_src [OF k, of src] by simp
        then have "io_step env L s1 (src_consume src n (fst s1), snd s1)"
          using Receive [of env "fst s1" _ L "snd s1"] inbound_consume [of n src "fst s1" "ev_sys env"] by simp
        then show ?thesis
          using 1(3) is1 k keeps_src [OF k, of src] keeps_fields(9) [OF k] keeps_state [OF k] est s
          by (auto simp: frame_done_def split: if_splits intro: rtranclp.rtrancl_into_rtrancl)
      next
        case 2
        from 2(2) show ?thesis
          by (rule unless_dead_done [OF _ i, where cy = ?c1])
             (use 2(1) est p s cl_keeps(3) [of "f_membership f" "(?c1, w)" s'] in \<open>auto intro!: one_io Member\<close>)
      next
        case 3
        from 3(2) show ?thesis
          by (rule unless_dead_done [OF _ i, where cy = ?c1])
             (use 3(1) est p s cl_keeps(4) [of "f_identity f" "(?c1, w)" s'] in \<open>auto intro!: one_io Name\<close>)
      qed
    qed
  qed
qed

section \<open>Handling an event is a sequence of steps\<close>

lemma parse_plaintext_steps:
  assumes "parse_plaintext env L s = Some (go, s')" "\<not> c_dead (fst s)"
  shows "ios env L s s' \<and> (go \<longleftrightarrow> \<not> c_dead (fst s'))"
proof -
  let ?P = "\<lambda>e l s r. e = env \<longrightarrow> l = L \<longrightarrow> \<not> c_dead (fst s) \<longrightarrow> ios env L s (snd r) \<and> (fst r \<longleftrightarrow> \<not> c_dead (fst (snd r)))"
  have "?P env L s (go, s')"
  proof (rule parse_plaintext.raw_induct [where P = ?P, OF _ assms(1)], intro impI, goal_cases)
    case (1 parse e l s r)
    note IH = "1"(1) [of env L, simplified] and body = "1"(2) [unfolded "1"(3,4)] and alive = "1"(5)
    obtain g s' where r: "r = (g, s')" by (cases r)
    show ?case
    proof (cases "try_decode_frame (buf_data (c_in (fst s))) (maxMessageBytes (ev_cfg env)) parsed_frame_init")
      case NeedMore
      then show ?thesis using body alive by auto
    next
      case Error
      then have "reject env L Protocol ''malformed/oversized frame'' s = Some (g, s')" using body r by simp
      from reject_done [OF this, of s In 0] show ?thesis using r by (simp add: frame_done_def)
    next
      case (Ok f n)
      then obtain go1 s1 where d: "dispatch env L f n In s = Some (go1, s1)" using body by (auto simp: bind_eq_Some_conv)
      have "pending env In (fst s) f n" using Ok by (simp add: pending_def)
      then have fd: "frame_done env L In n go1 s s1" using dispatch_done [OF d alive] by simp
      then show ?thesis
        using body Ok d IH [of s1] by (auto simp: frame_done_def split: if_splits intro: rtranclp_trans)
    qed
  qed
  then show ?thesis using assms(2) by simp
qed

lemma parse_secure_steps:
  assumes "parse_secure env L s = Some s'" "\<not> c_dead (fst s)"
  shows "ios env L s s'"
proof -
  let ?P = "\<lambda>e l s s'. e = env \<longrightarrow> l = L \<longrightarrow> \<not> c_dead (fst s) \<longrightarrow> ios env L s s'"
  have "?P env L s s'"
  proof (rule parse_secure.raw_induct [where P = ?P, OF _ assms(1)], intro impI, goal_cases)
    case (1 parse e l s s')
    note IH = "1"(1) [of env L, simplified] and body = "1"(2) [unfolded "1"(3,4)] and alive = "1"(5)
    show ?case
    proof (cases "try_decode_frame (buf_data (c_plain (fst s))) (maxMessageBytes (ev_cfg env)) parsed_frame_init")
      case NeedMore
      then show ?thesis using body by auto
    next
      case Error
      then show ?thesis using body by (auto dest: fail_sends intro: sends_ios)
    next
      case (Ok f n)
      then obtain go1 s1 where d: "dispatch env L f n Plain s = Some (go1, s1)" using body by (auto simp: bind_eq_Some_conv)
      have "pending env Plain (fst s) f n" using Ok by (simp add: pending_def)
      then have fd: "frame_done env L Plain n go1 s s1" using dispatch_done [OF d alive] by simp
      then show ?thesis
        using body Ok d IH [of s1] by (auto simp: frame_done_def split: if_splits intro: rtranclp_trans)
    qed
  qed
  then show ?thesis using assms(2) by simp
qed

text \<open>One step of \<open>drain_records\<close>: the record is moved from \<open>in_\<close> to \<open>plain_\<close>.\<close>

lemma unat_record_le: "unat (4 + clen :: u32) \<le> 4 + unat clen"
  by (simp add: unat_word_ariths mod_less_eq_dividend)

lemma inbound_drain:
  assumes "4 + unat clen \<le> buf_size (c_in c)" "c_sess c = Some ss" "open_record cr x ss = (r, ss')"
  shows "inbound sys c (c\<lparr>c_sess := Some ss', c_plain := buf_append pt (c_plain c), c_in := consume (unat (4 + clen :: u32)) (c_in c)\<rparr>)"
proof -
  have "ss'\<lparr>rxCtr := 0\<rparr> = ss\<lparr>rxCtr := 0\<rparr>" using assms(3) by (auto simp: open_record_def Let_def split: option.splits if_splits)
  moreover have "unat (4 + clen) \<le> buf_size (c_in c)" using assms(1) unat_record_le [of clen] by simp
  ultimately show ?thesis using assms(2) by (simp add: inbound_def wf_conn_def)
qed

lemma drain_records_steps:
  assumes "drain_records env L s = Some (go, s')" "\<not> c_dead (fst s)"
  shows "ios env L s s' \<and> (go \<longleftrightarrow> \<not> c_dead (fst s'))"
proof -
  let ?P = "\<lambda>e l s r. e = env \<longrightarrow> l = L \<longrightarrow> \<not> c_dead (fst s) \<longrightarrow> ios env L s (snd r) \<and> (fst r \<longleftrightarrow> \<not> c_dead (fst (snd r)))"
  have "?P env L s (go, s')"
  proof (rule drain_records.raw_induct [where P = ?P, OF _ assms(1)], intro impI, goal_cases)
    case (1 drain e l s r)
    note IH = "1"(1) [of env L, simplified] and body = "1"(2) [unfolded "1"(3,4)] and alive = "1"(5)
    obtain c w where s: "s = (c, w)" by fastforce
    have rej: "ios env L s (snd r) \<and> (fst r \<longleftrightarrow> \<not> c_dead (fst (snd r)))" if "reject env L cat what (c, w) = Some r" for cat what
      using reject_done [of cat what "(c, w)" "fst r" "snd r" s In 0] that s by (simp add: frame_done_def)
    let ?clen = "peek_len (buf_data (c_in c))"
    show ?case
    proof (cases "buf_size (c_in c) < 4 \<or> ?clen < 16 \<or> unat ?clen > maxMessageBytes (ev_cfg env) + 64 \<or> buf_size (c_in c) < 4 + unat ?clen")
      case True
      then show ?thesis using body s alive rej by (auto simp: Let_def split: if_splits)
    next
      case False
      then obtain ss where ss: "c_sess c = Some ss" using body s by (auto simp: Let_def bind_eq_Some_conv)
      obtain o1 ss' where o: "open_record (ev_crypto env) (take (unat ?clen) (drop 4 (buf_data (c_in c)))) ss = (o1, ss')" by fastforce
      show ?thesis
      proof (cases o1)
        case None
        then show ?thesis using body s False ss o rej "1"(3,4) by (simp add: Let_def)
      next
        case (Some pt)
        let ?c = "c\<lparr>c_sess := Some ss', c_plain := buf_append pt (c_plain c), c_in := consume (unat (4 + ?clen)) (c_in c)\<rparr>"
        have "inbound (ev_sys env) c ?c" using False by (intro inbound_drain [OF _ ss o]) simp
        then have "ios env L (c, w) (?c, w)" by (blast intro: one_io Receive)
        then show ?thesis
          using body s False ss o Some IH [of "(?c, w)" r] alive "1"(3,4) by (auto simp: Let_def intro: rtranclp_trans)
      qed
    qed
  qed
  then show ?thesis using assms(2) by simp
qed

lemma parse_inbound_steps:
  assumes "parse_inbound env L s = Some s'" "\<not> c_dead (fst s)"
  shows "ios env L s s'"
  using assms
  by (auto simp: parse_inbound_def bind_eq_Some_conv split: if_splits
      dest!: parse_plaintext_steps drain_records_steps parse_secure_steps intro: rtranclp_trans)

lemma inbound_recv:
  assumes "reserve_tail 65536 (c_in c) = (tail, b)" "sys_recv sys fd 65536 w = (Inr bs, w1)"
  shows "inbound sys c (c\<lparr>c_in := uncommit (65536 - length bs) (fill_tail tail bs b)\<rparr>)"
  using assms reserve_uncommit(1) [OF assms(1), of bs] by (force simp: inbound_def wf_conn_def recv_bounded_def)

lemma read_loop_steps:
  assumes "read_loop env L s = Some (go, s')" "\<not> c_dead (fst s)"
  shows "ios env L s s' \<and> (go \<longleftrightarrow> \<not> c_dead (fst s'))"
proof -
  let ?P = "\<lambda>e l s r. e = env \<longrightarrow> l = L \<longrightarrow> \<not> c_dead (fst s) \<longrightarrow> ios env L s (snd r) \<and> (fst r \<longleftrightarrow> \<not> c_dead (fst (snd r)))"
  have "?P env L s (go, s')"
  proof (rule read_loop.raw_induct [where P = ?P, OF _ assms(1)], intro impI, goal_cases)
    case (1 rd e l s r)
    note IH = "1"(1) [of env L, simplified] and body = "1"(2) [unfolded "1"(3,4)] and alive = "1"(5)
    obtain c w where s: "s = (c, w)" by fastforce
    obtain tail b where t: "reserve_tail 65536 (c_in c) = (tail, b)" by fastforce
    obtain x w1 where x: "sys_recv (ev_sys env) (c_fd c) 65536 w = (x, w1)" by fastforce
    have un: "uncommit 65536 b = c_in c" using reserve_uncommit(2) [OF t, of "[]"] by simp
    have sys: "ios env L s (snd r) \<and> Q" if "ios env L (c, w1) (snd r) \<and> Q" for Q
      using that s x by (blast intro: sys_ios)
    have rej: "ios env L (c, w1) (snd r) \<and> (fst r \<longleftrightarrow> \<not> c_dead (fst (snd r)))"
      if "map_option (Pair False) (fail env L cat er what (c, w1)) = Some r" for cat er what
      using that failed [of cat er what "(c, w1)"] by fastforce
    show ?case
    proof (rule sys, cases x)
      case (Inl er)
      then show "ios env L (c, w1) (snd r) \<and> (fst r \<longleftrightarrow> \<not> c_dead (fst (snd r)))"
        using body s t x un alive rej IH [of "(c, w1)" r] "1"(3,4) by (auto simp: Let_def split: if_splits)
    next
      case (Inr bs)
      let ?c = "c\<lparr>c_in := uncommit (65536 - length bs) (fill_tail tail bs b)\<rparr>"
      have "inbound (ev_sys env) c ?c" using inbound_recv [OF t] x Inr by simp
      then show "ios env L (c, w1) (snd r) \<and> (fst r \<longleftrightarrow> \<not> c_dead (fst (snd r)))"
        using body s t x un Inr alive rej IH [of "(?c, w1)" r] "1"(3,4)
        by (cases "bs = []") (auto simp: reject_def intro: receive_ios)
    qed
  qed
  then show ?thesis using assms(2) by simp
qed

lemma do_read_steps: "do_read env L s = Some s' \<Longrightarrow> \<not> c_dead (fst s) \<Longrightarrow> ios env L s s'"
  by (auto simp: do_read_def bind_eq_Some_conv split: if_splits dest!: read_loop_steps parse_inbound_steps intro: rtranclp_trans)

lemma send_hello_steps:
  assumes "send_hello env L (c, w) = Some s'" "c_state c = Handshaking"
  shows "ios env L (c, w) s'"
proof -
  obtain ek w1 where g: "(if c_secure c then gen_ephemeral (ev_crypto env) w else (c_ephKeys c, w)) = (ek, w1)" by fastforce
  have "ios env L (c, w) (c, w1)" using g by (auto split: if_splits intro: sys_ios)
  moreover have "io_step env L (c, w1) (c\<lparr>c_ephKeys := ek\<rparr>, w1)" using assms(2) by (rule Keys)
  moreover have "sends env L (c\<lparr>c_ephKeys := ek\<rparr>, w1) s'"
    using assms(1) g by (auto simp: send_hello_def Let_def dest: push_out_sends)
  ultimately show ?thesis by (meson sends_ios rtranclp_trans then_ios)
qed

lemma on_connect_complete_steps:
  assumes "on_connect_complete env L (c, w) = Some s'" "c_state c = ConnectingOut"
  shows "ios env L (c, w) s'"
proof -
  obtain ok err w1 where e: "sys_so_error (ev_sys env) (c_fd c) w = (ok, err, w1)" by (metis prod_cases3)
  obtain d w2 where m: "(if c_registered c then loop_mod (ev_sys env) (c_fd c) EPOLLIN (c_ptr c) w1 else (False, w1)) = (d, w2)"
    by fastforce
  let ?h = "c\<lparr>c_state := Handshaking\<rparr>"
  let ?d = "if d then ?h\<lparr>c_wantWrite := False\<rparr> else ?h"
  have w1: "ios env L (c, w) (c, w1)" using e by (blast intro: sys_ios)
  have "io_step env L (c, w1) (?h, w1)" using assms(2) by (rule Connected)
  moreover have "ios env L (?h, w1) (?h, w2)" using m by (auto simp: loop_mod_def split: if_splits intro: sys_ios)
  moreover have "outbound (ev_sys env) ?h ?d" by (simp add: outbound_def keeps_def core_def)
  then have "io_step env L (?h, w2) (?d, w2)" by (blast intro: Send Outbound)
  ultimately have "ios env L (c, w) (?d, w2)" using w1 by (meson rtranclp_trans then_ios rtranclp.rtrancl_into_rtrancl)
  moreover have "ios env L (c, w1) s' \<or> ios env L (?d, w2) s'"
    using assms(1) e m send_hello_steps [of ?d w2 s']
    by (auto simp: on_connect_complete_def Let_def split: if_splits dest!: fail_sends intro: sends_ios)
  ultimately show ?thesis using w1 by (meson rtranclp_trans)
qed

lemma on_io_events_steps:
  assumes "on_io_events env L events s = Some s'"
  shows "ios env L s s'"
proof (cases "c_dead (fst s) \<or> events AND (EPOLLHUP OR EPOLLERR) \<noteq> 0")
  case True
  then show ?thesis using assms by (auto simp: on_io_events_def split: if_splits dest: fail_sends intro: sends_ios)
next
  case False
  then obtain s1 where
    s1: "(if c_state (fst s) = ConnectingOut \<and> events AND EPOLLOUT \<noteq> 0 then on_connect_complete env L s else Some s) = Some s1" and
    r1: "(if c_dead (fst s1) then Some s1
       else do {
         s2 \<leftarrow> (if events AND EPOLLOUT \<noteq> 0 then flush_outbound env L s1 else Some s1);
         (if c_dead (fst s2) then Some s2
          else if events AND (EPOLLIN OR EPOLLRDHUP) \<noteq> 0 then do_read env L s2 else Some s2) }) = Some s'"
    using assms unfolding on_io_events_def by (simp only: if_False bind_eq_Some_conv de_Morgan_disj) blast
  have i1: "ios env L s s1" using s1 on_connect_complete_steps [of "fst s" "snd s" s1] by (simp split: if_splits)
  show ?thesis
  proof (cases "c_dead (fst s1)")
    case True
    then show ?thesis using r1 i1 by simp
  next
    case alive: False
    then obtain s2 where s2: "(if events AND EPOLLOUT \<noteq> 0 then flush_outbound env L s1 else Some s1) = Some s2"
        "(if c_dead (fst s2) then Some s2 else if events AND (EPOLLIN OR EPOLLRDHUP) \<noteq> 0 then do_read env L s2 else Some s2) = Some s'"
      using r1 by (simp only: if_False bind_eq_Some_conv) blast
    have "ios env L s1 s2" using s2(1) by (simp add: sends_ios flush_outbound_sends split: if_splits)
    moreover have "ios env L s2 s'" using s2(2) do_read_steps [of s2 s'] by (simp split: if_splits)
    ultimately show ?thesis using i1 by (meson rtranclp_trans)
  qed
qed

text \<open>The constructor of an accepted connection, and \<open>start_connect\<close>, which only sends.\<close>

lemma accept_conn_steps:
  assumes "accept_conn env L ptr fd addr nonce w = Some s'"
  shows "\<exists>now w1 reg. ios env L ((conn_init ptr fd addr True Handshaking nonce (li_secure (ev_self env)) now)\<lparr>c_registered := reg\<rparr>, w1) s' \<and>
    (sys_moves env)\<^sup>*\<^sup>* w w1"
proof -
  obtain now w1 where n: "sys_now (ev_sys env) w = (now, w1)" by fastforce
  obtain ok w2 where a: "loop_add (ev_sys env) fd EPOLLIN ptr w1 = (ok, w2)" by fastforce
  let ?c = "conn_init ptr fd addr True Handshaking nonce (li_secure (ev_self env)) now"
  have "send_hello env L (?c\<lparr>c_registered := ok\<rparr>, w2) = Some s'"
    using assms n a by (cases ok) (simp_all add: accept_conn_def Let_def conn_init_def)
  then have "ios env L (?c\<lparr>c_registered := ok\<rparr>, w2) s'" by (rule send_hello_steps) (simp add: conn_init_def)
  moreover have "sys_moves env w w1" "sys_moves env w1 w2" using n a by (auto simp: loop_add_def)
  then have "(sys_moves env)\<^sup>*\<^sup>* w w2" by auto
  ultimately show ?thesis by blast
qed

end

section \<open>The life of a connection\<close>

text \<open>
  The states a connection can be in: created by an accept or a dial, then any sequence of
  connects, events, sends, heartbeats and closes, between which everything else moves on.
\<close>

inductive conn_run :: "'w env \<Rightarrow> 'w listener_ops \<Rightarrow> conn \<times> 'w \<Rightarrow> bool" for env L where
  Accepted: "accept_conn env L ptr fd addr nonce w = Some s \<Longrightarrow> conn_run env L s"
| Dialled: "conn_run env L (dial_conn env ptr target nonce w)"
| Connect: "conn_run env L s \<Longrightarrow> start_connect env L s = Some (ok, s') \<Longrightarrow> conn_run env L s'"
| Event: "conn_run env L s \<Longrightarrow> on_io_events env L ev s = Some s' \<Longrightarrow> conn_run env L s'"
| Send_raw: "conn_run env L s \<Longrightarrow> send_raw env L frame s = Some s' \<Longrightarrow> conn_run env L s'"
| Beat: "conn_run env L s \<Longrightarrow> maybe_heartbeat env L now i s = Some s' \<Longrightarrow> conn_run env L s'"
| Bye: "conn_run env L s \<Longrightarrow> close_gracefully env L s = Some s' \<Longrightarrow> conn_run env L s'"
| Elsewhere: "conn_run env L (c, w) \<Longrightarrow> conn_run env L (c, w')"

text \<open>A predicate of connections that every step keeps holds throughout.\<close>

definition step_invariant :: "'w env \<Rightarrow> 'w listener_ops \<Rightarrow> (conn \<Rightarrow> bool) \<Rightarrow> bool" where
  "step_invariant env L I \<longleftrightarrow>
     (\<forall>ptr fd addr inb st nonce now reg. st = ConnectingOut \<or> st = Handshaking \<longrightarrow>
        I ((conn_init ptr fd addr inb st nonce (li_secure (ev_self env)) now)\<lparr>c_registered := reg\<rparr>)) \<and>
     (\<forall>c fd reg ww. I c \<longrightarrow> I (c\<lparr>c_fd := fd, c_registered := reg, c_wantWrite := ww\<rparr>)) \<and>
     (\<forall>s s'. io_step env L s s' \<longrightarrow> I (fst s) \<longrightarrow> I (fst s'))"

lemma step_invariantD:
  assumes "step_invariant env L I"
  shows "st = ConnectingOut \<or> st = Handshaking \<Longrightarrow>
      I ((conn_init ptr fd addr inb st nonce (li_secure (ev_self env)) now)\<lparr>c_registered := reg\<rparr>)"
    "I c \<Longrightarrow> I (c\<lparr>c_fd := fd, c_registered := reg, c_wantWrite := ww\<rparr>)"
    "io_step env L s s' \<Longrightarrow> I (fst s) \<Longrightarrow> I (fst s')"
  using assms unfolding step_invariant_def by blast+

lemma step_invariant_ios:
  assumes "step_invariant env L I" "ios env L s s'" "I (fst s)"
  shows "I (fst s')"
  using assms(2) by induction (auto intro: step_invariantD(3) [OF assms(1)] assms(3))

lemma start_connect_fst:
  assumes "start_connect env L (c, w) = Some (ok, s')"
  shows "\<exists>fd reg ww wx. sends env L (c\<lparr>c_fd := fd, c_registered := reg, c_wantWrite := ww\<rparr>, wx) s' \<and> (sys_moves env)\<^sup>*\<^sup>* w wx"
proof -
  obtain r w1 where so: "sys_socket_tcp (ev_sys env) w = (r, w1)" by fastforce
  then have m1: "(sys_moves env)\<^sup>*\<^sup>* w w1" by auto
  show ?thesis
  proof (cases r)
    case (Inl e)
    then have "sends env L (c\<lparr>c_fd := c_fd c, c_registered := c_registered c, c_wantWrite := c_wantWrite c\<rparr>, w1) s'"
      using assms so by (auto simp: start_connect_def dest: fail_sends)
    then show ?thesis using m1 by blast
  next
    case (Inr fd)
    let ?c = "c\<lparr>c_fd := fd, c_registered := c_registered c, c_wantWrite := c_wantWrite c\<rparr>"
    obtain rc w2 where co: "sys_connect (ev_sys env) fd (c_peerAddr c) w1 = (rc, w2)" by fastforce
    then have m2: "(sys_moves env)\<^sup>*\<^sup>* w w2" using m1 by (auto intro: rtranclp.rtrancl_into_rtrancl)
    obtain ok2 w3 where ad: "loop_add (ev_sys env) fd EPOLLOUT (c_ptr c) w2 = (ok2, w3)" by fastforce
    then have m3: "(sys_moves env)\<^sup>*\<^sup>* w w3" using m2 by (auto simp: loop_add_def intro: rtranclp.rtrancl_into_rtrancl)
    have "sends env L (?c, w2) s' \<or> sends env L (?c, w3) s' \<or> s' = (c\<lparr>c_fd := fd, c_registered := True, c_wantWrite := True\<rparr>, w3)"
      using assms so co ad Inr
      by (auto simp: start_connect_def Let_def split: if_splits option.splits dest!: fail_sends)
    then show ?thesis using m2 m3 by (metis rtranclp.rtrancl_refl)
  qed
qed

context owner
begin

lemma conn_run_invariant:
  assumes "conn_run env L s" "step_invariant env L I"
  shows "I (fst s)"
  using assms(1)
proof induction
  case (Accepted ptr fd addr nonce w s)
  from accept_conn_steps [OF this] obtain now w1 reg where
    "ios env L ((conn_init ptr fd addr True Handshaking nonce (li_secure (ev_self env)) now)\<lparr>c_registered := reg\<rparr>, w1) s" by blast
  from step_invariant_ios [OF assms(2) this] show ?case by (simp add: step_invariantD(1) [OF assms(2)])
next
  case (Dialled ptr target nonce w)
  have "\<exists>now reg w1. dial_conn env ptr target nonce w =
      ((conn_init ptr (-1) target False ConnectingOut nonce (li_secure (ev_self env)) now)\<lparr>c_registered := reg\<rparr>, w1)"
    by (auto simp: dial_conn_def conn_init_def split: prod.split)
  then show ?case using step_invariantD(1) [OF assms(2), of ConnectingOut] by fastforce
next
  case (Connect s ok s')
  from start_connect_fst [of env L "fst s" "snd s" ok s'] Connect obtain fd reg ww wx where
    "sends env L ((fst s)\<lparr>c_fd := fd, c_registered := reg, c_wantWrite := ww\<rparr>, wx) s'" by auto
  from step_invariant_ios [OF assms(2) sends_ios [OF this]] show ?case
    using Connect(3) by (simp add: step_invariantD(2) [OF assms(2)])
qed (auto intro: step_invariant_ios [OF assms(2)] sends_ios dest: on_io_events_steps send_raw_sends maybe_heartbeat_sends close_gracefully_sends)

end

end
