(* ===== verification/ConnectionSafety.thy ===== *)
theory ConnectionSafety
  imports ConnectionSteps
begin

text \<open>
  What holds of every connection throughout its life, by induction over the steps of
  \<open>ConnectionSteps\<close>: the connection stays well-formed, and in a secured mesh it is established
  only after the peer proved the group key and, where identities are in use, its identity.
\<close>

section \<open>Well-formedness\<close>

lemma wf_pending: "pending env src c f n \<Longrightarrow> wf_conn c \<Longrightarrow> wf_conn (src_consume src n c)"
  by (simp add: wf_src_consume pending_le)

lemma wf_io_step:
  assumes "io_step env L s s'" "owner_keeps env L" "send_bounded (ev_sys env)" "recv_bounded (ev_sys env)" "wf_conn (fst s)"
  shows "wf_conn (fst s')"
  using assms(1,5)
proof cases
  case Send
  have "closed_keeps env L" using owner_keepsD(5) [OF assms(2)] by (simp add: closed_keeps_def)
  then show ?thesis using send_step_keeps [OF Send] wf_keeps assms(3,5) by blast
next
  case (Receive c c' w)
  then show ?thesis using assms(3-) by (simp add: inbound_def)
next
  case (Connected c w)
  then show ?thesis using assms(5) by (simp add: wf_conn_def)
next
  case (Keys c w ek)
  then show ?thesis using assms(5) by (simp add: wf_conn_def)
next
  case (Note c src f n w)
  then show ?thesis using assms(5) by (simp add: wf_conn_def note_hello_def)
next
  case (Session c h hr w)
  then show ?thesis using assms(5) by (simp add: wf_conn_def install_session_def Let_def)
next
  case (Open c h w)
  then have "wf_conn (c\<lparr>c_state := Established\<rparr>)" using assms(5) by (simp add: wf_conn_def)
  then show ?thesis using wf_keeps [OF owner_keepsD(1) [OF assms(2) Open(6)] assms(3)] by simp
next
  case (Confirmed c src f n w)
  then have "wf_conn (src_consume src n c)" using assms(5) wf_pending by simp
  then have "wf_conn ((src_consume src n c)\<lparr>c_state := Established\<rparr>)" using Confirmed(2,3) by (simp add: wf_conn_def)
  then show ?thesis using wf_keeps [OF owner_keepsD(1) [OF assms(2) Confirmed(7)] assms(3)] by simp
next
  case (Message c src f n w)
  then show ?thesis using wf_keeps [OF owner_keepsD(2) [OF assms(2) Message(5)] assms(3)] assms(5) by simp
next
  case (Member c src f n w)
  then have "wf_conn (src_consume src n c)" using assms(5) wf_pending by simp
  then show ?thesis using wf_keeps [OF owner_keepsD(3) [OF assms(2) Member(5)] assms(3)] by simp
next
  case (Name c src f n w)
  then have "wf_conn (src_consume src n c)" using assms(5) wf_pending by simp
  then show ?thesis using wf_keeps [OF owner_keepsD(4) [OF assms(2) Name(5)] assms(3)] by simp
qed

lemma wf_step_invariant:
  assumes "owner_keeps env L" "send_bounded (ev_sys env)" "recv_bounded (ev_sys env)"
  shows "step_invariant env L wf_conn"
  using wf_io_step [OF _ assms] unfolding step_invariant_def
  by (auto simp: wf_conn_def conn_init_def)

text \<open>
  Every connection, from its creation through any sequence of events, sends, heartbeats and
  closes, is well-formed, for every owner that leaves the inbound side alone and every system
  whose \<open>send\<close> and \<open>recv\<close> respect the given lengths: the buffers are consistent, the dead flag and
  the dead state agree, the confirmation state occurs only on secured connections, and a secured
  connection that awaits confirmation or is established has its session, so \<open>sess_\<close> is never
  dereferenced empty.
\<close>

theorem connection_wf:
  assumes "owner_keeps env L" "send_bounded (ev_sys env)" "recv_bounded (ev_sys env)" "conn_run env L (c, w)"
  shows "wf_conn c"
  using owner.conn_run_invariant [OF owner.intro [OF assms(1)] assms(4) wf_step_invariant [OF assms(1-3)]] by simp

section \<open>Authentication\<close>

text \<open>The session of a connection is the one the handshake with the peer's hello derives.\<close>

definition session_ok :: "'w env \<Rightarrow> conn \<Rightarrow> bool" where
  "session_ok env c \<longleftrightarrow>
     (\<exists>hr. do_handshake (ev_crypto env) (c_ephKeys c) (h_ephPubKey (c_peerHello c)) (li_groupKey (ev_self env)) (li_groupName (ev_self env)) = Some hr \<and>
        c_myConfirmTag c = hr_myConfirmTag hr \<and> c_expectedPeerTag c = hr_expectedPeerTag hr \<and>
        map_option txKey (c_sess c) = Some (txKey (hr_session hr)) \<and> map_option rxKey (c_sess c) = Some (rxKey (hr_session hr))) \<and>
     compatible env (c_peerHello c) c \<and> h_nodeId (c_peerHello c) = c_peerId c \<and>
     (li_hasIdentity (ev_self env) \<and> requireIdentity (ev_cfg env) \<longrightarrow> h_hasIdentity (c_peerHello c)) \<and>
     (c_useIdentity c \<longleftrightarrow> li_hasIdentity (ev_self env) \<and> h_hasIdentity (c_peerHello c))"

text \<open>The fields these predicates read.\<close>

definition auth_data :: "conn \<Rightarrow> bool \<times> ephemeral_keypair \<times> hello \<times> tag32 \<times> tag32 \<times> peer_id \<times> bool \<times> key32 option \<times> key32 option" where
  "auth_data c = (c_secure c, c_ephKeys c, c_peerHello c, c_myConfirmTag c, c_expectedPeerTag c, c_peerId c, c_useIdentity c,
     map_option txKey (c_sess c), map_option rxKey (c_sess c))"

lemma session_ok_cong: "auth_data c = auth_data c' \<Longrightarrow> session_ok env c = session_ok env c'"
  by (auto simp: auth_data_def session_ok_def compatible_def)

lemma auth_error_cong: "auth_data c = auth_data c' \<Longrightarrow> auth_error env f c = auth_error env f c'"
  by (auto simp: auth_data_def auth_error_def Let_def)

lemma auth_data_keeps: "keeps sys c c' \<Longrightarrow> auth_data c' = auth_data c"
  using keeps_fields(5,9,10,11,12,13,15,20,21) [of sys c c'] by (simp add: auth_data_def)

lemma inbound_frame:
  "inbound sys c c' \<Longrightarrow> c\<lparr>c_in := c_in c', c_plain := c_plain c', c_lastRecv := c_lastRecv c', c_sess := c_sess c'\<rparr> = c'"
  by (simp add: inbound_def)

lemma auth_data_inbound:
  assumes "inbound sys c c'"
  shows "auth_data c' = auth_data c"
proof -
  have ss: "map_option (\<lambda>ss. ss\<lparr>rxCtr := 0\<rparr>) (c_sess c') = map_option (\<lambda>ss. ss\<lparr>rxCtr := 0\<rparr>) (c_sess c)"
    using assms by (simp add: inbound_def)
  have "map_option txKey (c_sess c') = map_option txKey (c_sess c)" "map_option rxKey (c_sess c') = map_option rxKey (c_sess c)"
    using arg_cong [OF ss, of "map_option txKey"] arg_cong [OF ss, of "map_option rxKey"] by (simp_all add: option.map_comp comp_def)
  moreover have "auth_data c' = auth_data (c\<lparr>c_in := c_in c', c_plain := c_plain c', c_lastRecv := c_lastRecv c', c_sess := c_sess c'\<rparr>)"
    using inbound_frame [OF assms] by simp
  ultimately show ?thesis by (simp add: auth_data_def)
qed

lemma auth_data_simps [simp]:
  "auth_data (src_consume src n c) = auth_data c" "auth_data (c\<lparr>c_state := st\<rparr>) = auth_data c"
  by (simp_all add: auth_data_def)

text \<open>What is known of a connection in each state of the handshake.\<close>

definition auth_inv :: "'w env \<Rightarrow> conn \<Rightarrow> bool" where
  "auth_inv env c \<longleftrightarrow> (c_state c = AwaitingConfirm \<or> c_secure c \<and> c_state c = Established \<longrightarrow> session_ok env c)"

lemma auth_inv_cong:
  "auth_data c' = auth_data c \<Longrightarrow> c_state c' = c_state c \<or> c_state c' = Dead \<Longrightarrow> auth_inv env c \<Longrightarrow> auth_inv env c'"
  using session_ok_cong [of c' c env] by (auto simp: auth_inv_def auth_data_def)

lemma keeps_state_cases: "keeps sys c c' \<Longrightarrow> c_state c' = c_state c \<or> c_state c' = Dead"
  by (auto simp: keeps_def split: if_splits)

lemma auth_inv_keeps: "keeps sys c c' \<Longrightarrow> auth_inv env c \<Longrightarrow> auth_inv env c'"
  using auth_inv_cong [OF auth_data_keeps keeps_state_cases] by blast

lemma auth_io_step:
  assumes "io_step env L s s'" "owner_keeps env L" "auth_inv env (fst s)"
  shows "auth_inv env (fst s')"
  using assms(1)
proof cases
  case Send
  have "closed_keeps env L" using owner_keepsD(5) [OF assms(2)] by (simp add: closed_keeps_def)
  then show ?thesis using send_step_keeps [OF Send] auth_inv_keeps assms(3) by blast
next
  case (Receive c c' w)
  moreover have "c_state c' = c_state c" using arg_cong [of _ _ c_state, OF inbound_frame [OF Receive(3)]] by simp
  ultimately show ?thesis using auth_inv_cong [OF auth_data_inbound] assms(3) by auto
next
  case (Session c h hr w)
  then show ?thesis by (simp add: auth_inv_def session_ok_def install_session_def Let_def compatible_def)
next
  case (Open c h w)
  then have "auth_inv env (c\<lparr>c_state := Established\<rparr>)" by (simp add: auth_inv_def)
  then show ?thesis using auth_inv_keeps [OF owner_keepsD(1) [OF assms(2) Open(6)]] by simp
next
  case (Confirmed c src f n w)
  have "session_ok env c" using assms(3) Confirmed by (simp add: auth_inv_def)
  then have "auth_inv env ((src_consume src n c)\<lparr>c_state := Established\<rparr>)"
    using session_ok_cong [of "(src_consume src n c)\<lparr>c_state := Established\<rparr>" c env] by (simp add: auth_inv_def)
  then show ?thesis using auth_inv_keeps [OF owner_keepsD(1) [OF assms(2) Confirmed(7)]] by simp
next
  case (Message c src f n w)
  then show ?thesis using auth_inv_keeps [OF owner_keepsD(2) [OF assms(2) Message(5)]] assms(3) by simp
next
  case (Member c src f n w)
  then have "auth_inv env (src_consume src n c)" using auth_inv_cong [of "src_consume src n c" c env] assms(3) by simp
  then show ?thesis using auth_inv_keeps [OF owner_keepsD(3) [OF assms(2) Member(5)]] by simp
next
  case (Name c src f n w)
  then have "auth_inv env (src_consume src n c)" using auth_inv_cong [of "src_consume src n c" c env] assms(3) by simp
  then show ?thesis using auth_inv_keeps [OF owner_keepsD(4) [OF assms(2) Name(5)]] by simp
qed (auto simp: auth_inv_def note_hello_def)

lemma auth_step_invariant: "owner_keeps env L \<Longrightarrow> step_invariant env L (auth_inv env)"
  using auth_io_step [of env L] unfolding step_invariant_def
  by (auto simp: auth_inv_def conn_init_def session_ok_def compatible_def)

text \<open>A step from the established state, and a step into it.\<close>

lemma established_step:
  assumes "io_step env L s s'" "owner_keeps env L" "c_state (fst s) = Established"
  shows "auth_data (fst s') = auth_data (fst s)"
  using assms(1)
proof cases
  case Send
  have "closed_keeps env L" using owner_keepsD(5) [OF assms(2)] by (simp add: closed_keeps_def)
  then show ?thesis using send_step_keeps [OF Send] auth_data_keeps by blast
next
  case (Receive c c' w)
  then show ?thesis using auth_data_inbound by simp
next
  case (Message c src f n w)
  then show ?thesis using auth_data_keeps [OF owner_keepsD(2) [OF assms(2) Message(5)]] by simp
next
  case (Member c src f n w)
  then show ?thesis using auth_data_keeps [OF owner_keepsD(3) [OF assms(2) Member(5)]] by simp
next
  case (Name c src f n w)
  then show ?thesis using auth_data_keeps [OF owner_keepsD(4) [OF assms(2) Name(5)]] by simp
qed (use assms(3) in auto)

lemma establishing_step:
  assumes "io_step env L s s'" "owner_keeps env L" "c_state (fst s) \<noteq> Established" "c_state (fst s') = Established" "c_secure (fst s)"
  shows "\<exists>src f n. pending env src (fst s) f n \<and> f_type f = AuthConfirm \<and> c_state (fst s) = AwaitingConfirm \<and>
    auth_error env f (fst s) = None \<and> auth_data (fst s') = auth_data (fst s)"
  using assms(1)
proof cases
  case Send
  have "closed_keeps env L" using owner_keepsD(5) [OF assms(2)] by (simp add: closed_keeps_def)
  from keeps_state_cases [OF send_step_keeps [OF Send this]] show ?thesis using assms(3,4) by auto
next
  case (Receive c c' w)
  then have "c_state c' = c_state c" using arg_cong [of _ _ c_state, OF inbound_frame [OF Receive(3)]] by simp
  then show ?thesis using assms(3,4) Receive by simp
next
  case (Confirmed c src f n w)
  then have "auth_data (fst s') = auth_data c" using auth_data_keeps [OF owner_keepsD(1) [OF assms(2) Confirmed(7)]] by simp
  then show ?thesis using Confirmed by auto
qed (use assms(3-) in \<open>auto simp: note_hello_def install_session_def Let_def\<close>)

lemma secure_step:
  assumes "io_step env L s s'" "owner_keeps env L"
  shows "c_secure (fst s') = c_secure (fst s)"
  using assms(1)
proof cases
  case Send
  have "closed_keeps env L" using owner_keepsD(5) [OF assms(2)] by (simp add: closed_keeps_def)
  then show ?thesis using send_step_keeps [OF Send] keeps_fields(9) by blast
next
  case (Receive c c' w)
  then show ?thesis using auth_data_inbound [of "ev_sys env" c c'] by (simp add: auth_data_def)
next
  case (Open c h w)
  then show ?thesis using keeps_fields(9) [OF owner_keepsD(1) [OF assms(2) Open(6)]] by simp
next
  case (Confirmed c src f n w)
  then show ?thesis using keeps_fields(9) [OF owner_keepsD(1) [OF assms(2) Confirmed(7)]] by simp
next
  case (Message c src f n w)
  then show ?thesis using keeps_fields(9) [OF owner_keepsD(2) [OF assms(2) Message(5)]] by simp
next
  case (Member c src f n w)
  then show ?thesis using keeps_fields(9) [OF owner_keepsD(3) [OF assms(2) Member(5)]] by simp
next
  case (Name c src f n w)
  then show ?thesis using keeps_fields(9) [OF owner_keepsD(4) [OF assms(2) Name(5)]] by simp
qed (simp_all add: note_hello_def install_session_def Let_def)

lemma secure_ios:
  assumes "ios env L s s'" "owner_keeps env L"
  shows "c_secure (fst s') = c_secure (fst s)"
  using assms(1) by induction (simp_all add: secure_step [OF _ assms(2)])

lemma establishing_steps:
  assumes "ios env L s s'" "owner_keeps env L" "c_state (fst s) \<noteq> Established" "c_secure (fst s)" "c_state (fst s') = Established"
  shows "\<exists>sa src f n. ios env L s sa \<and> pending env src (fst sa) f n \<and> f_type f = AuthConfirm \<and> c_state (fst sa) = AwaitingConfirm \<and>
    auth_error env f (fst sa) = None \<and> auth_data (fst s') = auth_data (fst sa)"
  using assms(1,5)
proof induction
  case base
  then show ?case using assms(3) by simp
next
  case (step s1 s2)
  show ?case
  proof (cases "c_state (fst s1) = Established")
    case True
    then show ?thesis using step.IH established_step [OF step(2) assms(2)] by auto
  next
    case False
    have "c_secure (fst s1)" using secure_ios [OF step(1) assms(2)] assms(4) by simp
    then show ?thesis using establishing_step [OF step(2) assms(2) False] step(1,4) by blast
  qed
qed

lemma auth_error_None:
  "auth_error env f c = None \<longleftrightarrow> verify_tag (ev_crypto env) (f_auth_tag f) (c_expectedPeerTag c) \<and>
     (c_useIdentity c \<longrightarrow> f_has_auth_sig f \<and> id_from_identity (ev_crypto env) (h_idPubKey (c_peerHello c)) = pid_bytes (c_peerId c) \<and>
        verify_sig (ev_crypto env) (id_transcript (h_ephPubKey (c_peerHello c)) (ek_pk (c_ephKeys c)) (h_nodeName (c_peerHello c)))
          (f_auth_sig f) (h_idPubKey (c_peerHello c)) \<and>
        (li_trustedKeys (ev_self env) = [] \<or> h_idPubKey (c_peerHello c) \<in> set (li_trustedKeys (ev_self env))))"
  by (auto simp: auth_error_def Let_def)


end
