(* ===== verification/ConnectionHandshake.thy ===== *)
theory ConnectionHandshake
  imports ConnectionSafety
begin

text \<open>
  The secured handshake run by both ends: the bytes one connection sends, parsed by the other,
  lead it to the established state, with mirrored sessions.
\<close>

section \<open>Two ends that can authenticate\<close>

text \<open>Signatures made with a key pair verify, and are 64 bytes long.\<close>

definition sign_correct :: "'w sodium \<Rightarrow> identity_keypair \<Rightarrow> bool" where
  "sign_correct sd kp \<longleftrightarrow> (\<forall>m. crypto_sign_verify_detached sd (crypto_sign_detached sd m (ik_sk kp)) m (ik_pk kp) = 0 \<and>
     length (crypto_sign_detached sd m (ik_sk kp)) = 64)"

text \<open>\<open>admits sd ea ca eb cb\<close>: nothing in the configurations keeps the end \<open>ca\<close> from accepting \<open>cb\<close>.\<close>

definition admits :: "'w sodium \<Rightarrow> 'w env \<Rightarrow> conn \<Rightarrow> 'w env \<Rightarrow> conn \<Rightarrow> bool" where
  "admits sd ea ca eb cb \<longleftrightarrow>
     ev_crypto ea = Some sd \<and> ev_crypto eb = Some sd \<and> c_secure ca \<and> c_secure cb \<and>
     li_protocolVersion (ev_self ea) = li_protocolVersion (ev_self eb) \<and> li_groupName (ev_self ea) = li_groupName (ev_self eb) \<and>
     li_groupKey (ev_self ea) = li_groupKey (ev_self eb) \<and> length (li_groupName (ev_self eb)) \<le> 255 \<and> length (li_nodeName (ev_self eb)) \<le> 255 \<and>
     wf_hello (my_hello (ev_self eb) cb) \<and> length (c_myIdSig cb) = 64 \<and>
     dh_agrees sd (c_ephKeys ca) (c_ephKeys cb) \<and> ek_pk (c_ephKeys ca) \<noteq> ek_pk (c_ephKeys cb) \<and>
     (li_hasIdentity (ev_self ea) \<and> requireIdentity (ev_cfg ea) \<longrightarrow> li_hasIdentity (ev_self eb)) \<and>
     (li_hasIdentity (ev_self ea) \<and> li_hasIdentity (ev_self eb) \<longrightarrow>
        id_from_identity (Some sd) (ik_pk (li_idKeys (ev_self eb))) = pid_bytes (li_nodeId (ev_self eb)) \<and>
        sign_correct sd (li_idKeys (ev_self eb)) \<and>
        (li_trustedKeys (ev_self ea) = [] \<or> ik_pk (li_idKeys (ev_self eb)) \<in> set (li_trustedKeys (ev_self ea))))"

text \<open>The confirmation frame an end sends.\<close>

definition my_confirm :: "conn \<Rightarrow> msg" where
  "my_confirm c = MAuthConfirm (c_myConfirmTag c) (c_useIdentity c) (c_myIdSig c)"

definition my_hello_msg :: "'w env \<Rightarrow> conn \<Rightarrow> msg" where
  "my_hello_msg env c = (if c_inbound c then MHelloAck (my_hello (ev_self env) c) else MHello (my_hello (ev_self env) c))"

lemma my_hello_fields [simp]:
  "h_nodeId (my_hello self c) = li_nodeId self" "h_protocolVersion (my_hello self c) = li_protocolVersion self"
  "h_groupName (my_hello self c) = li_groupName self" "h_secure (my_hello self c) = c_secure c"
  "h_hasIdentity (my_hello self c) = li_hasIdentity self"
  "c_secure c \<Longrightarrow> h_ephPubKey (my_hello self c) = ek_pk (c_ephKeys c)"
  "li_hasIdentity self \<Longrightarrow> h_idPubKey (my_hello self c) = ik_pk (li_idKeys self)"
  "li_hasIdentity self \<Longrightarrow> h_nodeName (my_hello self c) = li_nodeName self"
  by (simp_all add: my_hello_def)

lemma canon_my_hello:
  "length (li_groupName self) \<le> 255 \<Longrightarrow> length (li_nodeName self) \<le> 255 \<Longrightarrow> canon_hello hello_init (my_hello self c) = my_hello self c"
  by (simp add: canon_hello_def my_hello_def)

lemma handshake_mirror:
  assumes "dh_agrees sd a b" "ek_pk a \<noteq> ek_pk b" "do_handshake (Some sd) a (ek_pk b) k g = Some ra"
  shows "\<exists>rb. do_handshake (Some sd) b (ek_pk a) k g = Some rb \<and>
    txKey (hr_session ra) = rxKey (hr_session rb) \<and> rxKey (hr_session ra) = txKey (hr_session rb) \<and>
    hr_expectedPeerTag ra = hr_myConfirmTag rb \<and> txCtr (hr_session ra) = rxCtr (hr_session rb)"
  using assms(1,3) memcmp_mirror [OF assms(2)]
  by (auto simp: do_handshake_def dh_agrees_def Let_def split: option.splits)

lemma install_session_fields [simp]:
  "c_state (install_session env h hr c) = AwaitingConfirm" "c_dead (install_session env h hr c) = c_dead c"
  "c_secure (install_session env h hr c) = c_secure c" "c_ephKeys (install_session env h hr c) = c_ephKeys c"
  "c_peerId (install_session env h hr c) = c_peerId c" "c_peerHello (install_session env h hr c) = h"
  "c_sess (install_session env h hr c) = Some (hr_session hr)" "c_myConfirmTag (install_session env h hr c) = hr_myConfirmTag hr"
  "c_expectedPeerTag (install_session env h hr c) = hr_expectedPeerTag hr" "c_in (install_session env h hr c) = c_in c"
  "c_plain (install_session env h hr c) = c_plain c"
  "c_useIdentity (install_session env h hr c) \<longleftrightarrow> li_hasIdentity (ev_self env) \<and> h_hasIdentity h"
  "c_myIdSig (install_session env h hr c) = (if li_hasIdentity (ev_self env) \<and> h_hasIdentity h
     then crypto_sign (ev_crypto env) (id_transcript (ek_pk (c_ephKeys c)) (h_ephPubKey h) (li_nodeName (ev_self env))) (ik_sk (li_idKeys (ev_self env)))
     else c_myIdSig c)"
  by (simp_all add: install_session_def Let_def)

text \<open>The confirmation of one end passes every check of the other.\<close>

lemma confirm_accepted:
  assumes "admits sd ea ca eb cb" "memcmp_correct sd"
    and "do_handshake (Some sd) (c_ephKeys ca) (ek_pk (c_ephKeys cb)) (li_groupKey (ev_self ea)) (li_groupName (ev_self ea)) = Some ra"
    and "do_handshake (Some sd) (c_ephKeys cb) (ek_pk (c_ephKeys ca)) (li_groupKey (ev_self eb)) (li_groupName (ev_self eb)) = Some rb"
    and "c_peerId a1 = li_nodeId (ev_self eb)" "c_ephKeys a1 = c_ephKeys ca"
  shows "auth_error ea (parsed_msg (my_confirm (install_session eb (my_hello (ev_self ea) ca) rb cb)) out)
    (install_session ea (my_hello (ev_self eb) cb) ra a1) = None"
proof -
  have dh: "dh_agrees sd (c_ephKeys ca) (c_ephKeys cb)" "ek_pk (c_ephKeys ca) \<noteq> ek_pk (c_ephKeys cb)"
      "li_groupKey (ev_self ea) = li_groupKey (ev_self eb)" "li_groupName (ev_self ea) = li_groupName (ev_self eb)"
    using assms(1) by (simp_all add: admits_def)
  from handshake_mirror [OF dh(1,2) assms(3)] have "hr_expectedPeerTag ra = hr_myConfirmTag rb" using assms(4) dh(3,4) by auto
  then show ?thesis
    using assms by (auto simp: auth_error_None my_confirm_def admits_def verify_tag_iff sign_correct_def crypto_sign_def verify_sig_def)
qed

section \<open>From the bytes of one end to the established state of the other\<close>

text \<open>Sending on a live connection neither blocks the loop forever nor closes the connection.\<close>

definition transport_up :: "'w env \<Rightarrow> 'w listener_ops \<Rightarrow> bool" where
  "transport_up env L \<longleftrightarrow> (\<forall>rec c w. \<not> c_dead c \<longrightarrow> (\<exists>c' w'. push_out env L rec (c, w) = Some (c', w') \<and> \<not> c_dead c'))"

lemma hash_tag_length: "hash_sized sd \<Longrightarrow> do_handshake (Some sd) a pk k g = Some r \<Longrightarrow> length (hr_myConfirmTag r) = 32"
  by (auto simp: do_handshake_def Let_def hash_sized_def split: option.splits)

lemma parse_plaintext_Ok:
  assumes "pending env In c f n"
  shows "parse_plaintext env L (c, w) = do {
      (go, s1) \<leftarrow> dispatch env L f n In (c, w);
      (if \<not> go then Some (False, s1)
       else if c_secure (fst s1) \<and> c_state (fst s1) = Established then Some (True, s1)
       else parse_plaintext env L s1) }"
  using assms by (subst parse_plaintext.simps) (simp add: pending_def)

text \<open>The hello of \<open>cb\<close> takes \<open>ca\<close> to the confirmation state.\<close>

lemma hello_dispatched:
  assumes "admits sd ea ca eb cb" "owner_keeps ea L" "transport_up ea L"
    and "do_handshake (Some sd) (c_ephKeys ca) (ek_pk (c_ephKeys cb)) (li_groupKey (ev_self ea)) (li_groupName (ev_self ea)) = Some ra"
    and "c_state ca = Handshaking" "\<not> c_dead ca"
    and "f_type f \<in> {Hello, HelloAck}" "f_hello f = my_hello (ev_self eb) cb"
  shows "\<exists>a1 a2 w2. dispatch ea L f n In (ca, w) = Some (True, a2, w2) \<and>
    keeps (ev_sys ea) (install_session ea (my_hello (ev_self eb) cb) ra a1) a2 \<and> \<not> c_dead a2 \<and>
    c_peerId a1 = li_nodeId (ev_self eb) \<and> c_ephKeys a1 = c_ephKeys ca \<and> c_in a1 = consume n (c_in ca) \<and> c_secure a1 \<and> c_plain a1 = c_plain ca"
proof -
  let ?h = "my_hello (ev_self eb) cb"
  obtain now w1 where now: "sys_now (ev_sys ea) w = (now, w1)" by fastforce
  let ?a1 = "src_consume In n (note_hello ?h (ca\<lparr>c_lastRecv := now\<rparr>))"
  let ?i = "install_session ea ?h ra ?a1"
  have a1: "c_peerId ?a1 = li_nodeId (ev_self eb)" "c_ephKeys ?a1 = c_ephKeys ca" "c_in ?a1 = consume n (c_in ca)"
      "c_secure ?a1 = c_secure ca" "c_dead ?a1 = c_dead ca" "c_plain ?a1 = c_plain ca"
    by (simp_all add: note_hello_def)
  obtain a2 w2 where a2: "send_auth_confirm ea L (?i, w1) = Some (a2, w2)" "\<not> c_dead a2"
    using assms(3) [unfolded transport_up_def, rule_format, of ?i] assms(6) a1(5) unfolding send_auth_confirm_def
    by (metis fst_conv install_session_fields(2))
  have "closed_keeps ea L" using owner_keepsD(5) [OF assms(2)] by (simp add: closed_keeps_def)
  then have k: "keeps (ev_sys ea) ?i a2"
    using a2(1) sends_keeps [OF push_out_sends, of ea L _ "(?i, w1)" "(a2, w2)"] by (simp add: send_auth_confirm_def)
  have "begin_auth ea L ?h (?a1, w1) = Some (True, a2, w2)"
    using a2 assms(1,4) a1 by (auto simp: begin_auth_def unless_dead_def admits_def)
  then have "handle_hello ea L f n In (ca\<lparr>c_lastRecv := now\<rparr>, w1) = Some (True, a2, w2)"
    using assms(1,5,8) a1(4) by (simp add: handle_hello_def admits_def Let_def)
  then have "dispatch ea L f n In (ca, w) = Some (True, a2, w2)"
    using assms(7) now by (auto simp: dispatch_def)
  then show ?thesis using k a2(2) a1 assms(1) by (intro exI [of _ ?a1] exI [of _ a2] exI [of _ w2]) (simp add: admits_def)
qed

text \<open>The confirmation of \<open>cb\<close> then establishes it.\<close>

lemma confirm_dispatched:
  assumes "owner_keeps ea L" "c_secure a2" "c_state a2 = AwaitingConfirm" "auth_error ea f a2 = None" "f_type f = AuthConfirm"
  shows "\<exists>a3 w3. dispatch ea L f n In (a2, w2) = unless_dead (cl_handshake L (c_peerHello a2) (a3, w3)) \<and>
    c_state a3 = Established \<and> c_in a3 = consume n (c_in a2) \<and> c_sess a3 = c_sess a2 \<and> c_peerId a3 = c_peerId a2 \<and>
    c_secure a3 \<and> c_plain a3 = c_plain a2 \<and> c_dead a3 = c_dead a2"
proof -
  obtain now w3 where now: "sys_now (ev_sys ea) w2 = (now, w3)" by fastforce
  let ?c = "a2\<lparr>c_lastRecv := now\<rparr>"
  have "auth_error ea f (src_consume In n ?c) = None"
    using auth_error_cong [of "src_consume In n ?c" a2 ea f] assms(4) by (simp add: auth_data_def)
  then have "dispatch ea L f n In (a2, w2) =
      unless_dead (cl_handshake L (c_peerHello a2) ((src_consume In n ?c)\<lparr>c_state := Established\<rparr>, w3))"
    using assms(2,3,5) now by (simp add: dispatch_def handle_auth_confirm_def Let_def)
  then show ?thesis using assms(2) by (intro exI [of _ "(src_consume In n ?c)\<lparr>c_state := Established\<rparr>"] exI [of _ w3]) simp
qed

lemma handshake_completes:
  assumes "admits sd ea ca eb cb" "memcmp_correct sd" "hash_sized sd" "owner_keeps ea L" "transport_up ea L"
    and "do_handshake (Some sd) (c_ephKeys cb) (ek_pk (c_ephKeys ca)) (li_groupKey (ev_self eb)) (li_groupName (ev_self eb)) = Some rb"
    and "b1 = install_session eb (my_hello (ev_self ea) ca) rb cb"
    and "c_state ca = Handshaking" "\<not> c_dead ca" "wf_buffer (c_in ca)"
    and "buf_data (c_in ca) = encode_msg (my_hello_msg eb cb) @ encode_msg (my_confirm b1)"
    and "length (buf_data (c_in ca)) \<le> maxMessageBytes (ev_cfg ea)" "length (buf_data (c_in ca)) < 2 ^ 32"
  shows "\<exists>a3 w3 ssa. parse_plaintext ea L (ca, w) = unless_dead (cl_handshake L (my_hello (ev_self eb) cb) (a3, w3)) \<and>
     c_state a3 = Established \<and> \<not> c_dead a3 \<and> c_secure a3 \<and> buf_data (c_in a3) = [] \<and> c_plain a3 = c_plain ca \<and>
     c_peerId a3 = li_nodeId (ev_self eb) \<and> c_sess a3 = Some ssa \<and> txKey ssa = rxKey (hr_session rb) \<and> rxKey ssa = txKey (hr_session rb)"
proof -
  let ?h = "my_hello (ev_self eb) cb"
  let ?fh = "parsed_msg (my_hello_msg eb cb) parsed_frame_init" and ?nh = "length (encode_msg (my_hello_msg eb cb))"
  let ?fc = "parsed_msg (my_confirm b1) parsed_frame_init" and ?nc = "length (encode_msg (my_confirm b1))"
  note ad = assms(1) [unfolded admits_def]
  have dh: "dh_agrees sd (c_ephKeys cb) (c_ephKeys ca)" using ad by (simp add: dh_agrees_def)
  have "ek_pk (c_ephKeys ca) \<noteq> ek_pk (c_ephKeys cb)" using ad by simp
  then have pk: "ek_pk (c_ephKeys cb) \<noteq> ek_pk (c_ephKeys ca)" by (rule not_sym)
  from handshake_mirror [OF dh pk assms(6)] obtain ra where
    ra: "do_handshake (Some sd) (c_ephKeys ca) (ek_pk (c_ephKeys cb)) (li_groupKey (ev_self ea)) (li_groupName (ev_self ea)) = Some ra"
      "txKey (hr_session ra) = rxKey (hr_session rb)" "rxKey (hr_session ra) = txKey (hr_session rb)"
    using ad by auto
  have wfh: "wf_msg (my_hello_msg eb cb)" using ad by (simp add: my_hello_msg_def)
  have wfc: "wf_msg (my_confirm b1)"
    using ad hash_tag_length [OF assms(3,6)] by (auto simp: my_confirm_def assms(7) sign_correct_def crypto_sign_def)
  have fh: "f_type ?fh \<in> {Hello, HelloAck}" "f_hello ?fh = ?h"
    using ad canon_my_hello [of "ev_self eb" cb] by (simp_all add: my_hello_msg_def parsed_frame_init_def)
  have "pending ea In ca ?fh ?nh"
    using decode_encode [OF wfh, of "maxMessageBytes (ev_cfg ea)"] assms(11-13) by (simp add: pending_def)
  note p1 = parse_plaintext_Ok [OF this, of L w]
  from hello_dispatched [OF assms(1,4,5) ra(1) assms(8,9) fh, of ?nh w] obtain a1 a2 w2 where
    d1: "dispatch ea L ?fh ?nh In (ca, w) = Some (True, a2, w2)" and
    k: "keeps (ev_sys ea) (install_session ea ?h ra a1) a2" and al: "\<not> c_dead a2" and
    a1: "c_peerId a1 = li_nodeId (ev_self eb)" "c_ephKeys a1 = c_ephKeys ca" "c_in a1 = consume ?nh (c_in ca)" "c_secure a1" "c_plain a1 = c_plain ca" by blast
  have a2: "c_state a2 = AwaitingConfirm" "c_secure a2" "c_in a2 = consume ?nh (c_in ca)" "c_peerHello a2 = ?h" "c_peerId a2 = li_nodeId (ev_self eb)"
      "map_option txKey (c_sess a2) = Some (txKey (hr_session ra))" "map_option rxKey (c_sess a2) = Some (rxKey (hr_session ra))"
      "c_plain a2 = c_plain ca"
    using keeps_state [OF k al] keeps_fields(5,9,15,16,17,20,21) [OF k] a1 by simp_all
  have "auth_error ea ?fc (install_session ea ?h ra a1) = None"
    using confirm_accepted [OF assms(1,2) ra(1) assms(6) a1(1,2)] by (simp add: assms(7))
  then have ae: "auth_error ea ?fc a2 = None" using auth_error_cong [OF auth_data_keeps [OF k], of ea ?fc] by simp
  have "buf_size (c_in ca) = ?nh + ?nc" by (simp add: assms(11) flip: length_buf_data)
  then have b2: "buf_data (c_in a2) = encode_msg (my_confirm b1)" "wf_buffer (c_in a2)" using a2(3) assms(10,11) by simp_all
  have "pending ea In a2 ?fc ?nc"
    using decode_encode [OF wfc, of "maxMessageBytes (ev_cfg ea)" "[]"] assms(11-13) b2 by (simp add: pending_def)
  note p2 = parse_plaintext_Ok [OF this, of L w2]
  have "f_type ?fc = AuthConfirm" by (simp add: my_confirm_def)
  from confirm_dispatched [OF assms(4) a2(2,1) ae this, of ?nc w2] obtain a3 w3 where
    d2: "dispatch ea L ?fc ?nc In (a2, w2) = unless_dead (cl_handshake L ?h (a3, w3))" and
    a3: "c_state a3 = Established" "c_in a3 = consume ?nc (c_in a2)" "c_sess a3 = c_sess a2" "c_peerId a3 = c_peerId a2" "c_secure a3"
      "c_plain a3 = c_plain a2" "c_dead a3 = c_dead a2"
    unfolding a2(4) by blast
  have "parse_plaintext ea L (a2, w2) = unless_dead (cl_handshake L ?h (a3, w3))"
  proof (cases "cl_handshake L ?h (a3, w3)")
    case (Some s')
    from owner_keepsD(1) [OF assms(4) Some] have k3: "keeps (ev_sys ea) a3 (fst s')" by simp
    show ?thesis
      using p2 d2 Some keeps_state [OF k3] keeps_fields(9) [OF k3] a3 by (auto simp: unless_dead_def)
  qed (use p2 d2 in \<open>simp add: unless_dead_def\<close>)
  then have "parse_plaintext ea L (ca, w) = unless_dead (cl_handshake L ?h (a3, w3))" using p1 d1 a2(1) by simp
  moreover have "buf_size (c_in a2) = ?nc" using b2 by (simp flip: length_buf_data)
  then have "buf_data (c_in a3) = []" using a3(2) b2 by simp
  ultimately show ?thesis using a3 a2(5-) ra(2,3) al by auto
qed


section \<open>Witnesses\<close>

text \<open>
  A system that delivers a script of byte strings, an owner that does nothing, and two nodes
  with identities over the toy library.
\<close>

definition script_sys :: "bytes list sys" where
  "script_sys = (idle_sys 0)\<lparr>sys_recv := (\<lambda>fd n w. case w of [] \<Rightarrow> (Inl EAGAIN, []) | b # bs \<Rightarrow> (Inr (take n b), bs))\<rparr>"

definition quiet :: "'w listener_ops" where
  "quiet = \<lparr>cl_handshake = (\<lambda>_ s. Some s), cl_data = (\<lambda>_ s. Some s), cl_membership = (\<lambda>_ s. Some s), cl_identity = (\<lambda>_ s. Some s),
     cl_closed = Some, cl_error = (\<lambda>_ w. w)\<rparr>"

definition script_toy :: "bytes list sodium" where
  "script_toy = toy_sodium"

lemma script_toy_laws: "aead_correct script_toy" "hash_sized script_toy" "memcmp_correct script_toy"
  by (simp_all add: script_toy_def)

definition sample_li :: "byte \<Rightarrow> local_identity" where
  "sample_li b = \<lparr>li_nodeId = Peer_id (replicate 16 b), li_groupName = ''lab'', li_protocolVersion = 1, li_listenPort = 9000,
     li_secure = True, li_groupKey = replicate 32 7, li_discoveryKey = replicate 32 8, li_hasIdentity = True,
     li_idKeys = \<lparr>ik_pk = replicate 32 b, ik_sk = replicate 64 b\<rparr>, li_nodeName = ''node'', li_trustedKeys = []\<rparr>"

definition sample_env :: "byte \<Rightarrow> bytes list env" where
  "sample_env b = \<lparr>ev_sys = script_sys, ev_crypto = Some script_toy, ev_cfg = default_config (Peer_id (replicate 16 b)), ev_self = sample_li b\<rparr>"

definition sample_addr :: sockaddr_in where
  "sample_addr = \<lparr>sin_addr = 0x7F000001, sin_port = 9000\<rparr>"

text \<open>The dialling peer, and the bytes it sends to a node with the ephemeral key of \<open>toy_sodium\<close>.\<close>

definition peer_conn :: conn where
  "peer_conn = (conn_init 8 4 sample_addr False Handshaking 5 True 0)\<lparr>c_ephKeys := toy_keypair 2\<rparr>"

definition host_conn :: conn where
  "host_conn = (conn_init 7 3 sample_addr True Handshaking 6 True 0)\<lparr>c_registered := True, c_ephKeys := toy_keypair 1\<rparr>"

definition peer_result :: handshake_result where
  "peer_result = the (do_handshake (Some script_toy) (toy_keypair 2) (ek_pk (toy_keypair 1)) (replicate 32 7) ''lab'')"

definition peer_bytes :: bytes where
  "peer_bytes = encode_msg (my_hello_msg (sample_env 2) peer_conn) @
     encode_msg (my_confirm (install_session (sample_env 2) (my_hello (sample_li 1) host_conn) peer_result peer_conn))"

lemma quiet_simps [simp]:
  "cl_handshake quiet h s = Some s" "cl_data quiet v s = Some s" "cl_membership quiet m s = Some s" "cl_identity quiet i s = Some s"
  "cl_closed quiet s = Some s" "cl_error quiet e w = w"
  by (simp_all add: quiet_def)

lemma quiet_keeps: "owner_keeps env quiet"
  by (simp add: owner_keeps_def)

lemma sample_env_simps [simp]:
  "ev_sys (sample_env b) = script_sys" "ev_crypto (sample_env b) = Some script_toy" "ev_self (sample_env b) = sample_li b"
  "ev_cfg (sample_env b) = default_config (Peer_id (replicate 16 b))"
  by (simp_all add: sample_env_def)

lemma script_sys_simps [simp]:
  "sys_now script_sys w = (0, w)" "sys_epoll_ctl script_sys opn fd ev p w = (True, w)" "sys_send script_sys fd bs w = (Inl EAGAIN, w)"
  "sys_recv script_sys fd n w = (case w of [] \<Rightarrow> (Inl EAGAIN, []) | b # bs \<Rightarrow> (Inr (take n b), bs))"
  by (simp_all add: script_sys_def idle_sys_def)

lemma script_bounded: "send_bounded script_sys" "recv_bounded script_sys"
  by (auto simp: send_bounded_def recv_bounded_def split: list.splits)

lemma sample_transport: "transport_up (sample_env b) L"
  unfolding transport_up_def
proof (intro allI impI)
  fix rec and c :: conn and w assume "\<not> c_dead c"
  let ?c = "c\<lparr>c_out := buf_append rec (c_out c), c_lastSend := 0\<rparr>"
  have "push_out (sample_env b) L rec (c, w) = Some (update_epoll (sample_env b) (?c, w))"
    by (simp add: push_out_def flush_outbound.simps [of "sample_env b"])
  moreover have "c_dead (fst (update_epoll (sample_env b) (?c, w))) = c_dead c"
    by (simp add: update_epoll_def loop_mod_def Let_def)
  ultimately show "\<exists>c' w'. push_out (sample_env b) L rec (c, w) = Some (c', w') \<and> \<not> c_dead c'"
    using \<open>\<not> c_dead c\<close> by (metis surjective_pairing)
qed

lemma peer_result: "do_handshake (Some script_toy) (toy_keypair 2) (ek_pk (toy_keypair 1)) (replicate 32 7) ''lab'' = Some peer_result"
  by (simp add: peer_result_def do_handshake_def script_toy_def toy_sodium_def Let_def)

lemma toy_sign: "sign_correct script_toy (li_idKeys (sample_li b))"
  by (simp add: sign_correct_def script_toy_def toy_sodium_def sample_li_def)

lemma script_toy_dh: "dh_agrees script_toy (toy_keypair a) (toy_keypair b)"
  by (simp add: dh_agrees_def script_toy_def toy_sodium_def toy_keypair_def add.commute hd_append)

lemma sample_admits:
  assumes "c_secure c" "c_ephKeys c = toy_keypair 1"
  shows "admits script_toy (sample_env 1) c (sample_env 2) peer_conn"
proof -
  have "id_from_identity (Some script_toy) (replicate 32 2) = replicate 16 2"
    by (simp add: id_from_identity_def script_toy_def toy_sodium_def pad_to_def)
  moreover have "ek_pk (toy_keypair 1) \<noteq> ek_pk (toy_keypair 2)" by (simp add: toy_keypair_def replicate_eq_replicate)
  moreover have "wf_hello (my_hello (sample_li 2) peer_conn)"
    by (simp add: wf_hello_def my_hello_def sample_li_def peer_conn_def conn_init_def toy_keypair_def wf_id_def)
  ultimately show ?thesis
    using assms toy_sign [of 2] by (simp add: admits_def sample_li_def peer_conn_def conn_init_def script_toy_dh)
qed

lemma peer_bytes_length: "length peer_bytes = 209"
proof -
  have t: "length (hr_myConfirmTag peer_result) = 32" by (rule hash_tag_length [OF script_toy_laws(2) peer_result])
  have g: "length (crypto_sign (Some script_toy) m (replicate 64 2)) = 64" for m by (simp add: crypto_sign_def script_toy_def toy_sodium_def)
  show ?thesis
    by (simp add: peer_bytes_def my_hello_msg_def my_confirm_def encode_hello_def encode_auth_confirm_def put_u8_def put_u16_def put_u32_def
        put_u64_def put_bytes_def put_id_def put_str_def put_bool_def my_hello_def sample_li_def peer_conn_def conn_init_def toy_keypair_def t g)
qed

lemma my_hello_cong: "c_localNonce c = c_localNonce c' \<Longrightarrow> c_secure c = c_secure c' \<Longrightarrow> c_ephKeys c = c_ephKeys c' \<Longrightarrow> my_hello self c = my_hello self c'"
  by (simp add: my_hello_def)

text \<open>The hypotheses of the theorem for a fresh host that received the bytes of the peer.\<close>

lemma sample_received:
  assumes "c_secure c" "c_ephKeys c = toy_keypair 1" "c_localNonce c = 6" "buf_data (c_in c) = peer_bytes"
  shows "do_handshake (Some script_toy) (c_ephKeys peer_conn) (ek_pk (c_ephKeys c)) (li_groupKey (ev_self (sample_env 2)))
      (li_groupName (ev_self (sample_env 2))) = Some peer_result"
    "buf_data (c_in c) = encode_msg (my_hello_msg (sample_env 2) peer_conn) @
      encode_msg (my_confirm (install_session (sample_env 2) (my_hello (ev_self (sample_env 1)) c) peer_result peer_conn))"
    "length (buf_data (c_in c)) \<le> maxMessageBytes (ev_cfg (sample_env 1))" "length (buf_data (c_in c)) < 2 ^ 32"
proof -
  have "my_hello (sample_li 1) c = my_hello (sample_li 1) host_conn"
    by (rule my_hello_cong) (use assms in \<open>simp_all add: host_conn_def conn_init_def\<close>)
  then show "buf_data (c_in c) = encode_msg (my_hello_msg (sample_env 2) peer_conn) @
      encode_msg (my_confirm (install_session (sample_env 2) (my_hello (ev_self (sample_env 1)) c) peer_result peer_conn))"
    using assms(4) by (simp add: peer_bytes_def)
qed (use assms peer_bytes_length peer_result in \<open>simp_all add: peer_conn_def conn_init_def sample_li_def default_config_def\<close>)

lemma sample_completes:
  assumes "c_state c = Handshaking" "\<not> c_dead c" "c_secure c" "c_ephKeys c = toy_keypair 1" "c_localNonce c = 6"
    and "wf_buffer (c_in c)" "buf_data (c_in c) = peer_bytes"
  shows "\<exists>a3 w3. parse_plaintext (sample_env 1) quiet (c, w) = Some (True, a3, w3) \<and> c_state a3 = Established \<and> c_secure a3 \<and>
    buf_data (c_in a3) = [] \<and> c_plain a3 = c_plain c"
proof -
  note r = sample_received [OF assms(3-5,7)]
  from handshake_completes [OF sample_admits [OF assms(3,4)] script_toy_laws(3,2) quiet_keeps sample_transport r(1) refl assms(1,2,6) r(2-4), of w]
  show ?thesis by (auto simp: unless_dead_def)
qed


text \<open>The node accepts the connection of the peer and then reads the peer's bytes.\<close>

lemma sample_accept:
  "accept_conn (sample_env 1) quiet 7 3 sample_addr 6 w =
     Some (host_conn\<lparr>c_out := buf_append (encode_hello HelloAck (my_hello (sample_li 1) host_conn)) empty_buffer, c_wantWrite := True\<rparr>, w)"
proof -
  have "my_hello (sample_li 1) ((conn_init 7 3 sample_addr True Handshaking 6 True 0)\<lparr>c_registered := True, c_ephKeys := toy_keypair 1\<rparr>) =
      my_hello (sample_li 1) host_conn"
    by (simp add: host_conn_def)
  moreover have "encode_hello HelloAck h \<noteq> []" for h
    using length_patch_length by (simp add: encode_hello_def put_u32_def flip: length_0_conv)
  moreover have "gen_ephemeral (Some script_toy) w = (toy_keypair 1, w)"
    by (simp add: gen_ephemeral_def script_toy_def toy_sodium_def toy_keypair_def)
  moreover have "li_secure (sample_li 1)" by (simp add: sample_li_def)
  ultimately show ?thesis
    by (simp add: accept_conn_def loop_add_def send_hello_def push_out_def flush_outbound.simps [of "sample_env 1"] update_epoll_def loop_mod_def
        host_conn_def conn_init_def Let_def buf_empty_iff)
qed

lemma sample_event:
  fixes c :: conn
  assumes "c = host_conn\<lparr>c_out := o', c_wantWrite := True\<rparr>"
  shows "\<exists>c' w'. on_io_events (sample_env 1) quiet EPOLLIN (c, [peer_bytes]) = Some (c', w') \<and> c_state c' = Established"
proof -
  let ?c = "c\<lparr>c_in := buf_append peer_bytes (c_in c)\<rparr>"
  have c: "c_state ?c = Handshaking" "\<not> c_dead ?c" "c_secure ?c" "c_ephKeys ?c = toy_keypair 1" "c_localNonce ?c = 6"
      "wf_buffer (c_in ?c)" "buf_data (c_in ?c) = peer_bytes" "c_plain ?c = empty_buffer"
    by (simp_all add: assms host_conn_def conn_init_def)
  have "peer_bytes \<noteq> []" using peer_bytes_length by auto
  then have "read_loop (sample_env 1) quiet (c, [peer_bytes]) = Some (True, ?c, [])"
    using script_bounded(2) peer_bytes_length by (simp add: read_loop_unfold EAGAIN_def)
  moreover from sample_completes [OF c(1-7), of "[]"] obtain a3 w3 where
    a3: "parse_plaintext (sample_env 1) quiet (?c, []) = Some (True, a3, w3)" "c_state a3 = Established" "c_secure a3"
      "buf_data (c_in a3) = []" "c_plain a3 = empty_buffer" using c(8) by auto
  then have "drain_records (sample_env 1) quiet (a3, w3) = Some (True, a3, w3)"
    by (subst drain_records.simps) (simp flip: length_buf_data)
  moreover have "parse_secure (sample_env 1) quiet (a3, w3) = Some (a3, w3)"
    using a3(5) by (subst parse_secure.simps) (simp add: try_decode_frame_def)
  ultimately have "do_read (sample_env 1) quiet (c, [peer_bytes]) = Some (a3, w3)"
    using a3 c(1) by (simp add: do_read_def parse_inbound_def)
  then have "on_io_events (sample_env 1) quiet EPOLLIN (c, [peer_bytes]) = Some (a3, w3)"
    using c(1,2) by (simp add: on_io_events_def EPOLLIN_def EPOLLHUP_def EPOLLERR_def EPOLLOUT_def EPOLLRDHUP_def)
  then show ?thesis using a3(2) by blast
qed


theorem connection_wf_witness:
  "\<exists>c w. conn_run (sample_env 1) quiet (c, w) \<and> c_state c = Established \<and> wf_conn c"
proof -
  from sample_accept [of "[peer_bytes]"] obtain c where
    c: "accept_conn (sample_env 1) quiet 7 3 sample_addr 6 [peer_bytes] = Some (c, [peer_bytes])"
      "\<exists>o'. c = host_conn\<lparr>c_out := o', c_wantWrite := True\<rparr>" by blast
  then obtain c' w' where e: "on_io_events (sample_env 1) quiet EPOLLIN (c, [peer_bytes]) = Some (c', w')" "c_state c' = Established"
    using sample_event by blast
  have r: "conn_run (sample_env 1) quiet (c', w')" using conn_run.Event [OF conn_run.Accepted [OF c(1)] e(1)] .
  have "wf_conn c'" by (rule connection_wf [OF quiet_keeps _ _ r]) (simp_all add: script_bounded)
  then show ?thesis using r e(2) by blast
qed

end
