(* ===== verification/ConnectionMoves.thy ===== *)
theory ConnectionMoves
  imports ConnectionSafety
begin

text \<open>
  What a connection does between two calls of its owner, without the owner: the changes the
  peer drives.  A step of handling an event is such a move followed by what the owner does,
  so a predicate that moves and owners keep holds of every connection an owner has.
\<close>

section \<open>Moves\<close>

inductive conn_move :: "'w env \<Rightarrow> conn \<Rightarrow> conn \<Rightarrow> bool" for env where
  Received: "inbound (ev_sys env) c c' \<Longrightarrow> conn_move env c c'"
| Connects: "c_state c = ConnectingOut \<Longrightarrow> conn_move env c (c\<lparr>c_state := Handshaking\<rparr>)"
| Keyed: "c_state c = Handshaking \<Longrightarrow> conn_move env c (c\<lparr>c_ephKeys := ek\<rparr>)"
| Noted: "c_state c = Handshaking \<Longrightarrow> pending env src c f n \<Longrightarrow> f_type f \<in> {Hello, HelloAck} \<Longrightarrow> compatible env (f_hello f) c \<Longrightarrow>
    conn_move env c (note_hello (f_hello f) c)"
| Agreed: "c_state c = Handshaking \<Longrightarrow> c_secure c \<Longrightarrow> compatible env h c \<Longrightarrow> c_peerId c = h_nodeId h \<Longrightarrow>
    (li_hasIdentity (ev_self env) \<and> requireIdentity (ev_cfg env) \<longrightarrow> h_hasIdentity h) \<Longrightarrow>
    do_handshake (ev_crypto env) (c_ephKeys c) (h_ephPubKey h) (li_groupKey (ev_self env)) (li_groupName (ev_self env)) = Some hr \<Longrightarrow>
    conn_move env c (install_session env h hr c)"
| Opens: "c_state c = Handshaking \<Longrightarrow> \<not> c_secure c \<Longrightarrow> compatible env h c \<Longrightarrow> c_peerId c = h_nodeId h \<Longrightarrow>
    conn_move env c (c\<lparr>c_state := Established\<rparr>)"
| Confirms: "c_state c = AwaitingConfirm \<Longrightarrow> c_secure c \<Longrightarrow> pending env src c f n \<Longrightarrow> f_type f = AuthConfirm \<Longrightarrow> auth_error env f c = None \<Longrightarrow>
    conn_move env c ((src_consume src n c)\<lparr>c_state := Established\<rparr>)"

lemma inbound_fields:
  assumes "inbound sys c c'"
  shows "c_ptr c' = c_ptr c" "c_dead c' = c_dead c" "c_state c' = c_state c" "c_peerId c' = c_peerId c" "c_inbound c' = c_inbound c" "c_fd c' = c_fd c"
  using arg_cong [of _ _ c_ptr, OF inbound_frame [OF assms]] arg_cong [of _ _ c_dead, OF inbound_frame [OF assms]]
    arg_cong [of _ _ c_state, OF inbound_frame [OF assms]] arg_cong [of _ _ c_peerId, OF inbound_frame [OF assms]]
    arg_cong [of _ _ c_inbound, OF inbound_frame [OF assms]] arg_cong [of _ _ c_fd, OF inbound_frame [OF assms]]
  by simp_all

lemma src_consume_more [simp]:
  "c_ptr (src_consume src n c) = c_ptr c" "c_inbound (src_consume src n c) = c_inbound c" "c_fd (src_consume src n c) = c_fd c"
  by (cases src; simp)+

lemma conn_move_fields:
  assumes "conn_move env c c'"
  shows "c_ptr c' = c_ptr c" "c_dead c' = c_dead c" "c_fd c' = c_fd c" "c_inbound c' = c_inbound c"
    "c_state c = Established \<Longrightarrow> c_state c' = Established \<and> c_peerId c' = c_peerId c"
  using assms by (cases; auto simp: inbound_fields note_hello_def install_session_def Let_def)+

section \<open>Invariants of connections\<close>

definition fresh_conn :: "'w env \<Rightarrow> conn \<Rightarrow> bool" where
  "fresh_conn env c \<longleftrightarrow> (\<exists>ptr fd addr inb st nonce now reg ww. (st = ConnectingOut \<or> st = Handshaking) \<and>
     c = (conn_init ptr fd addr inb st nonce (li_secure (ev_self env)) now)\<lparr>c_registered := reg, c_wantWrite := ww\<rparr>)"

definition conn_invariant :: "'w env \<Rightarrow> (conn \<Rightarrow> bool) \<Rightarrow> bool" where
  "conn_invariant env I \<longleftrightarrow> (\<forall>c. fresh_conn env c \<longrightarrow> I c) \<and> (\<forall>c c'. keeps (ev_sys env) c c' \<longrightarrow> I c \<longrightarrow> I c') \<and>
     (\<forall>c c'. conn_move env c c' \<longrightarrow> I c \<longrightarrow> I c')"

lemma conn_invariantD:
  assumes "conn_invariant env I"
  shows "fresh_conn env c \<Longrightarrow> I c" "keeps (ev_sys env) c c' \<Longrightarrow> I c \<Longrightarrow> I c'" "conn_move env c c' \<Longrightarrow> I c \<Longrightarrow> I c'"
  using assms by (auto simp: conn_invariant_def)

text \<open>An owner that does nothing; its steps are the moves.\<close>

definition idle :: "'w listener_ops" where
  "idle = \<lparr>cl_handshake = \<lambda>h. Some, cl_data = \<lambda>v. Some, cl_membership = \<lambda>r. Some, cl_identity = \<lambda>r. Some, cl_closed = Some, cl_error = \<lambda>e w. w\<rparr>"

lemma idle_keeps: "owner_keeps env idle"
  by (auto simp: owner_keeps_def idle_def)

lemma conn_move_io: "conn_move env c c' \<Longrightarrow> io_step env idle (c, w) (c', w)"
  by (induction rule: conn_move.induct) (auto intro: io_step.intros simp: idle_def)

lemma wf_conn_invariant:
  assumes "send_bounded (ev_sys env)" "recv_bounded (ev_sys env)"
  shows "conn_invariant env wf_conn"
  unfolding conn_invariant_def
proof (intro conjI allI impI)
  fix c assume "fresh_conn env c"
  then show "wf_conn c" by (auto simp: fresh_conn_def wf_conn_def conn_init_def)
next
  fix c c' assume "keeps (ev_sys env) c c'" "wf_conn c"
  then show "wf_conn c'" using wf_keeps assms(1) by blast
next
  fix c c' assume "conn_move env c c'" "wf_conn c"
  then show "wf_conn c'" using wf_io_step [OF conn_move_io [of env c c' undefined] idle_keeps assms] by simp
qed

lemma auth_conn_invariant: "conn_invariant env (auth_inv env)"
  unfolding conn_invariant_def
proof (intro conjI allI impI)
  fix c assume "fresh_conn env c"
  then show "auth_inv env c" by (auto simp: fresh_conn_def auth_inv_def conn_init_def)
next
  fix c c' assume "keeps (ev_sys env) c c'" "auth_inv env c"
  then show "auth_inv env c'" by (rule auth_inv_keeps)
next
  fix c c' assume "conn_move env c c'" "auth_inv env c"
  then show "auth_inv env c'" using auth_io_step [OF conn_move_io [of env c c' undefined] idle_keeps] by simp
qed

text \<open>A connection grown from a fresh one.\<close>

definition conn_change :: "'w env \<Rightarrow> conn \<Rightarrow> conn \<Rightarrow> bool" where
  "conn_change env c c' \<longleftrightarrow> keeps (ev_sys env) c c' \<or> conn_move env c c'"

definition grown :: "'w env \<Rightarrow> conn \<Rightarrow> bool" where
  "grown env c \<longleftrightarrow> (\<exists>c0. fresh_conn env c0 \<and> (conn_change env)\<^sup>*\<^sup>* c0 c)"

lemma grown_invariant:
  assumes "grown env c" "conn_invariant env I"
  shows "I c"
proof -
  from assms(1) obtain c0 where c0: "fresh_conn env c0" "(conn_change env)\<^sup>*\<^sup>* c0 c" by (auto simp: grown_def)
  show ?thesis
    using c0(2)
  proof induction
    case base
    then show ?case using c0(1) conn_invariantD(1) [OF assms(2)] by blast
  next
    case (step y z)
    then show ?case using conn_invariantD(2,3) [OF assms(2)] by (auto simp: conn_change_def)
  qed
qed

lemma grown_change: "grown env c \<Longrightarrow> conn_change env c c' \<Longrightarrow> grown env c'"
  unfolding grown_def by (meson rtranclp.rtrancl_into_rtrancl)

lemma grown_keeps: "grown env c \<Longrightarrow> keeps (ev_sys env) c c' \<Longrightarrow> grown env c'"
  by (erule grown_change) (simp add: conn_change_def)

lemma grown_move: "grown env c \<Longrightarrow> conn_move env c c' \<Longrightarrow> grown env c'"
  by (erule grown_change) (simp add: conn_change_def)

lemma fresh_grown: "fresh_conn env c \<Longrightarrow> grown env c"
  by (auto simp: grown_def)

end
