(* ===== verification/PeerManager.thy ===== *)
theory PeerManager
  imports ConnectionSafety GossipRouter MembershipView Sockets
begin

text \<open>
  The owner of all connections and of the logical state of the mesh (\<open>src/peer_manager.hpp\<close>,
  \<open>src/peer_manager.cpp\<close>): discovery, dialling, dial races, liveness, reconnects with backoff,
  persistent static peers, identity gossip, and the glue between the connections, the gossip
  router and the membership view.

  The state is one record.  The vector \<open>conns_\<close> is a list of connections with their addresses
  (\<open>c_ptr\<close>), other containers hold addresses; using an address that is not in the vector any more
  is undefined behaviour and gives \<open>None\<close>.  A new object gets an address that no live object has,
  possibly one that was used before; \<open>pm_building\<close> holds the address of an object whose constructor
  is still running.  Hash maps are association lists: their iteration
  order is unspecified in C++ and is the order of insertion here.  The calls to the delegate are
  logged in \<open>pm_calls\<close>.

  \<open>on_peer_closed\<close> sends on other connections, which may fail and be closed in turn.  The nesting
  is bounded by an explicit depth; exceeding it gives \<open>None\<close>.
\<close>

section \<open>State\<close>

datatype peer_state = Discovered | Connecting | Connected | Disconnected | Lost

record peer_record =
  pr_id :: peer_id
  pr_dialAddr :: sockaddr_in
  pr_haveAddr :: bool
  pr_state :: peer_state
  pr_lastSeen :: time_point
  pr_reconnectAttempts :: int
  pr_announced :: bool
  pr_isStatic :: bool
  pr_conn :: "nat option"

record static_target =
  t_host :: string
  t_port :: u16
  t_learnedId :: "peer_id option"
  t_attempts :: int
  t_nextAttempt :: time_point
  t_dialing :: "nat option"

text \<open>The calls of \<open>peer_manager_delegate\<close>.\<close>

datatype delegate_call =
    Peer_discovered peer_id
  | Peer_connected peer_id
  | Peer_disconnected peer_id
  | Peer_lost peer_id
  | Member_event mb_call
  | Message_received peer_id bytes
  | On_error error
  | Connected_snapshot "peer_id list"
  | Known_snapshot "peer_id list"
  | Names_snapshot "(peer_id \<times> string) list"

text \<open>The closures armed on the loop, one constructor per lambda.\<close>

datatype loop_cb = Sweep_cb sweep_cb | Tick_cb | Reconnect_cb peer_id | Reap_cb | Announce_cb | Mailbox_cb

record 'k manager =
  pm_router :: gossip_router
  pm_membership :: membership
  pm_conns :: "conn list"
  pm_building :: "nat list"
  pm_records :: "(peer_id \<times> peer_record) list"
  pm_estab :: "(peer_id \<times> nat) list"
  pm_targets :: "static_target list"
  pm_static_dial_conn :: "(nat \<times> nat) list"
  pm_names :: "(peer_id \<times> string) list"
  pm_idVersions :: "(peer_id \<times> u64) list"
  pm_selfIdVersion :: u64
  pm_lastIdFlood :: time_point
  pm_reap :: "nat list"
  pm_reapScheduled :: bool
  pm_running :: bool
  pm_loop :: "loop_cb event_loop"
  pm_calls :: "delegate_call list"
  pm_os :: 'k

text \<open>
  What the manager refers to: system calls, libsodium, configuration, identity; and the C++
  runtime: the addresses of the other handlers of the loop, the preference of \<open>operator new\<close> for an
  address, \<open>getaddrinfo\<close>, and the generator \<open>rng_\<close> with \<open>uniform_int_distribution\<close> over it.
\<close>

record 'k mgr_env =
  me_sys :: "'k sys"
  me_net :: "'k net"
  me_crypto :: "'k crypto"
  me_cfg :: mesh_config
  me_self :: local_identity
  me_objs :: "nat list"
  me_new :: "'k \<Rightarrow> nat \<times> 'k"
  me_getaddrinfo :: "string \<Rightarrow> 'k \<Rightarrow> u32 option \<times> 'k"
  me_rand :: "'k \<Rightarrow> u64 \<times> 'k"
  me_uniform :: "int \<Rightarrow> int \<Rightarrow> 'k \<Rightarrow> int \<times> 'k"

definition peer_record_init :: peer_record where
  "peer_record_init = \<lparr>pr_id = zero_id, pr_dialAddr = \<lparr>sin_addr = 0, sin_port = 0\<rparr>, pr_haveAddr = False, pr_state = Discovered,
     pr_lastSeen = 0, pr_reconnectAttempts = 0, pr_announced = False, pr_isStatic = False, pr_conn = None\<rparr>"

text \<open>The constructor, from the draws and wall-clock readings of its members and its own.\<close>

definition peer_manager_init :: "'k mgr_env \<Rightarrow> u32 \<Rightarrow> u32 \<Rightarrow> int \<Rightarrow> int \<Rightarrow> 'k \<Rightarrow> 'k manager" where
  "peer_manager_init E rd1 rd2 wall1 wall2 os = \<lparr>pm_router = gossip_router_init rd1 rd2 (li_nodeId (me_self E)),
     pm_membership = membership_init wall1 (li_nodeId (me_self E)), pm_conns = [], pm_building = [], pm_records = [], pm_estab = [], pm_targets = [],
     pm_static_dial_conn = [], pm_names = [], pm_idVersions = [], pm_selfIdVersion = word_of_int wall2, pm_lastIdFlood = 0,
     pm_reap = [], pm_reapScheduled = False, pm_running = False, pm_loop = event_loop_init, pm_calls = [], pm_os = os\<rparr>"

section \<open>System calls on the manager's state\<close>

definition os_call :: "('k \<Rightarrow> 'a \<times> 'k) \<Rightarrow> 'k manager \<Rightarrow> 'a \<times> 'k manager" where
  "os_call f m = (case f (pm_os m) of (x, k) \<Rightarrow> (x, m\<lparr>pm_os := k\<rparr>))"

definition mgr_sys :: "'k sys \<Rightarrow> 'k manager sys" where
  "mgr_sys sys = \<lparr>sys_errno = (\<lambda>m. sys_errno sys (pm_os m)), sys_now = os_call (sys_now sys),
     sys_epoll_ctl = (\<lambda>opn fd ev p. os_call (sys_epoll_ctl sys opn fd ev p)),
     sys_epoll_wait = (\<lambda>n t. os_call (sys_epoll_wait sys n t)), sys_eventfd_write = (\<lambda>v m. m\<lparr>pm_os := sys_eventfd_write sys v (pm_os m)\<rparr>),
     sys_eventfd_read = os_call (sys_eventfd_read sys), sys_socket_tcp = os_call (sys_socket_tcp sys),
     sys_connect = (\<lambda>fd a. os_call (sys_connect sys fd a)),
     sys_so_error = (\<lambda>fd m. case sys_so_error sys fd (pm_os m) of (ok, e, k) \<Rightarrow> (ok, e, m\<lparr>pm_os := k\<rparr>)),
     sys_recv = (\<lambda>fd n. os_call (sys_recv sys fd n)), sys_send = (\<lambda>fd bs. os_call (sys_send sys fd bs))\<rparr>"

definition mgr_sodium :: "'k sodium \<Rightarrow> 'k manager sodium" where
  "mgr_sodium sd = \<lparr>sodium_init = sodium_init sd, sodium_memcmp = sodium_memcmp sd, crypto_generichash = crypto_generichash sd,
     crypto_scalarmult = crypto_scalarmult sd, crypto_box_keypair = os_call (crypto_box_keypair sd),
     aead_encrypt = aead_encrypt sd, aead_decrypt = aead_decrypt sd, crypto_sign_keypair = os_call (crypto_sign_keypair sd),
     crypto_sign_seed_keypair = crypto_sign_seed_keypair sd, crypto_sign_ed25519_sk_to_seed = crypto_sign_ed25519_sk_to_seed sd,
     crypto_sign_detached = crypto_sign_detached sd, crypto_sign_verify_detached = crypto_sign_verify_detached sd\<rparr>"

definition conn_env :: "'k mgr_env \<Rightarrow> 'k manager env" where
  "conn_env E = \<lparr>ev_sys = mgr_sys (me_sys E), ev_crypto = map_option mgr_sodium (me_crypto E), ev_cfg = me_cfg E, ev_self = me_self E\<rparr>"

definition pm_now :: "'k mgr_env \<Rightarrow> 'k manager \<Rightarrow> time_point \<times> 'k manager" where
  "pm_now E = os_call (sys_now (me_sys E))"

definition emit :: "delegate_call \<Rightarrow> 'k manager \<Rightarrow> 'k manager" where
  "emit d m = m\<lparr>pm_calls := pm_calls m @ [d]\<rparr>"

definition arm :: "'k mgr_env \<Rightarrow> int \<Rightarrow> loop_cb \<Rightarrow> 'k manager \<Rightarrow> 'k manager" where
  "arm E delay cb m = (case pm_now E m of (now, m1) \<Rightarrow> m1\<lparr>pm_loop := snd (add_timer now delay cb (pm_loop m1))\<rparr>)"

section \<open>The connections\<close>

definition find_conn :: "nat \<Rightarrow> 'k manager \<Rightarrow> conn option" where
  "find_conn p m = List.find (\<lambda>c. c_ptr c = p) (pm_conns m)"

fun put_first :: "conn \<Rightarrow> conn list \<Rightarrow> conn list" where
  "put_first c [] = []"
| "put_first c (d # ds) = (if c_ptr d = c_ptr c then c # ds else d # put_first c ds)"

definition put_conn :: "conn \<Rightarrow> 'k manager \<Rightarrow> 'k manager" where
  "put_conn c m = m\<lparr>pm_conns := put_first c (pm_conns m)\<rparr>"

text \<open>
  \<open>operator new\<close>: the preferred address if it is free, and not null or the wake sentinel of the
  loop, else one above all in use.
\<close>

definition new_addr :: "nat list \<Rightarrow> nat \<Rightarrow> nat" where
  "new_addr live p = (if p \<in> set live \<or> p = 0 \<or> p = kWakeSentinel then sum_list live + 2 else p)"

definition alloc :: "'k mgr_env \<Rightarrow> 'k manager \<Rightarrow> nat \<times> 'k manager" where
  "alloc E m = (case os_call (me_new E) m of (p, m1) \<Rightarrow> (new_addr (map c_ptr (pm_conns m1) @ pm_building m1 @ me_objs E) p, m1))"

text \<open>
  \<open>with_conn p f\<close>: run an operation of the connection at address \<open>p\<close>.  \<open>from_conn g\<close>: run a callback of
  the manager that a connection makes in the middle of an operation; a connection under
  construction is not in the vector yet.
\<close>

definition with_conn :: "nat \<Rightarrow> (conn \<times> 'k manager \<Rightarrow> (conn \<times> 'k manager) option) \<Rightarrow> 'k manager \<Rightarrow> 'k manager option" where
  "with_conn p f m = do { c \<leftarrow> find_conn p m; (c', m') \<leftarrow> f (c, m); Some (put_conn c' m') }"

definition from_conn :: "(conn \<Rightarrow> 'k manager \<Rightarrow> 'k manager option) \<Rightarrow> conn \<times> 'k manager \<Rightarrow> (conn \<times> 'k manager) option" where
  "from_conn g s = do {
     m \<leftarrow> g (fst s) (put_conn (fst s) (snd s));
     Some (case find_conn (c_ptr (fst s)) (snd s) of
             None \<Rightarrow> fst s
           | Some _ \<Rightarrow> (case find_conn (c_ptr (fst s)) m of None \<Rightarrow> fst s | Some c \<Rightarrow> c), m) }"

text \<open>The part of the listener that sending uses.\<close>

definition closer :: "(conn \<times> 'k manager \<Rightarrow> (conn \<times> 'k manager) option) \<Rightarrow> 'k manager listener_ops" where
  "closer cl = \<lparr>cl_handshake = (\<lambda>_ _. None), cl_data = (\<lambda>_ _. None), cl_membership = (\<lambda>_ _. None), cl_identity = (\<lambda>_ _. None),
     cl_closed = cl, cl_error = (\<lambda>e m. emit (On_error e) m)\<rparr>"

section \<open>Forwarding\<close>

fun send_all :: "'k mgr_env \<Rightarrow> 'k manager listener_ops \<Rightarrow> bytes \<Rightarrow> nat list \<Rightarrow> 'k manager \<Rightarrow> 'k manager option" where
  "send_all E L frame [] m = Some m"
| "send_all E L frame (p # ps) m = do { m1 \<leftarrow> with_conn p (send_raw (conn_env E) L frame) m; send_all E L frame ps m1 }"

definition pm_forward_except :: "'k mgr_env \<Rightarrow> 'k manager listener_ops \<Rightarrow> bytes \<Rightarrow> int \<Rightarrow> 'k manager \<Rightarrow> 'k manager option" where
  "pm_forward_except E L frame exceptFd m = do {
     cs \<leftarrow> those (map (\<lambda>(i, p). find_conn p m) (pm_estab m));
     send_all E L frame (map c_ptr (filter (\<lambda>c. c_fd c \<noteq> exceptFd) cs)) m }"

definition pm_forward_to :: "'k mgr_env \<Rightarrow> 'k manager listener_ops \<Rightarrow> peer_id \<Rightarrow> bytes \<Rightarrow> 'k manager \<Rightarrow> (bool \<times> 'k manager) option" where
  "pm_forward_to E L dst frame m =
     (case map_of (pm_estab m) dst of
        None \<Rightarrow> Some (False, m)
      | Some p \<Rightarrow> do { m1 \<leftarrow> with_conn p (send_raw (conn_env E) L frame) m; Some (True, m1) })"

definition pm_deliver_local :: "peer_id \<Rightarrow> bytes \<Rightarrow> 'k manager \<Rightarrow> 'k manager" where
  "pm_deliver_local from payload m = emit (Message_received from payload) m"

definition mgr_forwarder :: "'k mgr_env \<Rightarrow> 'k manager listener_ops \<Rightarrow> 'k manager forwarder" where
  "mgr_forwarder E L = \<lparr>forward_except = pm_forward_except E L, forward_to = pm_forward_to E L, deliver_local = pm_deliver_local\<rparr>"

section \<open>Snapshots and membership\<close>

definition emit_connected_snapshot :: "'k manager \<Rightarrow> 'k manager" where
  "emit_connected_snapshot m = emit (Connected_snapshot (map fst (pm_estab m))) m"

definition emit_known_snapshot :: "'k manager \<Rightarrow> 'k manager" where
  "emit_known_snapshot m = emit (Known_snapshot (map fst (pm_records m))) m"

definition emit_names_snapshot :: "'k manager \<Rightarrow> 'k manager" where
  "emit_names_snapshot m = emit (Names_snapshot (pm_names m)) m"

text \<open>The calls a membership operation makes: to the delegate, and the flood, which forwards.\<close>

fun mb_perform :: "'k mgr_env \<Rightarrow> 'k manager listener_ops \<Rightarrow> mb_call list \<Rightarrow> 'k manager \<Rightarrow> 'k manager option" where
  "mb_perform E L [] m = Some m"
| "mb_perform E L (Flood frame fd # calls) m = do { m1 \<leftarrow> pm_forward_except E L frame fd m; mb_perform E L calls m1 }"
| "mb_perform E L (call # calls) m = mb_perform E L calls (emit (Member_event call) m)"

definition mb_apply :: "'k mgr_env \<Rightarrow> 'k manager listener_ops \<Rightarrow> (membership \<Rightarrow> membership \<times> mb_call list) \<Rightarrow> 'k manager \<Rightarrow> 'k manager option" where
  "mb_apply E L f m = (case f (pm_membership m) of (mb, calls) \<Rightarrow> mb_perform E L calls (m\<lparr>pm_membership := mb\<rparr>))"

definition update_local_membership :: "'k mgr_env \<Rightarrow> 'k manager listener_ops \<Rightarrow> 'k manager \<Rightarrow> 'k manager option" where
  "update_local_membership E L m =
     (let direct = map fst (pm_estab m)
      in case pm_now E m of (now, m1) \<Rightarrow> mb_apply E L (set_local_neighbors direct now) m1)"

section \<open>Dialling and reconnecting\<close>

text \<open>
  \<open>long long ms = base << att\<close> with the cap: the shift keeps the low 64 bits, read as signed.
  Attempts are cut at 20.
\<close>

definition backoff_ms :: "mesh_config \<Rightarrow> int \<Rightarrow> int" where
  "backoff_ms cfg attempts =
     (let att = min attempts 20; v = signed_take_bit 63 (reconnectBase cfg * 2 ^ nat att); cap = reconnectMax cfg
      in if v > cap \<or> v < 0 then cap else v)"

definition jittered_backoff :: "'k mgr_env \<Rightarrow> int \<Rightarrow> 'k manager \<Rightarrow> int \<times> 'k manager" where
  "jittered_backoff E attempts m =
     (let v = backoff_ms (me_cfg E) attempts
      in case os_call (me_uniform E 0 (max 1 (v div 5))) m of (j, m1) \<Rightarrow> (v + j, m1))"

text \<open>Construct a dialling connection, own it, and connect; \<open>f\<close> is what happens in between.\<close>

definition dial_with ::
    "'k mgr_env \<Rightarrow> 'k manager listener_ops \<Rightarrow> sockaddr_in \<Rightarrow> (nat \<Rightarrow> 'k manager \<Rightarrow> 'k manager) \<Rightarrow> 'k manager \<Rightarrow> 'k manager option" where
  "dial_with E L addr f m =
     (case os_call (me_rand E) m of (nonce, m1) \<Rightarrow>
        (case alloc E m1 of (p, m2) \<Rightarrow>
           (case dial_conn (conn_env E) p addr nonce m2 of (c, m3) \<Rightarrow>
              with_conn p (\<lambda>s. map_option snd (start_connect (conn_env E) L s)) (f p (m3\<lparr>pm_conns := pm_conns m3 @ [c]\<rparr>)))))"

definition start_dial :: "'k mgr_env \<Rightarrow> 'k manager listener_ops \<Rightarrow> peer_id \<Rightarrow> peer_record \<Rightarrow> 'k manager \<Rightarrow> 'k manager option" where
  "start_dial E L i r m =
     dial_with E L (pr_dialAddr r)
       (\<lambda>p m1. m1\<lparr>pm_records := AList.update i (r\<lparr>pr_state := Connecting, pr_conn := Some p\<rparr>) (pm_records m1)\<rparr>) m"

definition start_dial_addr :: "'k mgr_env \<Rightarrow> 'k manager listener_ops \<Rightarrow> sockaddr_in \<Rightarrow> 'k manager \<Rightarrow> 'k manager option" where
  "start_dial_addr E L addr m = dial_with E L addr (\<lambda>p m1. m1) m"

definition maybe_dial :: "'k mgr_env \<Rightarrow> 'k manager listener_ops \<Rightarrow> peer_id \<Rightarrow> peer_record \<Rightarrow> 'k manager \<Rightarrow> 'k manager option" where
  "maybe_dial E L i r m =
     (if \<not> pm_running m then Some m
      else if pr_id r = li_nodeId (me_self E) then Some m
      else if pr_state r = Connected \<or> pr_state r = Connecting then Some m
      else if \<not> pr_haveAddr r then Some m
      else if fanout (me_cfg E) \<noteq> 0 \<and> length (pm_estab m) \<ge> fanout (me_cfg E) then Some m
      else start_dial E L i r m)"

text \<open>\<open>records_[id]\<close>\<close>

definition record_at :: "peer_id \<Rightarrow> 'k manager \<Rightarrow> peer_record" where
  "record_at i m = (case map_of (pm_records m) i of None \<Rightarrow> peer_record_init | Some r \<Rightarrow> r)"

text \<open>First sight of a peer is announced once.\<close>

definition announce_once :: "peer_id \<Rightarrow> peer_record \<Rightarrow> 'k manager \<Rightarrow> peer_record \<times> 'k manager" where
  "announce_once i r m =
     (if \<not> pr_announced r
      then let r1 = r\<lparr>pr_announced := True\<rparr>; m1 = emit (Peer_discovered i) (m\<lparr>pm_records := AList.update i r1 (pm_records m)\<rparr>)
           in (r1, emit_known_snapshot m1)
      else (r, m\<lparr>pm_records := AList.update i r (pm_records m)\<rparr>))"

definition on_discovered :: "'k mgr_env \<Rightarrow> 'k manager listener_ops \<Rightarrow> announce \<Rightarrow> sockaddr_in \<Rightarrow> 'k manager \<Rightarrow> 'k manager option" where
  "on_discovered E L a src m =
     (case pm_now E m of (now, m1) \<Rightarrow>
        let i = a_nodeId a;
            r = (record_at i m1)\<lparr>pr_id := i, pr_lastSeen := now, pr_dialAddr := src\<lparr>sin_port := a_tcpListenPort a\<rparr>, pr_haveAddr := True\<rparr>
        in case announce_once i r m1 of (r1, m2) \<Rightarrow>
             let r2 = (if pr_state r1 = Lost then r1\<lparr>pr_state := Disconnected\<rparr> else r1)
             in maybe_dial E L i r2 (m2\<lparr>pm_records := AList.update i r2 (pm_records m2)\<rparr>))"

definition schedule_reconnect :: "'k mgr_env \<Rightarrow> peer_id \<Rightarrow> peer_record \<Rightarrow> 'k manager \<Rightarrow> 'k manager" where
  "schedule_reconnect E i r m =
     (if \<not> pm_running m then m
      else if pr_state r = Connected \<or> pr_state r = Lost then m
      else case jittered_backoff E (pr_reconnectAttempts r) m of (delay, m1) \<Rightarrow>
        arm E (ms delay) (Reconnect_cb (pr_id r))
          (m1\<lparr>pm_records := AList.update i (r\<lparr>pr_reconnectAttempts := pr_reconnectAttempts r + 1\<rparr>) (pm_records m1)\<rparr>))"

definition on_reconnect_timer :: "'k mgr_env \<Rightarrow> 'k manager listener_ops \<Rightarrow> peer_id \<Rightarrow> 'k manager \<Rightarrow> 'k manager option" where
  "on_reconnect_timer E L i m =
     (if \<not> pm_running m then Some m
      else case map_of (pm_records m) i of
        None \<Rightarrow> Some m
      | Some r \<Rightarrow>
          if pr_state r = Connected \<or> pr_state r = Connecting \<or> pr_state r = Lost then Some m
          else case pm_now E m of (now, m1) \<Rightarrow>
            if now - pr_lastSeen r > ms (peerLostTimeout (me_cfg E)) then Some m1 else maybe_dial E L i r m1)"

definition resolve_endpoint :: "'k mgr_env \<Rightarrow> string \<Rightarrow> u16 \<Rightarrow> 'k manager \<Rightarrow> sockaddr_in option \<times> 'k manager" where
  "resolve_endpoint E host port m =
     (case make_addr (me_net E) host port of
        Some a \<Rightarrow> (Some a, m)
      | None \<Rightarrow> (case os_call (me_getaddrinfo E host) m of (r, m1) \<Rightarrow> (map_option (\<lambda>a. \<lparr>sin_addr = a, sin_port = port\<rparr>) r, m1)))"

fun dial_seed_list :: "'k mgr_env \<Rightarrow> 'k manager listener_ops \<Rightarrow> seed_peer list \<Rightarrow> 'k manager \<Rightarrow> 'k manager option" where
  "dial_seed_list E L [] m = Some m"
| "dial_seed_list E L (s # ss) m =
     (case resolve_endpoint E (sp_host s) (sp_port s) m of (r, m1) \<Rightarrow>
        do { m2 \<leftarrow> (case r of None \<Rightarrow> Some m1 | Some addr \<Rightarrow> start_dial_addr E L addr m1); dial_seed_list E L ss m2 })"

definition dial_seeds :: "'k mgr_env \<Rightarrow> 'k manager listener_ops \<Rightarrow> 'k manager \<Rightarrow> 'k manager option" where
  "dial_seeds E L m = (if \<not> pm_running m then Some m else dial_seed_list E L (seedPeers (me_cfg E)) m)"

section \<open>Static peers\<close>

definition start_static_dial :: "'k mgr_env \<Rightarrow> 'k manager listener_ops \<Rightarrow> nat \<Rightarrow> 'k manager \<Rightarrow> 'k manager option" where
  "start_static_dial E L i m =
     (let t = pm_targets m ! i in
      case resolve_endpoint E (t_host t) (t_port t) m of
        (None, m1) \<Rightarrow> Some (emit (On_error \<lparr>e_category = Discovery, e_sysErrno = 0,
             e_what = ''static peer DNS resolution failed: '' @ t_host t, e_peer = None\<rparr>) m1)
      | (Some addr, m1) \<Rightarrow> dial_with E L addr
          (\<lambda>p m2. m2\<lparr>pm_targets := (pm_targets m2)[i := (pm_targets m2 ! i)\<lparr>t_dialing := Some p\<rparr>],
                    pm_static_dial_conn := AList.update p i (pm_static_dial_conn m2)\<rparr>) m1)"

fun maintain_loop :: "'k mgr_env \<Rightarrow> 'k manager listener_ops \<Rightarrow> time_point \<Rightarrow> nat list \<Rightarrow> 'k manager \<Rightarrow> 'k manager option" where
  "maintain_loop E L now [] m = Some m"
| "maintain_loop E L now (i # is) m =
     (let t = pm_targets m ! i in
      if (case t_learnedId t of None \<Rightarrow> False | Some j \<Rightarrow> map_of (pm_estab m) j \<noteq> None)
      then maintain_loop E L now is (m\<lparr>pm_targets := (pm_targets m)[i := t\<lparr>t_attempts := 0\<rparr>]\<rparr>)
      else if t_dialing t \<noteq> None then maintain_loop E L now is m
      else if now < t_nextAttempt t then maintain_loop E L now is m
      else case jittered_backoff E (t_attempts t) m of (delay, m1) \<Rightarrow> do {
        m2 \<leftarrow> start_static_dial E L i
               (m1\<lparr>pm_targets := (pm_targets m1)[i := t\<lparr>t_nextAttempt := now + ms delay, t_attempts := t_attempts t + 1\<rparr>]\<rparr>);
        maintain_loop E L now is m2 })"

definition maintain_static_peers :: "'k mgr_env \<Rightarrow> 'k manager listener_ops \<Rightarrow> 'k manager \<Rightarrow> 'k manager option" where
  "maintain_static_peers E L m =
     (if \<not> pm_running m then Some m
      else case pm_now E m of (now, m1) \<Rightarrow> maintain_loop E L now [0..<length (pm_targets m1)] m1)"

section \<open>Closing\<close>

definition schedule_reap :: "'k mgr_env \<Rightarrow> 'k manager \<Rightarrow> 'k manager" where
  "schedule_reap E m = (if pm_reapScheduled m then m else arm E 0 Reap_cb (m\<lparr>pm_reapScheduled := True\<rparr>))"

text \<open>An in-flight static dial that closes frees its slot.\<close>

definition free_static_slot :: "nat \<Rightarrow> 'k manager \<Rightarrow> 'k manager option" where
  "free_static_slot p m =
     (case map_of (pm_static_dial_conn m) p of
        None \<Rightarrow> Some m
      | Some i \<Rightarrow>
          if i < length (pm_targets m)
          then Some (m\<lparr>pm_targets := (pm_targets m)[i := (pm_targets m ! i)\<lparr>t_dialing := None\<rparr>],
                      pm_static_dial_conn := AList.delete p (pm_static_dial_conn m)\<rparr>)
          else None)"

definition detach_estab :: "conn \<Rightarrow> 'k manager \<Rightarrow> 'k manager" where
  "detach_estab c m =
     (if \<not> is_zero (c_peerId c) \<and> map_of (pm_estab m) (c_peerId c) = Some (c_ptr c)
      then m\<lparr>pm_estab := AList.delete (c_peerId c) (pm_estab m)\<rparr> else m)"

text \<open>The key of the record that owns the connection: by id, else by address.\<close>

definition owning_record :: "conn \<Rightarrow> 'k manager \<Rightarrow> peer_id option" where
  "owning_record c m =
     (if \<not> is_zero (c_peerId c) \<and> map_of (pm_records m) (c_peerId c) \<noteq> None then Some (c_peerId c)
      else map_option fst (List.find (\<lambda>(i, r). pr_conn r = Some (c_ptr c)) (pm_records m)))"

text \<open>The record loses its connection; a lost link is reported and the peer is redialled.\<close>

definition release_record :: "'k mgr_env \<Rightarrow> 'k manager listener_ops \<Rightarrow> peer_id \<Rightarrow> peer_record \<Rightarrow> 'k manager \<Rightarrow> 'k manager option" where
  "release_record E L i r m =
     do {
       m2 \<leftarrow> (let m1 = m\<lparr>pm_records := AList.update i (r\<lparr>pr_conn := None, pr_state := Disconnected\<rparr>) (pm_records m)\<rparr>
              in if pr_state r = Connected
                 then update_local_membership E L (emit_connected_snapshot (emit (Peer_disconnected (pr_id r)) m1))
                 else Some m1);
       r2 \<leftarrow> map_of (pm_records m2) i;
       (if pr_isStatic r2 then maintain_static_peers E L m2 else Some (schedule_reconnect E i r2 m2)) }"

definition closed_body :: "'k mgr_env \<Rightarrow> 'k manager listener_ops \<Rightarrow> conn \<Rightarrow> 'k manager \<Rightarrow> 'k manager option" where
  "closed_body E L c m =
     do {
       m1 \<leftarrow> free_static_slot (c_ptr c) m;
       m3 \<leftarrow> (let m2 = detach_estab c m1 in
              case owning_record c m2 of
                None \<Rightarrow> Some m2
              | Some i \<Rightarrow>
                  (case map_of (pm_records m2) i of
                     None \<Rightarrow> Some m2
                   | Some r \<Rightarrow> if pr_conn r = Some (c_ptr c) then release_record E L i r m2 else Some m2));
       Some (schedule_reap E (m3\<lparr>pm_reap := pm_reap m3 @ [c_ptr c]\<rparr>)) }"

fun on_peer_closed :: "'k mgr_env \<Rightarrow> nat \<Rightarrow> conn \<times> 'k manager \<Rightarrow> (conn \<times> 'k manager) option" where
  "on_peer_closed E 0 s = None"
| "on_peer_closed E (Suc n) s = from_conn (closed_body E (closer (on_peer_closed E n))) s"

section \<open>Identity gossip\<close>

definition id_record_msg :: "u64 \<Rightarrow> string \<Rightarrow> bytes" where
  "id_record_msg version name = str_bytes ''mm-idrec-v1'' @ map (\<lambda>i. byte_at (i * 8) version) (rev [0..<8]) @ str_bytes name"

definition make_self_id_record :: "'k mgr_env \<Rightarrow> 'k manager \<Rightarrow> identity_record \<times> 'k manager" where
  "make_self_id_record E m =
     (let self = me_self E; v = pm_selfIdVersion m + 1; name = li_nodeName self
      in (\<lparr>i_idPubKey = ik_pk (li_idKeys self), i_version = v, i_name = name,
            i_signature = crypto_sign (me_crypto E) (id_record_msg v name) (ik_sk (li_idKeys self))\<rparr>,
          m\<lparr>pm_selfIdVersion := v\<rparr>))"

definition flood_self_identity :: "'k mgr_env \<Rightarrow> 'k manager listener_ops \<Rightarrow> int \<Rightarrow> 'k manager \<Rightarrow> 'k manager option" where
  "flood_self_identity E L except_fd m =
     (if \<not> li_hasIdentity (me_self E) then Some m
      else case make_self_id_record E m of (rec, m1) \<Rightarrow> do {
        m2 \<leftarrow> pm_forward_except E L (encode_identity rec) except_fd m1;
        (case pm_now E m2 of (now, m3) \<Rightarrow> Some (m3\<lparr>pm_lastIdFlood := now\<rparr>)) })"

text \<open>The checks on a gossiped identity record; the origin when all pass.\<close>

definition admit_identity :: "'k mgr_env \<Rightarrow> identity_record \<Rightarrow> 'k manager \<Rightarrow> peer_id option" where
  "admit_identity E rec m =
     (let self = me_self E; origin = Peer_id (id_from_identity (me_crypto E) (i_idPubKey rec)) in
      if \<not> li_hasIdentity self then None
      else if origin = li_nodeId self then None
      else if li_trustedKeys self \<noteq> [] \<and> i_idPubKey rec \<notin> set (li_trustedKeys self) then None
      else if \<not> verify_sig (me_crypto E) (id_record_msg (i_version rec) (i_name rec)) (i_signature rec) (i_idPubKey rec) then None
      else if (case map_of (pm_idVersions m) origin of None \<Rightarrow> False | Some v \<Rightarrow> i_version rec \<le> v) then None
      else Some origin)"

definition on_peer_identity :: "'k mgr_env \<Rightarrow> 'k manager listener_ops \<Rightarrow> identity_record \<Rightarrow> conn \<Rightarrow> 'k manager \<Rightarrow> 'k manager option" where
  "on_peer_identity E L rec c m =
     (case admit_identity E rec m of
        None \<Rightarrow> Some m
      | Some origin \<Rightarrow>
          let m1 = m\<lparr>pm_idVersions := AList.update origin (i_version rec) (pm_idVersions m)\<rparr>;
              m2 = (if map_of (pm_names m1) origin \<noteq> Some (i_name rec)
                    then emit_names_snapshot (m1\<lparr>pm_names := AList.update origin (i_name rec) (pm_names m1)\<rparr>) else m1)
          in pm_forward_except E L (encode_identity rec) (c_fd c) m2)"

section \<open>Handshake\<close>

definition keep_existing :: "local_identity \<Rightarrow> bool \<Rightarrow> bool \<Rightarrow> peer_id \<Rightarrow> bool" where
  "keep_existing self existing_inbound neu_inbound peer =
     (if existing_inbound = neu_inbound then True
      else let weAreLower = (li_nodeId self < peer); winnerInbound = (\<not> weAreLower) in existing_inbound = winnerInbound)"

definition bind_static :: "conn \<Rightarrow> 'k manager \<Rightarrow> (bool \<times> 'k manager) option" where
  "bind_static c m =
     (case map_of (pm_static_dial_conn m) (c_ptr c) of
        None \<Rightarrow> Some (False, m)
      | Some i \<Rightarrow>
          if \<not> i < length (pm_targets m) then None
          else let t = pm_targets m ! i; pid = c_peerId c;
                   m1 = (case t_learnedId t of
                           None \<Rightarrow> m
                         | Some j \<Rightarrow> if j \<noteq> pid then emit_known_snapshot (m\<lparr>pm_records := AList.delete j (pm_records m)\<rparr>) else m)
               in Some (True, m1\<lparr>pm_targets := (pm_targets m1)[i := t\<lparr>t_learnedId := Some pid, t_attempts := 0, t_dialing := None\<rparr>],
                                pm_static_dial_conn := AList.delete (c_ptr c) (pm_static_dial_conn m1)\<rparr>))"

text \<open>The connection wins: it becomes the link of its peer.\<close>

definition install_link ::
    "'k mgr_env \<Rightarrow> 'k manager listener_ops \<Rightarrow> conn \<Rightarrow> hello \<Rightarrow> peer_record \<Rightarrow> nat option \<Rightarrow> 'k manager \<Rightarrow> 'k manager option" where
  "install_link E L c h r existing m =
     (let pid = c_peerId c; p = c_ptr c;
          m1 = m\<lparr>pm_estab := AList.update pid p (pm_estab m),
                 pm_records := AList.update pid (r\<lparr>pr_conn := Some p, pr_state := Connected, pr_reconnectAttempts := 0\<rparr>) (pm_records m)\<rparr>;
          m2 = (if h_hasIdentity h then emit_names_snapshot (m1\<lparr>pm_names := AList.update pid (h_nodeName h) (pm_names m1)\<rparr>) else m1)
      in do {
        m3 \<leftarrow> (if li_hasIdentity (me_self E)
               then case make_self_id_record E m2 of (rec, m2') \<Rightarrow> with_conn p (send_raw (conn_env E) L (encode_identity rec)) m2'
               else Some m2);
        m4 \<leftarrow> (case existing of None \<Rightarrow> Some m3 | Some q \<Rightarrow> with_conn q (close_gracefully (conn_env E) L) m3);
        (if pr_state r \<noteq> Connected
         then update_local_membership E L (emit_connected_snapshot (emit (Peer_connected pid) m4))
         else Some m4) })"

definition on_peer_handshake :: "'k mgr_env \<Rightarrow> 'k manager listener_ops \<Rightarrow> hello \<Rightarrow> conn \<Rightarrow> 'k manager \<Rightarrow> 'k manager option" where
  "on_peer_handshake E L h c m =
     (let pid = c_peerId c; p = c_ptr c in
      if pid = li_nodeId (me_self E) then with_conn p (close_gracefully (conn_env E) L) m
      else do {
        (fromStatic, m1) \<leftarrow> bind_static c m;
        (case pm_now E m1 of (now, m2) \<Rightarrow>
           let r0 = record_at pid m2;
               r = r0\<lparr>pr_id := pid, pr_isStatic := (fromStatic \<or> pr_isStatic r0),
                      pr_dialAddr := (c_peerAddr c)\<lparr>sin_port := h_tcpListenPort h\<rparr>, pr_haveAddr := True, pr_lastSeen := now\<rparr>
           in case announce_once pid r m2 of (r1, m3) \<Rightarrow>
                let existing = (case map_of (pm_estab m3) pid of None \<Rightarrow> None | Some q \<Rightarrow> if q \<noteq> p then Some q else None)
                in do {
                  keep \<leftarrow> (case existing of
                            None \<Rightarrow> Some False
                          | Some q \<Rightarrow> map_option (\<lambda>e. keep_existing (me_self E) (c_inbound e) (c_inbound c) pid) (find_conn q m3));
                  (if keep then with_conn p (close_gracefully (conn_env E) L) m3
                   else install_link E L c h r1 existing m3) }) })"

section \<open>The listener\<close>

definition on_peer_data :: "'k mgr_env \<Rightarrow> 'k manager listener_ops \<Rightarrow> data_view \<Rightarrow> conn \<Rightarrow> 'k manager \<Rightarrow> 'k manager option" where
  "on_peer_data E L view c m =
     (case pm_now E m of (now, m1) \<Rightarrow>
        do { (gr, m2) \<leftarrow> on_data (me_cfg E) now view (c_fd c) (mgr_forwarder E L) (pm_router m1, m1); Some (m2\<lparr>pm_router := gr\<rparr>) })"

definition on_peer_membership :: "'k mgr_env \<Rightarrow> 'k manager listener_ops \<Rightarrow> membership_record \<Rightarrow> conn \<Rightarrow> 'k manager \<Rightarrow> 'k manager option" where
  "on_peer_membership E L rec c m =
     (case pm_now E m of (now, m1) \<Rightarrow> mb_apply E L (on_remote_record rec (c_fd c) now) m1)"

text \<open>The manager as the listener of its connections, with closings nested at most \<open>n\<close> deep.\<close>

definition sender :: "'k mgr_env \<Rightarrow> nat \<Rightarrow> 'k manager listener_ops" where
  "sender E n = closer (on_peer_closed E n)"

definition mgr_listener :: "'k mgr_env \<Rightarrow> nat \<Rightarrow> 'k manager listener_ops" where
  "mgr_listener E n = (let L = sender E n in
     \<lparr>cl_handshake = (\<lambda>h. from_conn (on_peer_handshake E L h)), cl_data = (\<lambda>v. from_conn (on_peer_data E L v)),
      cl_membership = (\<lambda>r. from_conn (on_peer_membership E L r)), cl_identity = (\<lambda>r. from_conn (on_peer_identity E L r)),
      cl_closed = on_peer_closed E n, cl_error = (\<lambda>e m. emit (On_error e) m)\<rparr>)"

section \<open>Liveness\<close>

text \<open>
  \<open>for (auto& c : conns_)\<close>: appending to the vector inside the body invalidates the iterators, and
  going on (or testing for the end) is then undefined.
\<close>

fun for_conns :: "(nat \<Rightarrow> 'k manager \<Rightarrow> 'k manager option) \<Rightarrow> nat list \<Rightarrow> 'k manager \<Rightarrow> 'k manager option" where
  "for_conns body [] m = Some m"
| "for_conns body (p # ps) m = do {
     m1 \<leftarrow> body p m;
     (if map c_ptr (pm_conns m1) = map c_ptr (pm_conns m) then for_conns body ps m1 else None) }"

definition check_conn :: "'k mgr_env \<Rightarrow> 'k manager listener_ops \<Rightarrow> time_point \<Rightarrow> nat \<Rightarrow> 'k manager \<Rightarrow> 'k manager option" where
  "check_conn E L now p m = do {
     c \<leftarrow> find_conn p m;
     (case c_state c of
        Established \<Rightarrow> do {
          m1 \<leftarrow> with_conn p (maybe_heartbeat (conn_env E) L now (heartbeatInterval (me_cfg E))) m;
          c1 \<leftarrow> find_conn p m1;
          (if now - c_lastRecv c1 > ms (heartbeatTimeout (me_cfg E)) then with_conn p (close_gracefully (conn_env E) L) m1 else Some m1) }
      | Dead \<Rightarrow> Some m
      | _ \<Rightarrow> if now - c_createdAt c > ms (handshakeTimeout (me_cfg E)) then with_conn p (close_gracefully (conn_env E) L) m else Some m) }"

definition is_stale :: "mesh_config \<Rightarrow> time_point \<Rightarrow> peer_record \<Rightarrow> bool" where
  "is_stale cfg now r \<longleftrightarrow> \<not> pr_isStatic r \<and> \<not> (pr_state r = Connected \<or> pr_state r = Lost) \<and> now - pr_lastSeen r > ms (peerLostTimeout cfg)"

definition lose_peers :: "mesh_config \<Rightarrow> time_point \<Rightarrow> 'k manager \<Rightarrow> 'k manager" where
  "lose_peers cfg now m =
     (let toLose = map fst (filter (\<lambda>(i, r). is_stale cfg now r) (pm_records m)) in
      if toLose = [] then m
      else emit_known_snapshot (fold (\<lambda>i m1. let m2 = emit (Peer_lost i) m1 in m2\<lparr>pm_records := AList.delete i (pm_records m2)\<rparr>) toLose m))"

definition schedule_tick :: "'k mgr_env \<Rightarrow> 'k manager \<Rightarrow> 'k manager" where
  "schedule_tick E m = arm E (ms (heartbeatInterval (me_cfg E))) Tick_cb m"

definition tick :: "'k mgr_env \<Rightarrow> 'k manager listener_ops \<Rightarrow> 'k manager \<Rightarrow> 'k manager option" where
  "tick E L m =
     (if \<not> pm_running m then Some m
      else case pm_now E m of (now, m1) \<Rightarrow> do {
        m2 \<leftarrow> for_conns (check_conn E L now) (map c_ptr (pm_conns m1)) m1;
        m3 \<leftarrow> maintain_static_peers E L (lose_peers (me_cfg E) now m2);
        m4 \<leftarrow> mb_apply E L (mb_tick (me_cfg E) now) m3;
        m5 \<leftarrow> (if li_hasIdentity (me_self E) \<and> now - pm_lastIdFlood m4 \<ge> ms (membershipInterval (me_cfg E))
               then flood_self_identity E L (-1) m4 else Some m4);
        m6 \<leftarrow> (if pm_estab m5 = [] then dial_seeds E L m5 else Some m5);
        Some (schedule_tick E m6) })"

text \<open>Destroying a connection that is still registered deregisters it.\<close>

definition destroy_conn :: "'k mgr_env \<Rightarrow> conn \<Rightarrow> 'k manager \<Rightarrow> 'k manager" where
  "destroy_conn E c m = (if c_registered c \<and> c_fd c \<ge> 0 then snd (loop_del (mgr_sys (me_sys E)) (c_fd c) m) else m)"

definition reap :: "'k mgr_env \<Rightarrow> 'k manager \<Rightarrow> 'k manager" where
  "reap E m =
     (let m1 = m\<lparr>pm_reapScheduled := False\<rparr> in
      if pm_reap m1 = [] then m1
      else let dead = pm_reap m1; gone = filter (\<lambda>c. c_ptr c \<in> set dead) (pm_conns m1)
           in (fold (destroy_conn E) gone (m1\<lparr>pm_reap := []\<rparr>))\<lparr>pm_conns := filter (\<lambda>c. c_ptr c \<notin> set dead) (pm_conns m1)\<rparr>)"

section \<open>Entry points\<close>

definition pm_start :: "'k mgr_env \<Rightarrow> 'k manager listener_ops \<Rightarrow> 'k manager \<Rightarrow> 'k manager option" where
  "pm_start E L m =
     (case pm_now E (m\<lparr>pm_running := True\<rparr>) of (now, m1) \<Rightarrow>
        let m2 = m1\<lparr>pm_loop := gr_start Sweep_cb (me_cfg E) now (pm_loop m1),
                    pm_targets := pm_targets m1 @ map (\<lambda>s. \<lparr>t_host = sp_host s, t_port = sp_port s, t_learnedId = None, t_attempts = 0,
                       t_nextAttempt = 0, t_dialing = None\<rparr>) (staticPeers (me_cfg E))\<rparr>
        in do { m3 \<leftarrow> dial_seeds E L m2; m4 \<leftarrow> maintain_static_peers E L m3; Some (schedule_tick E m4) })"

definition pm_shutdown :: "'k mgr_env \<Rightarrow> 'k manager listener_ops \<Rightarrow> 'k manager \<Rightarrow> 'k manager option" where
  "pm_shutdown E L m = do {
     m1 \<leftarrow> for_conns (\<lambda>p m1. do { c \<leftarrow> find_conn p m1;
             (if c_state c = Established then with_conn p (close_gracefully (conn_env E) L) m1 else Some m1) })
           (map c_ptr (pm_conns m)) (m\<lparr>pm_running := False\<rparr>);
     Some ((fold (destroy_conn E) (pm_conns m1) (m1\<lparr>pm_estab := []\<rparr>))\<lparr>pm_conns := [], pm_records := [], pm_targets := [],
             pm_static_dial_conn := [], pm_membership := mb_clear (pm_membership m1), pm_reap := []\<rparr>) }"

definition accept_connection :: "'k mgr_env \<Rightarrow> 'k manager listener_ops \<Rightarrow> int \<Rightarrow> sockaddr_in \<Rightarrow> 'k manager \<Rightarrow> 'k manager option" where
  "accept_connection E L fd addr m =
     (case os_call (me_rand E) m of (nonce, m1) \<Rightarrow>
        (case alloc E m1 of (p, m2) \<Rightarrow> do {
           (c, m3) \<leftarrow> accept_conn (conn_env E) L p fd addr nonce (m2\<lparr>pm_building := p # pm_building m2\<rparr>);
           Some (m3\<lparr>pm_building := remove1 p (pm_building m3), pm_conns := pm_conns m3 @ [c]\<rparr>) }))"

definition pm_originate_broadcast :: "'k mgr_env \<Rightarrow> 'k manager listener_ops \<Rightarrow> bytes \<Rightarrow> 'k manager \<Rightarrow> 'k manager option" where
  "pm_originate_broadcast E L payload m =
     (case pm_now E m of (now, m1) \<Rightarrow>
        do { (gr, m2) \<leftarrow> originate_broadcast (me_cfg E) now payload (mgr_forwarder E L) (pm_router m1, m1); Some (m2\<lparr>pm_router := gr\<rparr>) })"

definition pm_originate_targeted :: "'k mgr_env \<Rightarrow> 'k manager listener_ops \<Rightarrow> peer_id \<Rightarrow> bytes \<Rightarrow> 'k manager \<Rightarrow> 'k manager option" where
  "pm_originate_targeted E L dst payload m =
     (case pm_now E m of (now, m1) \<Rightarrow>
        do { (gr, m2) \<leftarrow> originate_targeted (me_cfg E) now dst payload (mgr_forwarder E L) (pm_router m1, m1); Some (m2\<lparr>pm_router := gr\<rparr>) })"

definition conn_event :: "'k mgr_env \<Rightarrow> nat \<Rightarrow> nat \<Rightarrow> u32 \<Rightarrow> 'k manager \<Rightarrow> 'k manager option" where
  "conn_event E n p events m = with_conn p (on_io_events (conn_env E) (mgr_listener E n) events) m"

text \<open>Everything that can happen to the manager, one constructor per entry point or timer.\<close>

datatype mgr_event =
    Io nat u32
  | Accept int sockaddr_in
  | Discover announce sockaddr_in
  | Broadcast bytes
  | Targeted peer_id bytes
  | Timer_tick
  | Timer_reconnect peer_id
  | Timer_reap
  | Timer_sweep sweep_cb
  | Start
  | Shutdown

fun mgr_step :: "'k mgr_env \<Rightarrow> nat \<Rightarrow> mgr_event \<Rightarrow> 'k manager \<Rightarrow> 'k manager option" where
  "mgr_step E n (Io p ev) m = conn_event E n p ev m"
| "mgr_step E n (Accept fd addr) m = accept_connection E (mgr_listener E n) fd addr m"
| "mgr_step E n (Discover a src) m = on_discovered E (sender E n) a src m"
| "mgr_step E n (Broadcast payload) m = pm_originate_broadcast E (sender E n) payload m"
| "mgr_step E n (Targeted dst payload) m = pm_originate_targeted E (sender E n) dst payload m"
| "mgr_step E n Timer_tick m = tick E (sender E n) m"
| "mgr_step E n (Timer_reconnect i) m = on_reconnect_timer E (sender E n) i m"
| "mgr_step E n Timer_reap m = Some (reap E m)"
| "mgr_step E n (Timer_sweep cb) m =
     (case pm_now E m of (now, m1) \<Rightarrow>
        (case run_sweep Sweep_cb (me_cfg E) now cb (pm_router m1, pm_loop m1) of (gr, el) \<Rightarrow> Some (m1\<lparr>pm_router := gr, pm_loop := el\<rparr>)))"
| "mgr_step E n Start m = pm_start E (sender E n) m"
| "mgr_step E n Shutdown m = pm_shutdown E (sender E n) m"

fun mgr_run :: "'k mgr_env \<Rightarrow> nat \<Rightarrow> mgr_event list \<Rightarrow> 'k manager \<Rightarrow> 'k manager option" where
  "mgr_run E n [] m = Some m"
| "mgr_run E n (e # es) m = do { m1 \<leftarrow> mgr_step E n e m; mgr_run E n es m1 }"

end
