(* ===== verification/ManagerSteps.thy ===== *)
theory ManagerSteps
  imports PeerManager ConnectionMoves
begin

text \<open>
  The manager as an automaton over its whole state.  \<open>mstep E lv\<close> are its elementary steps; the
  level says who takes them: sending (with the closings it may cause), a callback of a
  connection, or an entry point.  The operations of \<open>PeerManager\<close>, with their nested closings, are
  flattened into sequences of these steps, so that invariants of the manager are proved step by
  step.
\<close>

section \<open>The vector of connections\<close>

lemma find_conn_ptr: "find_conn p m = Some c \<Longrightarrow> c_ptr c = p"
  by (auto simp: find_conn_def find_Some_iff)

lemma map_ptr_put_first [simp]: "map c_ptr (put_first c cs) = map c_ptr cs"
  by (induction c cs rule: put_first.induct) auto

lemma find_put_first:
  "List.find (\<lambda>d. c_ptr d = p) (put_first c cs) =
     (if p = c_ptr c \<and> List.find (\<lambda>d. c_ptr d = p) cs \<noteq> None then Some c else List.find (\<lambda>d. c_ptr d = p) cs)"
  by (induction c cs rule: put_first.induct) auto

lemma find_put_same: "find_conn (c_ptr c) m \<noteq> None \<Longrightarrow> find_conn (c_ptr c) (put_conn c m) = Some c"
  by (simp add: find_conn_def put_conn_def find_put_first)

lemma find_put_other [simp]: "q \<noteq> c_ptr c \<Longrightarrow> find_conn q (put_conn c m) = find_conn q m"
  by (simp add: find_conn_def put_conn_def find_put_first)

lemma put_first_absent: "List.find (\<lambda>d. c_ptr d = c_ptr c) cs = None \<Longrightarrow> put_first c cs = cs"
  by (induction c cs rule: put_first.induct) (auto split: if_splits)

lemma put_first_id: "List.find (\<lambda>d. c_ptr d = c_ptr c) cs = Some c \<Longrightarrow> put_first c cs = cs"
  by (induction c cs rule: put_first.induct) (auto split: if_splits)

lemma put_absent: "find_conn (c_ptr c) m = None \<Longrightarrow> put_conn c m = m"
  by (simp add: find_conn_def put_conn_def put_first_absent)

lemma put_id: "find_conn (c_ptr c) m = Some c \<Longrightarrow> put_conn c m = m"
  by (simp add: find_conn_def put_conn_def put_first_id)

lemma put_first_twice: "c_ptr c = c_ptr d \<Longrightarrow> put_first c (put_first d cs) = put_first c cs"
  by (induction d cs rule: put_first.induct) auto

lemma put_put: "c_ptr c = c_ptr d \<Longrightarrow> put_conn c (put_conn d m) = put_conn c m"
  by (simp add: put_conn_def put_first_twice)

lemma find_put_None: "find_conn q (put_conn c m) = None \<longleftrightarrow> find_conn q m = None"
  by (auto simp: find_conn_def put_conn_def find_put_first)

lemma put_first_append: "List.find (\<lambda>d. c_ptr d = c_ptr c) cs = None \<Longrightarrow> put_first c (cs @ ds) = cs @ put_first c ds"
  by (induction c cs rule: put_first.induct) (auto split: if_splits)

lemma find_append: "List.find P (xs @ ys) = (case List.find P xs of None \<Rightarrow> List.find P ys | Some x \<Rightarrow> Some x)"
  by (induction xs) auto

lemma find_conn_upd [simp]:
  "find_conn p (m\<lparr>pm_os := k\<rparr>) = find_conn p m" "find_conn p (m\<lparr>pm_loop := el\<rparr>) = find_conn p m"
  "find_conn p (m\<lparr>pm_records := rs\<rparr>) = find_conn p m" "find_conn p (m\<lparr>pm_estab := es\<rparr>) = find_conn p m"
  "find_conn p (m\<lparr>pm_targets := ts\<rparr>) = find_conn p m" "find_conn p (m\<lparr>pm_static_dial_conn := sd\<rparr>) = find_conn p m"
  "find_conn p (m\<lparr>pm_reap := rp\<rparr>) = find_conn p m" "find_conn p (m\<lparr>pm_reapScheduled := b\<rparr>) = find_conn p m"
  "find_conn p (m\<lparr>pm_membership := mb\<rparr>) = find_conn p m" "find_conn p (m\<lparr>pm_router := gr\<rparr>) = find_conn p m"
  "find_conn p (m\<lparr>pm_names := ns\<rparr>) = find_conn p m" "find_conn p (m\<lparr>pm_idVersions := iv\<rparr>) = find_conn p m"
  "find_conn p (m\<lparr>pm_selfIdVersion := v\<rparr>) = find_conn p m" "find_conn p (m\<lparr>pm_lastIdFlood := t\<rparr>) = find_conn p m"
  "find_conn p (m\<lparr>pm_running := b\<rparr>) = find_conn p m" "find_conn p (m\<lparr>pm_building := pb\<rparr>) = find_conn p m"
  "find_conn p (emit d m) = find_conn p m"
  by (simp_all add: find_conn_def emit_def)

lemma put_conn_upd [simp]:
  "put_conn c (m\<lparr>pm_os := k\<rparr>) = (put_conn c m)\<lparr>pm_os := k\<rparr>" "put_conn c (emit d m) = emit d (put_conn c m)"
  "put_conn c (m\<lparr>pm_records := rs\<rparr>) = (put_conn c m)\<lparr>pm_records := rs\<rparr>"
  "put_conn c (m\<lparr>pm_targets := ts, pm_static_dial_conn := sd\<rparr>) = (put_conn c m)\<lparr>pm_targets := ts, pm_static_dial_conn := sd\<rparr>"
  by (simp_all add: put_conn_def emit_def)

lemma put_conn_fields [simp]:
  "pm_records (put_conn c m) = pm_records m" "pm_estab (put_conn c m) = pm_estab m" "pm_targets (put_conn c m) = pm_targets m"
  "pm_static_dial_conn (put_conn c m) = pm_static_dial_conn m" "pm_calls (put_conn c m) = pm_calls m" "pm_router (put_conn c m) = pm_router m"
  "pm_reap (put_conn c m) = pm_reap m" "pm_building (put_conn c m) = pm_building m" "pm_running (put_conn c m) = pm_running m"
  "pm_membership (put_conn c m) = pm_membership m" "map c_ptr (pm_conns (put_conn c m)) = map c_ptr (pm_conns m)"
  by (simp_all add: put_conn_def)

lemma new_addr_fresh: "new_addr live p \<notin> set live" "new_addr live p > 1"
proof -
  have "sum_list live + 2 \<notin> set live" using member_le_sum_list [of "sum_list live + 2" live] by auto
  then show "new_addr live p \<notin> set live" by (auto simp: new_addr_def)
qed (auto simp: new_addr_def kWakeSentinel_def)

lemma find_conn_None: "find_conn p m = None \<longleftrightarrow> p \<notin> set (map c_ptr (pm_conns m))"
  by (auto simp: find_conn_def find_None_iff)

section \<open>Steps\<close>

text \<open>
  At the level \<open>Unchecked\<close> a callback may be made for any connection, as the contract of the owner of
  connections allows.
\<close>

datatype level = Sending | Callback | Unchecked | Entry

text \<open>What \<open>on_peer_closed\<close> does to the manager's state before it sends anything.\<close>

definition release_effect :: "conn \<Rightarrow> 'k manager \<Rightarrow> 'k manager" where
  "release_effect c m = (case owning_record c m of
      None \<Rightarrow> m
    | Some i \<Rightarrow> (case map_of (pm_records m) i of
        None \<Rightarrow> m
      | Some r \<Rightarrow> if pr_conn r = Some (c_ptr c)
          then m\<lparr>pm_records := AList.update i (r\<lparr>pr_conn := None, pr_state := Disconnected\<rparr>) (pm_records m)\<rparr> else m))"

definition close_effect :: "conn \<Rightarrow> 'k manager \<Rightarrow> 'k manager option" where
  "close_effect c m = map_option (\<lambda>m1. release_effect c (detach_estab c m1)) (free_static_slot (c_ptr c) (put_conn c m))"

lemma release_effect_fields [simp]:
  "pm_conns (release_effect c m) = pm_conns m" "pm_building (release_effect c m) = pm_building m" "pm_targets (release_effect c m) = pm_targets m"
  "pm_calls (release_effect c m) = pm_calls m" "pm_router (release_effect c m) = pm_router m" "pm_running (release_effect c m) = pm_running m"
  "pm_estab (release_effect c m) = pm_estab m" "pm_reap (release_effect c m) = pm_reap m"
  "pm_static_dial_conn (release_effect c m) = pm_static_dial_conn m"
  by (simp_all add: release_effect_def split: option.split)

lemma detach_estab_fields [simp]:
  "pm_conns (detach_estab c m) = pm_conns m" "pm_building (detach_estab c m) = pm_building m" "pm_targets (detach_estab c m) = pm_targets m"
  "pm_calls (detach_estab c m) = pm_calls m" "pm_router (detach_estab c m) = pm_router m" "pm_running (detach_estab c m) = pm_running m"
  "pm_records (detach_estab c m) = pm_records m" "pm_reap (detach_estab c m) = pm_reap m"
  "pm_static_dial_conn (detach_estab c m) = pm_static_dial_conn m"
  by (simp_all add: detach_estab_def)

lemma free_static_slot_fields:
  assumes "free_static_slot p m = Some m'"
  shows "pm_conns m' = pm_conns m" "pm_building m' = pm_building m" "length (pm_targets m') = length (pm_targets m)"
    "pm_calls m' = pm_calls m" "pm_router m' = pm_router m" "pm_running m' = pm_running m" "pm_records m' = pm_records m"
    "pm_estab m' = pm_estab m" "pm_reap m' = pm_reap m"
  using assms by (auto simp: free_static_slot_def split: option.splits if_splits)

text \<open>\<open>c\<close> is a connection of the vector that has just died, or one under construction.\<close>

definition just_died :: "conn \<Rightarrow> 'k manager \<Rightarrow> bool" where
  "just_died c m \<longleftrightarrow> c_dead c \<and> (find_conn (c_ptr c) m = None \<and> c_ptr c \<in> set (pm_building m) \<or>
     (\<exists>c0 r. find_conn (c_ptr c) m = Some c0 \<and> \<not> c_dead c0 \<and> c = c0\<lparr>c_dead := True, c_state := Dead, c_registered := r\<rparr>))"

definition not_message :: "delegate_call \<Rightarrow> bool" where
  "not_message d \<longleftrightarrow> (\<forall>from p. d \<noteq> Message_received from p)"

definition not_connected :: "peer_id \<Rightarrow> 'k manager \<Rightarrow> bool" where
  "not_connected i m \<longleftrightarrow> (\<forall>r. map_of (pm_records m) i = Some r \<longrightarrow> pr_state r \<noteq> Connected)"

definition new_conn :: "'k mgr_env \<Rightarrow> conn \<Rightarrow> 'k manager \<Rightarrow> bool" where
  "new_conn E c m \<longleftrightarrow> fresh_conn (conn_env E) c \<and> c_state c = ConnectingOut \<and> c_ptr c \<notin> set (map c_ptr (pm_conns m) @ pm_building m)"

inductive mstep :: "'k mgr_env \<Rightarrow> level \<Rightarrow> 'k manager \<Rightarrow> 'k manager \<Rightarrow> bool" for E lv where
  Os: "mstep E lv m (m\<lparr>pm_os := k\<rparr>)"
| Arm: "mstep E lv m (m\<lparr>pm_loop := el\<rparr>)"
| Log: "not_message d \<Longrightarrow> mstep E lv m (emit d m)"
| Out: "find_conn (c_ptr c) m = Some c \<Longrightarrow> outbound (mgr_sys (me_sys E)) c c' \<Longrightarrow> mstep E lv m (put_conn c' m)"
| Closed: "just_died c m \<Longrightarrow> close_effect c m = Some m' \<Longrightarrow> mstep E lv m m'"
| Upd: "map_of (pm_records m) i = Some r \<Longrightarrow> pr_state r' = pr_state r \<Longrightarrow> pr_conn r' = pr_conn r \<Longrightarrow>
    mstep E lv m (m\<lparr>pm_records := AList.update i r' (pm_records m)\<rparr>)"
| Targets: "map t_dialing ts = map t_dialing (pm_targets m) \<Longrightarrow> mstep E lv m (m\<lparr>pm_targets := ts\<rparr>)"
| Bound: "lv \<noteq> Sending \<Longrightarrow> map_of (pm_static_dial_conn m) p = Some i \<Longrightarrow> i < length (pm_targets m) \<Longrightarrow> t_dialing t = None \<Longrightarrow>
    mstep E lv m (m\<lparr>pm_targets := (pm_targets m)[i := t], pm_static_dial_conn := AList.delete p (pm_static_dial_conn m)\<rparr>)"
| View: "mstep E lv m (m\<lparr>pm_membership := mb\<rparr>)"
| Reap: "\<forall>p\<in>set rs. (\<exists>c. find_conn p m = Some c \<and> c_dead c) \<or> p \<in> set (pm_building m) \<Longrightarrow>
    mstep E lv m (m\<lparr>pm_reap := pm_reap m @ rs, pm_reapScheduled := b\<rparr>)"
| New: "new_conn E c m \<Longrightarrow> mstep E lv m (m\<lparr>pm_conns := pm_conns m @ [c]\<rparr>)"
| Dial: "new_conn E c m \<Longrightarrow> i < length (pm_targets m) \<Longrightarrow> t_dialing (pm_targets m ! i) = None \<Longrightarrow>
    mstep E lv m (m\<lparr>pm_conns := pm_conns m @ [c], pm_targets := (pm_targets m)[i := (pm_targets m ! i)\<lparr>t_dialing := Some (c_ptr c)\<rparr>],
      pm_static_dial_conn := AList.update (c_ptr c) i (pm_static_dial_conn m)\<rparr>)"
| Rec: "lv \<noteq> Sending \<Longrightarrow> not_connected i m \<Longrightarrow> pr_state r \<noteq> Connected \<Longrightarrow> mstep E lv m (m\<lparr>pm_records := AList.update i r (pm_records m)\<rparr>)"
| Forget: "lv \<noteq> Sending \<Longrightarrow> mstep E lv m (m\<lparr>pm_records := AList.delete i (pm_records m)\<rparr>)"
| Install: "lv \<noteq> Sending \<Longrightarrow> find_conn (c_ptr c) m = Some c \<Longrightarrow> \<not> c_dead c \<Longrightarrow> c_state c = Established \<Longrightarrow>
    pr_state r = Connected \<Longrightarrow> pr_conn r = Some (c_ptr c) \<Longrightarrow>
    mstep E lv m (m\<lparr>pm_estab := AList.update (c_peerId c) (c_ptr c) (pm_estab m), pm_records := AList.update (c_peerId c) r (pm_records m)\<rparr>)"
| Names: "lv \<noteq> Sending \<Longrightarrow> mstep E lv m (m\<lparr>pm_names := ns, pm_idVersions := iv, pm_selfIdVersion := v, pm_lastIdFlood := t\<rparr>)"
| Route: "lv \<noteq> Sending \<Longrightarrow> router_step (me_cfg E) log_fwd e (pm_router m, []) = Some (gr, ds) \<Longrightarrow>
    mstep E lv m (m\<lparr>pm_router := gr, pm_calls := pm_calls m @ map (\<lambda>(from, payload). Message_received from payload) ds\<rparr>)"
| Loose: "lv = Unchecked \<Longrightarrow> mstep E lv m (m\<lparr>pm_estab := es, pm_records := rs\<rparr>)"
| Event: "lv = Entry \<Longrightarrow> find_conn (c_ptr c) m = Some c \<Longrightarrow> conn_move (conn_env E) c c' \<Longrightarrow> mstep E lv m (put_conn c' m)"
| Build: "lv = Entry \<Longrightarrow> p \<notin> set (map c_ptr (pm_conns m) @ pm_building m) \<Longrightarrow> mstep E lv m (m\<lparr>pm_building := p # pm_building m\<rparr>)"
| Own: "lv = Entry \<Longrightarrow> grown (conn_env E) c \<Longrightarrow> c_ptr c \<notin> set (map c_ptr (pm_conns m)) \<Longrightarrow> (c_ptr c \<in> set (pm_reap m) \<longrightarrow> c_dead c) \<Longrightarrow>
    mstep E lv m (m\<lparr>pm_building := remove1 (c_ptr c) (pm_building m), pm_conns := pm_conns m @ [c]\<rparr>)"
| Running: "lv = Entry \<Longrightarrow> mstep E lv m (m\<lparr>pm_running := b\<rparr>)"
| More: "lv = Entry \<Longrightarrow> \<forall>t\<in>set ts. t_dialing t = None \<Longrightarrow> mstep E lv m (m\<lparr>pm_targets := pm_targets m @ ts\<rparr>)"

abbreviation msteps :: "'k mgr_env \<Rightarrow> level \<Rightarrow> 'k manager \<Rightarrow> 'k manager \<Rightarrow> bool" where
  "msteps E lv \<equiv> (mstep E lv)\<^sup>*\<^sup>*"

lemma mstep_sending: "mstep E Sending m m' \<Longrightarrow> mstep E lv m m'"
  by (induction rule: mstep.induct) (auto intro: mstep.intros)

lemma msteps_sending: "msteps E Sending m m' \<Longrightarrow> msteps E lv m m'"
  by (erule mono_rtranclp [rule_format, rotated]) (rule mstep_sending)

lemma mstep_callback: "mstep E Callback m m' \<Longrightarrow> mstep E Entry m m'"
  by (induction rule: mstep.induct) (auto intro: mstep.intros)

lemma msteps_callback: "msteps E Callback m m' \<Longrightarrow> msteps E Entry m m'"
  by (erule mono_rtranclp [rule_format, rotated]) (rule mstep_callback)

lemma one: "mstep E lv m m' \<Longrightarrow> msteps E lv m m'"
  by (rule r_into_rtranclp)

lemma os_call_step:
  assumes "os_call f m = (x, m')"
  shows "msteps E lv m m'"
  using assms mstep.Os [of E lv m "snd (f (pm_os m))"] by (auto simp: os_call_def split: prod.splits)

lemma pm_now_step: "pm_now E' m = (now, m') \<Longrightarrow> msteps E lv m m'"
  unfolding pm_now_def by (rule os_call_step)

lemma arm_step: "msteps E lv m (arm E' d cb m)"
proof -
  obtain now m1 where n: "pm_now E' m = (now, m1)" by fastforce
  then have "msteps E lv m m1" by (rule pm_now_step)
  then show ?thesis using n mstep.Arm [of E lv m1] by (auto simp: arm_def intro: rtranclp.rtrancl_into_rtrancl)
qed

lemma sys_moves_os:
  assumes "sys_moves (conn_env E) m m'"
  shows "\<exists>k. m' = m\<lparr>pm_os := k\<rparr>"
proof -
  have os: "\<exists>k. m' = m\<lparr>pm_os := k\<rparr>" if "os_call f m = (x, m')" for f :: "_ \<Rightarrow> 'z \<times> _" and x
    using that by (auto simp: os_call_def split: prod.splits)
  have so: "\<exists>k. m' = m\<lparr>pm_os := k\<rparr>" if "(case x of (ok, e, k) \<Rightarrow> (ok, e, m\<lparr>pm_os := k\<rparr>)) = (ok, e, m')" for ok e and x :: "bool \<times> int \<times> _"
    using that by (auto split: prod.splits)
  have ge: "\<exists>k. m' = m\<lparr>pm_os := k\<rparr>" if "gen_ephemeral (map_option mgr_sodium cr) m = (ek, m')" for cr ek
  proof (cases cr)
    case None
    then have "m' = m\<lparr>pm_os := pm_os m\<rparr>" using that by (simp add: gen_ephemeral_def)
    then show ?thesis by blast
  next
    case (Some sd)
    then show ?thesis using that by (auto simp: gen_ephemeral_def mgr_sodium_def os_call_def split: prod.splits)
  qed
  show ?thesis
    using assms unfolding sys_moves_def by (auto simp: conn_env_def mgr_sys_def elim!: so dest!: os ge)
qed

lemma sys_moves_os_many: "(sys_moves (conn_env E))\<^sup>*\<^sup>* m m' \<Longrightarrow> \<exists>k. m' = m\<lparr>pm_os := k\<rparr>"
proof (induction rule: rtranclp_induct)
  case base
  show ?case by (rule exI [of _ "pm_os m"]) simp
next
  case (step m1 m2)
  then show ?case using sys_moves_os by fastforce
qed

section \<open>What steps keep\<close>

text \<open>
  Up to the level of callbacks, every connection of the vector keeps its core and stays in the
  vector, and an object under construction stays out of it.
\<close>

definition kept :: "'k mgr_env \<Rightarrow> 'k manager \<Rightarrow> 'k manager \<Rightarrow> bool" where
  "kept E m m' \<longleftrightarrow> (\<forall>q c. find_conn q m = Some c \<longrightarrow> (\<exists>c'. find_conn q m' = Some c' \<and> keeps (mgr_sys (me_sys E)) c c')) \<and>
     (\<forall>q\<in>set (pm_building m). find_conn q m = None \<longrightarrow> find_conn q m' = None) \<and> pm_building m' = pm_building m \<and>
     length (pm_targets m') = length (pm_targets m) \<and> (\<exists>new. map c_ptr (pm_conns m') = map c_ptr (pm_conns m) @ new)"

lemma keptD:
  assumes "kept E m m'"
  shows "find_conn q m = Some c \<Longrightarrow> \<exists>c'. find_conn q m' = Some c' \<and> keeps (mgr_sys (me_sys E)) c c'"
    and "q \<in> set (pm_building m) \<Longrightarrow> find_conn q m = None \<Longrightarrow> find_conn q m' = None" and "pm_building m' = pm_building m"
    and "length (pm_targets m') = length (pm_targets m)"
  using assms by (simp_all add: kept_def)

lemma kept_refl [simp]: "kept E m m"
  by (auto simp: kept_def)

lemma kept_trans:
  assumes "kept E a b" "kept E b c"
  shows "kept E a c"
proof -
  have "\<exists>c'. find_conn q c = Some c' \<and> keeps (mgr_sys (me_sys E)) x c'" if "find_conn q a = Some x" for q x
    using assms that keeps_trans unfolding kept_def by metis
  then show ?thesis using assms by (auto simp: kept_def)
qed

lemma keptI:
  assumes "pm_conns m' = pm_conns m" "pm_building m' = pm_building m" "length (pm_targets m') = length (pm_targets m)"
  shows "kept E m m'"
  using assms by (auto simp: kept_def find_conn_def)

lemma kept_put:
  assumes "find_conn (c_ptr c) m = Some c0" "keeps (mgr_sys (me_sys E)) c0 c"
  shows "kept E m (put_conn c m)"
  unfolding kept_def
proof (intro conjI allI impI ballI)
  fix q x assume x: "find_conn q m = Some x"
  show "\<exists>c'. find_conn q (put_conn c m) = Some c' \<and> keeps (mgr_sys (me_sys E)) x c'"
  proof (cases "q = c_ptr c")
    case True
    then show ?thesis using x assms find_put_same [of c m] by auto
  next
    case False
    then show ?thesis using x by auto
  qed
qed (simp_all add: find_put_None)

lemma close_effect_conns:
  "close_effect c m = Some m' \<Longrightarrow> pm_conns m' = pm_conns (put_conn c m) \<and> pm_building m' = pm_building m \<and> length (pm_targets m') = length (pm_targets m)"
  by (auto simp: close_effect_def free_static_slot_fields)

lemma mstep_kept:
  assumes "mstep E lv m m'" "lv \<noteq> Entry"
  shows "kept E m m'"
  using assms
proof induction
  case (Out c m c')
  then have "keeps (mgr_sys (me_sys E)) c c'" by (simp add: outbound_def)
  moreover from this have "c_ptr c' = c_ptr c" by (rule keeps_fields(1))
  ultimately show ?case using Out kept_put [of c' m c E] by simp
next
  case (Closed c m m')
  note ce = close_effect_conns [OF Closed(2)]
  have "kept E m (put_conn c m)"
  proof (cases "find_conn (c_ptr c) m")
    case None
    then show ?thesis by (simp add: put_absent)
  next
    case (Some c0)
    then obtain r where "\<not> c_dead c0" "c = c0\<lparr>c_dead := True, c_state := Dead, c_registered := r\<rparr>" using Closed(1) by (auto simp: just_died_def)
    then have "keeps (mgr_sys (me_sys E)) c0 c" by (simp add: keeps_def core_def)
    with Some show ?thesis by (rule kept_put)
  qed
  moreover have "kept E (put_conn c m) m'" by (rule keptI) (use ce in simp_all)
  ultimately show ?case by (rule kept_trans)
next
  case (New c m)
  then show ?case by (auto simp: kept_def new_conn_def find_conn_def find_append split: option.splits)
next
  case (Dial c m i)
  then show ?case by (auto simp: kept_def new_conn_def find_conn_def find_append split: option.splits)
next
  case (Targets ts m)
  then show ?case using map_eq_imp_length_eq by (fastforce intro!: keptI)
qed (auto intro!: keptI simp: emit_def)

lemma msteps_kept: "msteps E lv m m' \<Longrightarrow> lv \<noteq> Entry \<Longrightarrow> kept E m m'"
  by (induction rule: rtranclp_induct) (auto intro: kept_trans mstep_kept)

text \<open>Sending delivers nothing to the application, and neither reads nor writes the router.\<close>

fun message_of :: "delegate_call \<Rightarrow> (peer_id \<times> bytes) option" where
  "message_of (Message_received from payload) = Some (from, payload)"
| "message_of _ = None"

definition delivered :: "'k manager \<Rightarrow> (peer_id \<times> bytes) list" where
  "delivered m = List.map_filter message_of (pm_calls m)"

lemma not_message_of: "not_message d \<longleftrightarrow> message_of d = None"
  by (cases d) (auto simp: not_message_def)

lemma delivered_emit [simp]: "not_message d \<Longrightarrow> delivered (emit d m) = delivered m"
  by (simp add: delivered_def emit_def not_message_of map_filter_def)

lemma delivered_cong: "pm_calls m' = pm_calls m \<Longrightarrow> delivered m' = delivered m"
  by (simp add: delivered_def)

lemma close_effect_fields:
  "close_effect c m = Some m' \<Longrightarrow> pm_calls m' = pm_calls m \<and> pm_router m' = pm_router m \<and> pm_running m' = pm_running m"
  by (auto simp: close_effect_def free_static_slot_fields)

lemma mstep_sending_frame:
  assumes "mstep E Sending m m'"
  shows "delivered m' = delivered m \<and> pm_router m' = pm_router m"
  using assms
  by cases (auto simp: put_conn_def emit_def intro: delivered_cong dest: close_effect_fields delivered_emit [unfolded emit_def])

lemma msteps_sending_frame: "msteps E Sending m m' \<Longrightarrow> delivered m' = delivered m \<and> pm_router m' = pm_router m"
  by (induction rule: rtranclp_induct) (auto dest: mstep_sending_frame)

lemma close_parts_router:
  "free_static_slot p (m\<lparr>pm_router := gr\<rparr>) = map_option (\<lambda>m. m\<lparr>pm_router := gr\<rparr>) (free_static_slot p m)"
  "detach_estab c (m\<lparr>pm_router := gr\<rparr>) = (detach_estab c m)\<lparr>pm_router := gr\<rparr>"
  "release_effect c (m\<lparr>pm_router := gr\<rparr>) = (release_effect c m)\<lparr>pm_router := gr\<rparr>"
  "put_conn c (m\<lparr>pm_router := gr\<rparr>) = (put_conn c m)\<lparr>pm_router := gr\<rparr>"
  by (simp_all add: free_static_slot_def detach_estab_def release_effect_def owning_record_def put_conn_def split: option.split)

lemma close_effect_router:
  assumes "close_effect c m = Some m'"
  shows "close_effect c (m\<lparr>pm_router := gr\<rparr>) = Some (m'\<lparr>pm_router := gr\<rparr>)"
  using assms by (auto simp: close_effect_def close_parts_router)

lemma mstep_eq: "mstep E lv m b \<Longrightarrow> b = b' \<Longrightarrow> mstep E lv m b'"
  by simp

lemma mstep_router:
  assumes "mstep E Sending m m'"
  shows "mstep E Sending (m\<lparr>pm_router := gr\<rparr>) (m'\<lparr>pm_router := gr\<rparr>)"
  using assms
proof cases
  case (Closed c)
  then show ?thesis using mstep.Closed [of c "m\<lparr>pm_router := gr\<rparr>", OF _ close_effect_router] by (simp add: just_died_def)
next
  case (Out c c')
  then show ?thesis by (intro mstep_eq [OF mstep.Out [of c "m\<lparr>pm_router := gr\<rparr>" E c']]) (simp_all add: put_conn_def)
next
  case (Log d)
  then show ?thesis by (intro mstep_eq [OF mstep.Log [of d]]) (simp_all add: emit_def)
next
  case (New c)
  then show ?thesis by (intro mstep_eq [OF mstep.New [of E c]]) (simp_all add: new_conn_def)
next
  case (Dial c i)
  then show ?thesis by (intro mstep_eq [OF mstep.Dial [of E c _ i]]) (simp_all add: new_conn_def)
next
  case (Upd i r r')
  then show ?thesis by (intro mstep_eq [OF mstep.Upd [of _ i r r']]) simp_all
next
  case (Targets ts)
  then show ?thesis by (intro mstep_eq [OF mstep.Targets [of ts]]) simp_all
next
  case (Reap rs b)
  then show ?thesis by (intro mstep_eq [OF mstep.Reap [where rs = rs and b = b]]) simp_all
next
  case (Os k)
  then show ?thesis by (intro mstep_eq [OF mstep.Os [where k = k]]) simp
next
  case (Arm el)
  then show ?thesis by (intro mstep_eq [OF mstep.Arm [where el = el]]) simp
next
  case (View mb)
  then show ?thesis by (intro mstep_eq [OF mstep.View [where mb = mb]]) simp
qed simp_all

lemma msteps_router: "msteps E Sending m m' \<Longrightarrow> msteps E Sending (m\<lparr>pm_router := gr\<rparr>) (m'\<lparr>pm_router := gr\<rparr>)"
  by (induction rule: rtranclp_induct) (auto intro: rtranclp.rtrancl_into_rtrancl mstep_router)

section \<open>Sending is a sequence of steps\<close>

text \<open>
  An operation of the connection \<open>c\<close> acts on \<open>(c, m)\<close> while the vector still holds an older value; the
  state it stands for is \<open>put_conn c m\<close>.  \<open>closes_by E L\<close>: the closings of \<open>L\<close> are steps.
\<close>

definition present :: "conn \<Rightarrow> 'k manager \<Rightarrow> bool" where
  "present c m \<longleftrightarrow> find_conn (c_ptr c) m \<noteq> None \<or> c_ptr c \<in> set (pm_building m)"

definition closes_by :: "'k mgr_env \<Rightarrow> 'k manager listener_ops \<Rightarrow> bool" where
  "closes_by E L \<longleftrightarrow> cl_error L = (\<lambda>e. emit (On_error e)) \<and>
     (\<forall>c r m c' m'. present c m \<longrightarrow> \<not> c_dead c \<longrightarrow> cl_closed L (c\<lparr>c_dead := True, c_state := Dead, c_registered := r\<rparr>, m) = Some (c', m') \<longrightarrow>
        c_ptr c' = c_ptr c \<and> msteps E Sending (put_conn c m) (put_conn c' m'))"

lemma keeps_ptr: "keeps sys c c' \<Longrightarrow> c_ptr c' = c_ptr c"
  by (rule keeps_fields(1))

lemma ev_sys_conn_env [simp]: "ev_sys (conn_env E) = mgr_sys (me_sys E)"
  by (simp add: conn_env_def)

lemma out_step:
  assumes "outbound (mgr_sys (me_sys E)) c c'"
  shows "msteps E lv (put_conn c m) (put_conn c' m)"
proof -
  have p: "c_ptr c' = c_ptr c" using assms keeps_ptr [of "mgr_sys (me_sys E)" c c'] by (simp add: outbound_def)
  show ?thesis
  proof (cases "find_conn (c_ptr c) m")
    case None
    then show ?thesis using p by (simp add: put_absent)
  next
    case (Some d)
    then have "find_conn (c_ptr c) (put_conn c m) = Some c" by (simp add: find_put_same)
    from mstep.Out [OF this assms, of lv] show ?thesis unfolding put_put [OF p] by (rule one)
  qed
qed

lemma present_put [simp]: "present c (put_conn d m) = present c m"
  by (simp add: present_def find_put_None)

lemma present_kept:
  assumes "present c m" "kept E m m'" "c_ptr c' = c_ptr c"
  shows "present c' m'"
  using assms(1,3) keptD(1) [OF assms(2), of "c_ptr c"] keptD(3) [OF assms(2)] by (auto simp: present_def)

lemma send_step_flat:
  assumes "send_step (conn_env E) L s s'" "closes_by E L" "present (fst s) (snd s)"
  shows "c_ptr (fst s') = c_ptr (fst s) \<and> msteps E Sending (put_conn (fst s) (snd s)) (put_conn (fst s') (snd s'))"
  using assms(1)
proof cases
  case (Sys w w' c)
  from sys_moves_os [OF Sys(3)] Sys(1,2) show ?thesis by (auto intro!: one mstep.Os)
next
  case (Outbound c c' w)
  then show ?thesis using out_step [of E c c'] keeps_ptr [of "mgr_sys (me_sys E)" c c'] by (auto simp: outbound_def)
next
  case (Report c w e)
  then show ?thesis using assms(2) by (auto simp: closes_by_def not_message_def intro!: mstep.Log)
next
  case (Close c r w)
  then show ?thesis using assms(2,3) by (cases s') (auto simp: closes_by_def)
qed

lemma sends_flat:
  assumes "sends (conn_env E) L s s'" "closes_by E L" "present (fst s) (snd s)"
  shows "c_ptr (fst s') = c_ptr (fst s) \<and> msteps E Sending (put_conn (fst s) (snd s)) (put_conn (fst s') (snd s')) \<and> present (fst s') (snd s')"
  using assms(1)
proof induction
  case base
  then show ?case using assms(3) by simp
next
  case (step s1 s2)
  from send_step_flat [OF step(2) assms(2)] step(3) have
    s2: "c_ptr (fst s2) = c_ptr (fst s1)" "msteps E Sending (put_conn (fst s1) (snd s1)) (put_conn (fst s2) (snd s2))" by auto
  moreover from this have "present (fst s2) (snd s2)" using present_kept [OF _ msteps_kept [OF s2(2)], of "fst s1" "fst s2"] step(3) by simp
  ultimately show ?case using step(3) by (auto intro: rtranclp_trans)
qed

lemma with_conn_sends:
  assumes "with_conn p f m = Some m'" "closes_by E L" "\<And>s s'. f s = Some s' \<Longrightarrow> sends (conn_env E) L s s'"
  shows "msteps E lv m m'"
proof -
  from assms(1) obtain c c' m1 where c: "find_conn p m = Some c" "f (c, m) = Some (c', m1)" "m' = put_conn c' m1"
    by (auto simp: with_conn_def bind_eq_Some_conv)
  have p: "c_ptr c = p" using c(1) by (rule find_conn_ptr)
  have "put_conn c m = m" using c(1) p by (intro put_id) simp
  moreover have "present c m" using c(1) p by (simp add: present_def)
  ultimately have "msteps E Sending m m'" using sends_flat [OF assms(3) [OF c(2)] assms(2)] c(3) by simp
  then show ?thesis by (rule msteps_sending)
qed

lemma send_all_steps: "send_all E L frame ps m = Some m' \<Longrightarrow> closes_by E L \<Longrightarrow> msteps E lv m m'"
proof (induction ps arbitrary: m)
  case (Cons p ps)
  then obtain m1 where "with_conn p (send_raw (conn_env E) L frame) m = Some m1" "send_all E L frame ps m1 = Some m'"
    by (auto simp: bind_eq_Some_conv)
  then show ?case using with_conn_sends [OF _ Cons.prems(2) send_raw_sends] Cons.IH Cons.prems(2) by (meson rtranclp_trans)
qed simp

lemma forward_except_steps: "pm_forward_except E L frame fd m = Some m' \<Longrightarrow> closes_by E L \<Longrightarrow> msteps E lv m m'"
  by (auto simp: pm_forward_except_def bind_eq_Some_conv intro: send_all_steps)

lemma forward_to_steps: "pm_forward_to E L dst frame m = Some (b, m') \<Longrightarrow> closes_by E L \<Longrightarrow> msteps E lv m m'"
  by (auto simp: pm_forward_to_def bind_eq_Some_conv split: option.splits intro: with_conn_sends send_raw_sends)

lemma log_step: "not_message d \<Longrightarrow> mstep E lv m (emit d m)"
  by (rule mstep.Log) simp

lemma log_steps: "not_message d \<Longrightarrow> msteps E lv (emit d m) m' \<Longrightarrow> msteps E lv m m'"
  by (rule converse_rtranclp_into_rtranclp [where r = "mstep E lv"]) (rule log_step)

lemma log_two: "not_message d \<Longrightarrow> not_message d' \<Longrightarrow> msteps E lv m (emit d' (emit d m))"
  by (meson log_steps one log_step)

lemma not_messageI [simp, intro]:
  "not_message (Peer_discovered i)" "not_message (Peer_connected i)" "not_message (Peer_disconnected i)" "not_message (Peer_lost i)"
  "not_message (Member_event c)" "not_message (On_error e)" "not_message (Connected_snapshot is)" "not_message (Known_snapshot is)"
  "not_message (Names_snapshot ns)"
  by (simp_all add: not_message_def)

lemma mb_perform_steps: "mb_perform E L calls m = Some m' \<Longrightarrow> closes_by E L \<Longrightarrow> msteps E lv m m'"
proof (induction E L calls m rule: mb_perform.induct)
  case (2 E L frame fd calls m)
  then obtain m1 where m1: "pm_forward_except E L frame fd m = Some m1" "mb_perform E L calls m1 = Some m'"
    by (auto simp: bind_eq_Some_conv)
  from forward_except_steps [OF m1(1) 2(3)] 2(1) [OF m1 2(3)] show ?case by (rule rtranclp_trans)
qed (auto simp: not_message_def intro: log_steps)

lemma mb_apply_steps:
  assumes "mb_apply E L f m = Some m'" "closes_by E L"
  shows "msteps E lv m m'"
proof -
  obtain mb calls where f: "f (pm_membership m) = (mb, calls)" by fastforce
  have "mstep E lv m (m\<lparr>pm_membership := mb\<rparr>)" by (rule mstep.View)
  moreover have "msteps E lv (m\<lparr>pm_membership := mb\<rparr>) m'" using assms f by (auto simp: mb_apply_def intro: mb_perform_steps)
  ultimately show ?thesis by (rule converse_rtranclp_into_rtranclp)
qed

lemma update_local_membership_steps:
  assumes "update_local_membership E L m = Some m'" "closes_by E L"
  shows "msteps E lv m m'"
proof -
  obtain now m1 where n: "pm_now E m = (now, m1)" by fastforce
  then have "mb_apply E L (set_local_neighbors (map fst (pm_estab m)) now) m1 = Some m'"
    using assms(1) by (simp add: update_local_membership_def)
  from mb_apply_steps [OF this assms(2)] pm_now_step [OF n] show ?thesis by (meson rtranclp_trans)
qed

section \<open>Dialling and closing are sequences of steps\<close>

lemma report_link_steps:
  assumes "update_local_membership E L (emit_connected_snapshot (emit d m)) = Some m'" "closes_by E L" "not_message d"
  shows "msteps E lv m m'"
proof -
  have "msteps E lv m (emit_connected_snapshot (emit d m))"
    unfolding emit_connected_snapshot_def using assms(3) by (rule log_two) simp
  then show ?thesis using update_local_membership_steps [OF assms(1,2)] by (rule rtranclp_trans)
qed

lemma jittered_backoff_step: "jittered_backoff E a m = (d, m') \<Longrightarrow> msteps E lv m m'"
  by (auto simp: jittered_backoff_def Let_def split: prod.splits intro: os_call_step)

lemma os_call_frame: "os_call f m = (x, m') \<Longrightarrow> \<exists>k. m' = m\<lparr>pm_os := k\<rparr>"
  by (auto simp: os_call_def split: prod.splits)

lemma jittered_backoff_frame: "jittered_backoff E a m = (d, m') \<Longrightarrow> \<exists>k. m' = m\<lparr>pm_os := k\<rparr>"
  by (auto simp: jittered_backoff_def Let_def split: prod.splits dest: os_call_frame)

lemma resolve_endpoint_step: "resolve_endpoint E h p m = (r, m') \<Longrightarrow> msteps E lv m m'"
  by (auto simp: resolve_endpoint_def split: option.splits prod.splits intro: os_call_step)

lemma alloc_fresh:
  assumes "alloc E m = (p, m')"
  shows "p \<notin> set (map c_ptr (pm_conns m') @ pm_building m')" "\<exists>k. m' = m\<lparr>pm_os := k\<rparr>"
proof -
  obtain q m1 where q: "os_call (me_new E) m = (q, m1)" by fastforce
  then have "m' = m1" "p = new_addr (map c_ptr (pm_conns m1) @ pm_building m1 @ me_objs E) q" using assms by (auto simp: alloc_def)
  then show "p \<notin> set (map c_ptr (pm_conns m') @ pm_building m')" "\<exists>k. m' = m\<lparr>pm_os := k\<rparr>"
    using new_addr_fresh(1) [of "map c_ptr (pm_conns m1) @ pm_building m1 @ me_objs E" q] os_call_frame [OF q] by simp_all
qed

text \<open>
  What happens between owning a fresh connection and connecting it: a change \<open>f\<close> of other
  fields that, with the owning, is a sequence of steps.
\<close>

definition dial_note :: "'k mgr_env \<Rightarrow> level \<Rightarrow> (nat \<Rightarrow> 'k manager \<Rightarrow> 'k manager) \<Rightarrow> 'k manager \<Rightarrow> bool" where
  "dial_note E lv f m \<longleftrightarrow> (\<forall>c k. new_conn E c m \<longrightarrow>
     (let mc = (\<lambda>c k. m\<lparr>pm_os := k, pm_conns := pm_conns m @ [c]\<rparr>); p = c_ptr c in
      pm_conns (f p (mc c k)) = pm_conns m @ [c] \<and>
      (\<forall>c' k'. (f p (mc c k))\<lparr>pm_conns := pm_conns m @ [c'], pm_os := k'\<rparr> = f p (mc c' k')) \<and>
      msteps E lv (m\<lparr>pm_os := k\<rparr>) (f p (mc c k))))"

lemma dial_noteD:
  assumes "dial_note E lv f m" "new_conn E c m"
  shows "pm_conns (f (c_ptr c) (m\<lparr>pm_os := k, pm_conns := pm_conns m @ [c]\<rparr>)) = pm_conns m @ [c]"
    "(f (c_ptr c) (m\<lparr>pm_os := k, pm_conns := pm_conns m @ [c]\<rparr>))\<lparr>pm_conns := pm_conns m @ [c'], pm_os := k'\<rparr> =
     f (c_ptr c) (m\<lparr>pm_os := k', pm_conns := pm_conns m @ [c']\<rparr>)"
    "msteps E lv (m\<lparr>pm_os := k\<rparr>) (f (c_ptr c) (m\<lparr>pm_os := k, pm_conns := pm_conns m @ [c]\<rparr>))"
  using assms unfolding dial_note_def Let_def by blast+

lemma dial_with_steps:
  assumes "dial_with E L addr f m = Some m'" "closes_by E L" "dial_note E lv f m"
  shows "msteps E lv m m'"
proof -
  obtain nonce m1 where r: "os_call (me_rand E) m = (nonce, m1)" by fastforce
  obtain p m2 where a: "alloc E m1 = (p, m2)" by fastforce
  obtain c m3 where d: "dial_conn (conn_env E) p addr nonce m2 = (c, m3)" by fastforce
  obtain k where k: "m3 = m\<lparr>pm_os := k\<rparr>"
  proof -
    have "\<exists>k. m3 = m2\<lparr>pm_os := k\<rparr>"
      using d by (auto simp: dial_conn_def conn_env_def mgr_sys_def split: prod.splits dest: os_call_frame)
    then show ?thesis using that os_call_frame [OF r] alloc_fresh(2) [OF a] by auto
  qed
  obtain now where ci: "c = conn_init p (-1) addr False ConnectingOut nonce (li_secure (ev_self (conn_env E))) now"
    using d by (auto simp: dial_conn_def split: prod.splits)
  have fresh: "p \<notin> set (map c_ptr (pm_conns m) @ pm_building m)"
    using alloc_fresh [OF a] os_call_frame [OF r] by auto
  have new: "new_conn E (c\<lparr>c_fd := fd, c_registered := reg, c_wantWrite := ww\<rparr>) m" for fd reg ww
    using fresh by (auto simp: new_conn_def fresh_conn_def ci conn_init_def)
  have cp: "c_ptr c = p" by (simp add: ci conn_init_def)
  let ?cs = "pm_conns m"
  let ?m4 = "m\<lparr>pm_os := k, pm_conns := ?cs @ [c]\<rparr>"
  have nc: "new_conn E c m" using new [where fd = "c_fd c" and reg = "c_registered c" and ww = "c_wantWrite c"] by simp
  note note_f = dial_noteD [OF assms(3) nc, unfolded cp]
  have nf: "List.find (\<lambda>d. c_ptr d = p) ?cs = None" using fresh by (auto simp: find_None_iff)
  then have fc: "find_conn p (f p ?m4) = Some c" using note_f(1) cp by (simp add: find_conn_def find_append)
  have "with_conn p (\<lambda>s. map_option snd (start_connect (conn_env E) L s)) (f p ?m4) = Some m'"
    using assms(1) r a d k by (simp add: dial_with_def)
  then obtain ok c' mz where sc: "start_connect (conn_env E) L (c, f p ?m4) = Some (ok, c', mz)" and m': "m' = put_conn c' mz"
    using fc by (auto simp: with_conn_def bind_eq_Some_conv)
  from start_connect_fst [OF sc] obtain fd reg ww mx where
    s: "sends (conn_env E) L (c\<lparr>c_fd := fd, c_registered := reg, c_wantWrite := ww\<rparr>, mx) (c', mz)" and
    mx: "(sys_moves (conn_env E))\<^sup>*\<^sup>* (f p ?m4) mx" by blast
  let ?c2 = "c\<lparr>c_fd := fd, c_registered := reg, c_wantWrite := ww\<rparr>"
  obtain k' where k': "mx = (f p ?m4)\<lparr>pm_os := k'\<rparr>" using sys_moves_os_many [OF mx] by blast
  have "put_conn ?c2 mx = (f p ?m4)\<lparr>pm_conns := ?cs @ [?c2], pm_os := k'\<rparr>"
    using k' note_f(1) nf cp by (simp add: put_conn_def put_first_append)
  also have "\<dots> = f p (m\<lparr>pm_os := k', pm_conns := ?cs @ [?c2]\<rparr>)" by (rule note_f(2))
  finally have pc: "put_conn ?c2 mx = f p (m\<lparr>pm_os := k', pm_conns := ?cs @ [?c2]\<rparr>)" .
  have "mstep E lv m (m\<lparr>pm_os := k'\<rparr>)" by (rule mstep.Os)
  moreover have "msteps E lv (m\<lparr>pm_os := k'\<rparr>) (put_conn ?c2 mx)" unfolding pc using dial_noteD(3) [OF assms(3) new [where fd = fd and reg = reg and ww = ww], of k'] cp by simp
  moreover have "present ?c2 mx" using k' note_f(1) cp by (simp add: present_def find_conn_None)
  then have "msteps E lv (put_conn ?c2 mx) m'" using sends_flat [OF s assms(2)] m' msteps_sending by auto
  ultimately show ?thesis by (meson converse_rtranclp_into_rtranclp rtranclp_trans)
qed

lemma new_conn_os [simp]: "new_conn E c (m\<lparr>pm_os := k\<rparr>) = new_conn E c m"
  by (simp add: new_conn_def)

lemma new_step: "new_conn E c m \<Longrightarrow> mstep E lv (m\<lparr>pm_os := k\<rparr>) (m\<lparr>pm_os := k, pm_conns := pm_conns m @ [c]\<rparr>)"
  using mstep.New [of E c "m\<lparr>pm_os := k\<rparr>" lv] by simp

lemma dial_note_id: "dial_note E lv (\<lambda>p m. m) m"
  by (auto simp: dial_note_def Let_def intro: one new_step)

lemma dial_note_static:
  assumes "i < length (pm_targets m)" "t_dialing (pm_targets m ! i) = None"
  shows "dial_note E lv (\<lambda>p m2. m2\<lparr>pm_targets := (pm_targets m2)[i := (pm_targets m2 ! i)\<lparr>t_dialing := Some p\<rparr>],
     pm_static_dial_conn := AList.update p i (pm_static_dial_conn m2)\<rparr>) m"
proof -
  have "mstep E lv (m\<lparr>pm_os := k\<rparr>) (m\<lparr>pm_os := k, pm_conns := pm_conns m @ [c],
      pm_targets := (pm_targets m)[i := (pm_targets m ! i)\<lparr>t_dialing := Some (c_ptr c)\<rparr>],
      pm_static_dial_conn := AList.update (c_ptr c) i (pm_static_dial_conn m)\<rparr>)" if "new_conn E c m" for c k
    using mstep.Dial [of E c "m\<lparr>pm_os := k\<rparr>" i lv] assms that by simp
  then show ?thesis by (auto simp: dial_note_def Let_def)
qed

lemma start_static_dial_steps:
  assumes "start_static_dial E L i m = Some m'" "closes_by E L" "i < length (pm_targets m)" "t_dialing (pm_targets m ! i) = None"
  shows "msteps E lv m m'"
proof -
  let ?t = "pm_targets m ! i"
  obtain r m1 where r: "resolve_endpoint E (t_host ?t) (t_port ?t) m = (r, m1)" by fastforce
  have "msteps E lv m1 m'"
  proof (cases r)
    case None
    then show ?thesis using assms(1) r by (auto simp: start_static_dial_def not_message_def intro!: one log_step)
  next
    case (Some addr)
    have "pm_targets m1 = pm_targets m" using r by (auto simp: resolve_endpoint_def os_call_def split: option.splits prod.splits)
    then show ?thesis
      using assms r Some dial_with_steps [OF _ assms(2) dial_note_static [of i m1]] by (auto simp: start_static_dial_def Let_def)
  qed
  then show ?thesis using resolve_endpoint_step [OF r] by (rule rtranclp_trans [rotated])
qed

lemma targets_step: "t_dialing t = t_dialing (pm_targets m ! i) \<Longrightarrow> mstep E lv m (m\<lparr>pm_targets := (pm_targets m)[i := t]\<rparr>)"
  by (rule mstep.Targets) (metis list_update_id map_update)

lemma maintain_loop_steps:
  "maintain_loop E L now is m = Some m' \<Longrightarrow> closes_by E L \<Longrightarrow> \<forall>i\<in>set is. i < length (pm_targets m) \<Longrightarrow> msteps E Sending m m'"
proof (induction E L now "is" m rule: maintain_loop.induct)
  case (2 E L now i "is" m)
  let ?t = "pm_targets m ! i"
  let ?linked = "case t_learnedId ?t of None \<Rightarrow> False | Some j \<Rightarrow> map_of (pm_estab m) j \<noteq> None"
  obtain delay m1 where b: "jittered_backoff E (t_attempts ?t) m = (delay, m1)" by fastforce
  consider "?linked" | "\<not> ?linked" "t_dialing ?t \<noteq> None \<or> now < t_nextAttempt ?t" | "\<not> ?linked" "t_dialing ?t = None" "\<not> now < t_nextAttempt ?t" by blast
  then show ?case
  proof cases
    case 1
    have "mstep E Sending m (m\<lparr>pm_targets := (pm_targets m)[i := ?t\<lparr>t_attempts := 0\<rparr>]\<rparr>)" by (rule targets_step) simp
    moreover have "msteps E Sending (m\<lparr>pm_targets := (pm_targets m)[i := ?t\<lparr>t_attempts := 0\<rparr>]\<rparr>) m'"
      using 2(1) [OF refl 1 _ 2(6)] 2(5,7) 1 by (simp add: Let_def)
    ultimately show ?thesis by (rule converse_rtranclp_into_rtranclp)
  next
    case x: 2
    then show ?thesis using 2(2) [OF refl x(1)] 2(3) [OF refl x(1)] 2(5-7) by (auto simp: Let_def split: if_splits)
  next
    case x: 3
    let ?m1 = "m1\<lparr>pm_targets := (pm_targets m1)[i := ?t\<lparr>t_nextAttempt := now + ms delay, t_attempts := t_attempts ?t + 1\<rparr>]\<rparr>"
    from 2(5) x b obtain m2 where m2: "start_static_dial E L i ?m1 = Some m2" "maintain_loop E L now is m2 = Some m'"
      by (auto simp: Let_def bind_eq_Some_conv)
    have eq: "pm_targets m1 = pm_targets m" using jittered_backoff_frame [OF b] by auto
    have "msteps E Sending m m1" using b by (rule jittered_backoff_step)
    moreover have "mstep E Sending m1 ?m1" by (rule targets_step) (simp add: eq)
    moreover have s2: "msteps E Sending ?m1 m2" using start_static_dial_steps [OF m2(1) 2(6)] 2(7) x(2) eq by simp
    moreover have "\<forall>i\<in>set is. i < length (pm_targets m2)" using keptD(4) [OF msteps_kept [OF s2]] 2(7) eq by simp
    then have "msteps E Sending m2 m'" using 2(4) [OF refl x(1) _ x(3) b [symmetric] m2 2(6)] x(2) by simp
    ultimately show ?thesis by (meson converse_rtranclp_into_rtranclp rtranclp_trans)
  qed
qed simp

lemma maintain_static_peers_steps:
  assumes "maintain_static_peers E L m = Some m'" "closes_by E L"
  shows "msteps E lv m m'"
proof -
  obtain now m1 where n: "pm_now E m = (now, m1)" by fastforce
  then show ?thesis
    using assms pm_now_step [OF n, of E lv]
    by (auto simp: maintain_static_peers_def split: if_splits dest!: maintain_loop_steps intro: rtranclp_trans msteps_sending)
qed

lemma schedule_reconnect_steps:
  assumes "map_of (pm_records m) i = Some r"
  shows "msteps E lv m (schedule_reconnect E i r m)"
proof -
  obtain d m1 where b: "jittered_backoff E (pr_reconnectAttempts r) m = (d, m1)" by fastforce
  from jittered_backoff_frame [OF b] have "map_of (pm_records m1) i = Some r" using assms by auto
  then have "mstep E lv m1 (m1\<lparr>pm_records := AList.update i (r\<lparr>pr_reconnectAttempts := pr_reconnectAttempts r + 1\<rparr>) (pm_records m1)\<rparr>)"
    by (rule mstep.Upd) simp_all
  with jittered_backoff_step [OF b, of lv]
  have "msteps E lv m (m1\<lparr>pm_records := AList.update i (r\<lparr>pr_reconnectAttempts := pr_reconnectAttempts r + 1\<rparr>) (pm_records m1)\<rparr>)"
    by (rule rtranclp.rtrancl_into_rtrancl)
  from rtranclp_trans [OF this arm_step [of E lv _ E "ms d" "Reconnect_cb (pr_id r)"]] show ?thesis using b by (auto simp: schedule_reconnect_def)
qed

text \<open>After the effect on the state, \<open>on_peer_closed\<close> tells the delegate, floods, and redials.\<close>

lemma release_record_steps:
  assumes "release_record E L i r m = Some m'" "closes_by E L"
  shows "msteps E lv (m\<lparr>pm_records := AList.update i (r\<lparr>pr_conn := None, pr_state := Disconnected\<rparr>) (pm_records m)\<rparr>) m'"
proof -
  let ?m1 = "m\<lparr>pm_records := AList.update i (r\<lparr>pr_conn := None, pr_state := Disconnected\<rparr>) (pm_records m)\<rparr>"
  from assms(1) obtain m2 r2 where
    m2: "(if pr_state r = Connected then update_local_membership E L (emit_connected_snapshot (emit (Peer_disconnected (pr_id r)) ?m1)) else Some ?m1) = Some m2"
    and r2: "map_of (pm_records m2) i = Some r2"
    and m': "(if pr_isStatic r2 then maintain_static_peers E L m2 else Some (schedule_reconnect E i r2 m2)) = Some m'"
    by (auto simp: release_record_def Let_def bind_eq_Some_conv)
  have "msteps E lv ?m1 m2"
  proof (cases "pr_state r = Connected")
    case True
    then show ?thesis using m2 report_link_steps [OF _ assms(2), of "Peer_disconnected (pr_id r)"] by simp
  qed (use m2 in simp)
  moreover have "msteps E lv m2 m'"
    using m' assms(2) schedule_reconnect_steps [OF r2] by (auto split: if_splits intro: maintain_static_peers_steps)
  ultimately show ?thesis by (rule rtranclp_trans)
qed

lemma schedule_reap_step: "msteps E lv m (schedule_reap E' m)"
proof -
  have "mstep E lv m (m\<lparr>pm_reapScheduled := True\<rparr>)" using mstep.Reap [where m = m and rs = "[]" and b = True] by simp
  then show ?thesis using arm_step [of E lv "m\<lparr>pm_reapScheduled := True\<rparr>" E' 0 Reap_cb]
    by (simp add: schedule_reap_def converse_rtranclp_into_rtranclp)
qed

lemma closed_body_split:
  assumes "closed_body E L c (put_conn c m) = Some m'" "closes_by E L"
  shows "\<exists>me m3. close_effect c m = Some me \<and> msteps E Sending me m3 \<and> m' = schedule_reap E (m3\<lparr>pm_reap := pm_reap m3 @ [c_ptr c]\<rparr>)"
proof -
  from assms(1) obtain m1 m3 where m1: "free_static_slot (c_ptr c) (put_conn c m) = Some m1" and
    m3: "(case owning_record c (detach_estab c m1) of None \<Rightarrow> Some (detach_estab c m1)
          | Some i \<Rightarrow> (case map_of (pm_records (detach_estab c m1)) i of None \<Rightarrow> Some (detach_estab c m1)
              | Some r \<Rightarrow> if pr_conn r = Some (c_ptr c) then release_record E L i r (detach_estab c m1) else Some (detach_estab c m1))) = Some m3"
    and m': "m' = schedule_reap E (m3\<lparr>pm_reap := pm_reap m3 @ [c_ptr c]\<rparr>)"
    by (auto simp: closed_body_def Let_def bind_eq_Some_conv)
  have me: "close_effect c m = Some (release_effect c (detach_estab c m1))" using m1 by (simp add: close_effect_def)
  have "msteps E Sending (release_effect c (detach_estab c m1)) m3"
    using m3 assms(2) by (auto simp: release_effect_def simp del: detach_estab_fields split: option.splits if_splits intro: release_record_steps)
  then show ?thesis using me m' by blast
qed

lemma closed_body_kept:
  assumes "closed_body E L c (put_conn c m) = Some m'" "closes_by E L"
  shows "kept E (put_conn c m) m'"
proof -
  from closed_body_split [OF assms] obtain me m3 where me: "close_effect c m = Some me" "msteps E Sending me m3"
    and m': "m' = schedule_reap E (m3\<lparr>pm_reap := pm_reap m3 @ [c_ptr c]\<rparr>)" by blast
  have "kept E (put_conn c m) me" by (rule keptI) (use close_effect_conns [OF me(1)] in simp_all)
  moreover have "kept E me m3" using msteps_kept [OF me(2)] by simp
  moreover have "kept E m3 (m3\<lparr>pm_reap := pm_reap m3 @ [c_ptr c]\<rparr>)" by (rule keptI) simp_all
  moreover have "kept E (m3\<lparr>pm_reap := pm_reap m3 @ [c_ptr c]\<rparr>) m'"
    unfolding m' using msteps_kept [OF schedule_reap_step [of E Sending]] by simp
  ultimately show ?thesis by (meson kept_trans)
qed

lemma closed_body_rest:
  assumes "closed_body E L c (put_conn c m) = Some m'" "closes_by E L" "present c m" "c_dead c"
  shows "\<exists>me. close_effect c m = Some me \<and> msteps E lv me m'"
proof -
  from closed_body_split [OF assms(1,2)] obtain me m3 where me: "close_effect c m = Some me" and "msteps E Sending me m3"
    and m': "m' = schedule_reap E (m3\<lparr>pm_reap := pm_reap m3 @ [c_ptr c]\<rparr>)" by blast
  note this(2)
  moreover from this have k: "kept E me m3" by (rule msteps_kept) simp
  have "(\<exists>c'. find_conn (c_ptr c) m3 = Some c' \<and> c_dead c') \<or> c_ptr c \<in> set (pm_building m3)"
  proof (cases "find_conn (c_ptr c) m")
    case None
    then show ?thesis using assms(3) keptD(3) [OF k] close_effect_conns [OF me] by (simp add: present_def)
  next
    case (Some x)
    then have "find_conn (c_ptr c) me = Some c" using close_effect_conns [OF me] find_put_same [of c m] by (simp add: find_conn_def)
    from keptD(1) [OF k this] show ?thesis using assms(4) keeps_dead by blast
  qed
  then have "mstep E Sending m3 (m3\<lparr>pm_reap := pm_reap m3 @ [c_ptr c]\<rparr>)"
    using mstep.Reap [of "[c_ptr c]" m3 E Sending "pm_reapScheduled m3"] by simp
  moreover have "msteps E Sending (m3\<lparr>pm_reap := pm_reap m3 @ [c_ptr c]\<rparr>) m'" unfolding m' by (rule schedule_reap_step)
  ultimately have "msteps E Sending me m'" by (meson converse_rtranclp_into_rtranclp rtranclp_trans)
  then show ?thesis using me msteps_sending by blast
qed

lemma closed_body_steps:
  assumes "closed_body E L c (put_conn c m) = Some m'" "closes_by E L" "just_died c m"
  shows "msteps E lv m m'"
proof -
  have "present c m" "c_dead c" using assms(3) by (auto simp: just_died_def present_def)
  from closed_body_rest [OF assms(1,2) this] obtain me where "close_effect c m = Some me" "msteps E lv me m'" by blast
  then show ?thesis using mstep.Closed [OF assms(3)] by (meson converse_rtranclp_into_rtranclp)
qed

lemma closes_by_closed: "closes_by E (closer (on_peer_closed E n))"
proof (induction n)
  case 0
  show ?case by (simp add: closes_by_def closer_def)
next
  case (Suc n)
  have "c_ptr c' = c_ptr c \<and> msteps E Sending (put_conn c m) (put_conn c' m')"
    if pr: "present c m" and alive: "\<not> c_dead c"
      and cl: "on_peer_closed E (Suc n) (c\<lparr>c_dead := True, c_state := Dead, c_registered := r\<rparr>, m) = Some (c', m')" for c r m c' m'
  proof -
    let ?d = "c\<lparr>c_dead := True, c_state := Dead, c_registered := r\<rparr>"
    from cl have b: "closed_body E (closer (on_peer_closed E n)) ?d (put_conn ?d m) = Some m'"
      and c': "c' = (case find_conn (c_ptr c) m of None \<Rightarrow> ?d | Some _ \<Rightarrow> (case find_conn (c_ptr c) m' of Some x \<Rightarrow> x | None \<Rightarrow> ?d))"
      by (auto simp: from_conn_def bind_eq_Some_conv split: option.splits)
    have "just_died ?d (put_conn c m)"
      using alive pr find_put_same [of c m] find_put_None [of "c_ptr c" c m] by (auto simp: just_died_def present_def)
    moreover have "put_conn ?d (put_conn c m) = put_conn ?d m" by (rule put_put) simp
    ultimately have st: "msteps E Sending (put_conn c m) m'"
      using closed_body_steps [OF _ Suc, of ?d "put_conn c m" m' Sending] b by simp
    have k: "kept E (put_conn c m) m'" using msteps_kept [OF st] by simp
    have "c_ptr c' = c_ptr c \<and> put_conn c' m' = m'"
    proof (cases "find_conn (c_ptr c) m")
      case None
      then have "c_ptr c \<in> set (pm_building m)" using pr by (simp add: present_def)
      then have "find_conn (c_ptr c) m' = None" using k None by (simp add: kept_def find_put_None)
      then show ?thesis using c' None put_absent [of ?d m'] by simp
    next
      case (Some x)
      then show ?thesis
        using c' find_conn_ptr [of "c_ptr c" m' c'] put_id [of c' m'] put_absent [of ?d m'] by (cases "find_conn (c_ptr c) m'") simp_all
    qed
    then show ?thesis using st by simp
  qed
  then show ?case by (simp add: closes_by_def closer_def)
qed

lemma closes_by_sender [simp]: "closes_by E (sender E n)"
  unfolding sender_def by (rule closes_by_closed)

lemma closes_by_listener [simp]: "closes_by E (mgr_listener E n)"
  using closes_by_closed [of E n] by (simp add: closes_by_def mgr_listener_def closer_def Let_def)

end
