(* ===== verification/ManagerEvents.thy ===== *)
theory ManagerEvents
  imports ManagerSteps
begin

text \<open>
  The callbacks a connection makes into the manager and the manager's entry points, as sequences
  of the steps of \<open>ManagerSteps\<close>.  The manager is an owner of connections in the sense of the locale
  \<open>owner\<close>, and a forwarder in the sense of the locale \<open>delivery_log\<close>.
\<close>

section \<open>Callbacks\<close>

lemma rec_step:
  assumes "lv \<noteq> Sending" "not_connected i m" "pr_state r \<noteq> Connected"
  shows "msteps E lv m (m\<lparr>pm_records := AList.update i r (pm_records m)\<rparr>)"
  by (rule one, rule mstep.Rec) (use assms in simp_all)

text \<open>Changing the data of a record, or creating it, leaves its state and its connection.\<close>

lemma record_step:
  assumes "lv \<noteq> Sending" "pr_state r = pr_state (record_at i m)" "pr_conn r = pr_conn (record_at i m)"
  shows "msteps E lv m (m\<lparr>pm_records := AList.update i r (pm_records m)\<rparr>)"
proof (cases "map_of (pm_records m) i")
  case None
  then show ?thesis using assms by (intro rec_step) (simp_all add: not_connected_def record_at_def peer_record_init_def)
next
  case (Some r0)
  then show ?thesis using assms by (intro one mstep.Upd) (simp_all add: record_at_def)
qed

lemma announce_once_steps:
  assumes "announce_once i r m = (r', m')" "lv \<noteq> Sending" "pr_state r = pr_state (record_at i m)" "pr_conn r = pr_conn (record_at i m)"
  shows "msteps E lv m m' \<and> pr_state r' = pr_state r \<and> pr_conn r' = pr_conn r \<and> map_of (pm_records m') i = Some r' \<and>
    pm_conns m' = pm_conns m \<and> pm_estab m' = pm_estab m \<and> pm_running m' = pm_running m"
proof (cases "pr_announced r")
  case True
  then show ?thesis using assms record_step [OF assms(2-4)] by (auto simp: announce_once_def update_conv)
next
  case False
  have "msteps E lv m (m\<lparr>pm_records := AList.update i (r\<lparr>pr_announced := True\<rparr>) (pm_records m)\<rparr>)"
    using assms(2-) by (intro record_step) simp_all
  from rtranclp_trans [OF this log_two [of "Peer_discovered i"]] show ?thesis
    using False assms(1) by (auto simp: announce_once_def Let_def emit_known_snapshot_def emit_def update_conv)
qed

text \<open>An operation of the router: it is the operation of the specification, then forwarding.\<close>

lemma router_op_forwards:
  assumes "router_step cfg (mgr_forwarder E L) e (gr0, m) = Some (gr, m')" "closes_by E L"
  shows "\<exists>ds. router_step cfg log_fwd e (gr0, []) = Some (gr, ds) \<and>
    msteps E Sending (m\<lparr>pm_calls := pm_calls m @ map (\<lambda>(from, payload). Message_received from payload) ds\<rparr>) m'"
proof -
  have fe: "forward_except (mgr_forwarder E L) frame fd w = Some w' \<Longrightarrow> msteps E Sending w w'" for frame fd w w'
    using forward_except_steps assms(2) by (auto simp: mgr_forwarder_def)
  have ft: "forward_to (mgr_forwarder E L) dst frame w = Some (b, w') \<Longrightarrow> msteps E Sending w w'" for dst frame w b w'
    using forward_to_steps assms(2) by (auto simp: mgr_forwarder_def)
  have dl: "deliver_local (mgr_forwarder E L) from payload w = w\<lparr>pm_calls := pm_calls w @ [Message_received from payload]\<rparr>" for "from" payload w
    by (simp add: mgr_forwarder_def pm_deliver_local_def emit_def)
  obtain now op where e: "e = (now, op)" by fastforce
  show ?thesis
  proof (cases op)
    case (Rx v fd)
    then show ?thesis using assms(1) e
      by (auto simp: on_data_def dl Let_def bind_eq_Some_conv split: prod.splits if_splits dest!: fe ft intro: rtranclp_trans)
  next
    case (Tx_broadcast p)
    then show ?thesis using assms(1) e
      by (auto simp: originate_broadcast_def Let_def bind_eq_Some_conv split: prod.splits dest!: fe)
  next
    case (Tx_targeted dst p)
    then show ?thesis using assms(1) e
      by (auto simp: originate_targeted_def dl Let_def bind_eq_Some_conv split: prod.splits if_splits dest!: fe ft intro: rtranclp_trans)
  next
    case Sweep
    then show ?thesis using assms(1) e by simp
  qed
qed

lemma route_steps:
  assumes "router_step (me_cfg E) (mgr_forwarder E L) e (pm_router m, m) = Some (gr, m')" "closes_by E L" "lv \<noteq> Sending"
  shows "msteps E lv m (m'\<lparr>pm_router := gr\<rparr>)"
proof -
  from router_op_forwards [OF assms(1,2)] obtain ds where ds: "router_step (me_cfg E) log_fwd e (pm_router m, []) = Some (gr, ds)"
    and s: "msteps E Sending (m\<lparr>pm_calls := pm_calls m @ map (\<lambda>(from, payload). Message_received from payload) ds\<rparr>) m'" by blast
  have "mstep E lv m (m\<lparr>pm_router := gr, pm_calls := pm_calls m @ map (\<lambda>(from, payload). Message_received from payload) ds\<rparr>)"
    using assms(3) ds by (rule mstep.Route)
  moreover have "m\<lparr>pm_router := gr, pm_calls := pm_calls m @ map (\<lambda>(from, payload). Message_received from payload) ds\<rparr> =
    m\<lparr>pm_calls := pm_calls m @ map (\<lambda>(from, payload). Message_received from payload) ds\<rparr>\<lparr>pm_router := gr\<rparr>" by simp
  ultimately show ?thesis using msteps_sending [OF msteps_router [OF s, of gr]] by (metis converse_rtranclp_into_rtranclp)
qed

lemma names_step: "lv \<noteq> Sending \<Longrightarrow> msteps E lv m (m\<lparr>pm_names := ns\<rparr>)"
  using mstep.Names [where m = m and ns = ns and iv = "pm_idVersions m" and v = "pm_selfIdVersion m" and t = "pm_lastIdFlood m"] by (intro one) simp

lemma versions_step: "lv \<noteq> Sending \<Longrightarrow> msteps E lv m (m\<lparr>pm_idVersions := iv\<rparr>)"
  using mstep.Names [where m = m and ns = "pm_names m" and iv = iv and v = "pm_selfIdVersion m" and t = "pm_lastIdFlood m"] by (intro one) simp

lemma self_version_step: "lv \<noteq> Sending \<Longrightarrow> msteps E lv m (m\<lparr>pm_selfIdVersion := v\<rparr>)"
  using mstep.Names [where m = m and ns = "pm_names m" and iv = "pm_idVersions m" and v = v and t = "pm_lastIdFlood m"] by (intro one) simp

lemma id_flood_step: "lv \<noteq> Sending \<Longrightarrow> msteps E lv m (m\<lparr>pm_lastIdFlood := t\<rparr>)"
  using mstep.Names [where m = m and ns = "pm_names m" and iv = "pm_idVersions m" and v = "pm_selfIdVersion m" and t = t] by (intro one) simp

lemma emit_names_step: "msteps E lv m (emit_names_snapshot m)"
  unfolding emit_names_snapshot_def by (rule one, rule log_step) simp

lemma names_emit_step: "lv \<noteq> Sending \<Longrightarrow> msteps E lv m (emit_names_snapshot (m\<lparr>pm_names := ns\<rparr>))"
  using rtranclp_trans [OF names_step emit_names_step] .

lemma self_record_step: "make_self_id_record E' m = (rec, m') \<Longrightarrow> lv \<noteq> Sending \<Longrightarrow> msteps E lv m m'"
  using self_version_step by (auto simp: make_self_id_record_def Let_def)

lemma emit_known_step: "msteps E lv m (emit_known_snapshot m)"
  unfolding emit_known_snapshot_def by (rule one, rule log_step) simp

lemma bind_static_steps:
  assumes "bind_static c m = Some (b, m')" "lv \<noteq> Sending"
  shows "msteps E lv m m' \<and> pm_conns m' = pm_conns m \<and> pm_estab m' = pm_estab m"
proof (cases "map_of (pm_static_dial_conn m) (c_ptr c)")
  case None
  then show ?thesis using assms by (simp add: bind_static_def)
next
  case (Some i)
  let ?t = "pm_targets m ! i"
  define m1 where "m1 = (case t_learnedId ?t of None \<Rightarrow> m
     | Some j \<Rightarrow> if j \<noteq> c_peerId c then emit_known_snapshot (m\<lparr>pm_records := AList.delete j (pm_records m)\<rparr>) else m)"
  have i: "i < length (pm_targets m)" and
    m': "m' = m1\<lparr>pm_targets := (pm_targets m1)[i := ?t\<lparr>t_learnedId := Some (c_peerId c), t_attempts := 0, t_dialing := None\<rparr>],
                  pm_static_dial_conn := AList.delete (c_ptr c) (pm_static_dial_conn m1)\<rparr>"
    using assms(1) Some by (auto simp: bind_static_def Let_def m1_def split: if_splits)
  have "msteps E lv m (emit_known_snapshot (m\<lparr>pm_records := AList.delete j (pm_records m)\<rparr>))" for j
    using mstep.Forget [OF assms(2), of E m j] emit_known_step by (rule converse_rtranclp_into_rtranclp)
  then have "msteps E lv m m1" by (auto simp: m1_def split: option.splits)
  moreover have "pm_targets m1 = pm_targets m" "pm_static_dial_conn m1 = pm_static_dial_conn m" "pm_conns m1 = pm_conns m" "pm_estab m1 = pm_estab m"
    by (auto simp: m1_def emit_known_snapshot_def emit_def split: option.splits)
  moreover from this have "mstep E lv m1 m'" unfolding m' using Some i by (intro mstep.Bound [OF assms(2)]) simp_all
  ultimately show ?thesis using m' by (auto intro: rtranclp.rtrancl_into_rtrancl)
qed

text \<open>The connection a callback is for: established and in the vector, except at the unchecked level.\<close>

definition callback_ok :: "level \<Rightarrow> conn \<Rightarrow> 'k manager \<Rightarrow> bool" where
  "callback_ok lv c m \<longleftrightarrow> lv \<noteq> Sending \<and> (lv = Unchecked \<or> find_conn (c_ptr c) m = Some c \<and> \<not> c_dead c \<and> c_state c = Established)"

lemma install_step:
  assumes "callback_ok lv c m" "pr_state r = Connected" "pr_conn r = Some (c_ptr c)"
  shows "msteps E lv m (m\<lparr>pm_estab := AList.update (c_peerId c) (c_ptr c) (pm_estab m), pm_records := AList.update (c_peerId c) r (pm_records m)\<rparr>)"
  using assms mstep.Loose [of lv E m] mstep.Install [of lv c m r E] by (auto simp: callback_ok_def)

lemma install_link_steps:
  assumes "install_link E L c h r existing m = Some m'" "closes_by E L" "callback_ok lv c m"
  shows "msteps E lv m m'"
proof -
  have lv: "lv \<noteq> Sending" using assms(3) by (simp add: callback_ok_def)
  let ?p = "c_ptr c" and ?i = "c_peerId c"
  let ?m1 = "m\<lparr>pm_estab := AList.update ?i ?p (pm_estab m),
     pm_records := AList.update ?i (r\<lparr>pr_conn := Some ?p, pr_state := Connected, pr_reconnectAttempts := 0\<rparr>) (pm_records m)\<rparr>"
  define m2 where "m2 = (if h_hasIdentity h then emit_names_snapshot (?m1\<lparr>pm_names := AList.update ?i (h_nodeName h) (pm_names ?m1)\<rparr>) else ?m1)"
  obtain rec m2' where rec: "make_self_id_record E m2 = (rec, m2')" by fastforce
  from assms(1) [unfolded install_link_def Let_def, folded m2_def] obtain m3 m4 where
    m3: "(if li_hasIdentity (me_self E) then with_conn ?p (send_raw (conn_env E) L (encode_identity rec)) m2' else Some m2) = Some m3" and
    m4: "(case existing of None \<Rightarrow> Some m3 | Some q \<Rightarrow> with_conn q (close_gracefully (conn_env E) L) m3) = Some m4" and
    m': "(if pr_state r \<noteq> Connected then update_local_membership E L (emit_connected_snapshot (emit (Peer_connected ?i) m4)) else Some m4) = Some m'"
    by (auto simp: bind_eq_Some_conv rec cong: if_cong)
  have "msteps E lv m ?m1" using assms(3) by (rule install_step) simp_all
  moreover have "msteps E lv ?m1 m2" unfolding m2_def
    by (cases "h_hasIdentity h") (simp_all only: if_True if_False rtranclp.rtrancl_refl names_emit_step [OF lv])
  ultimately have s2': "msteps E lv m m2" by (rule rtranclp_trans)
  note s2 = rtranclp_trans [OF s2' self_record_step [OF rec lv]]
  have "msteps E lv m m3"
  proof (cases "li_hasIdentity (me_self E)")
    case True
    with m3 have "with_conn ?p (send_raw (conn_env E) L (encode_identity rec)) m2' = Some m3" by simp
    from with_conn_sends [OF this assms(2) send_raw_sends] s2 show ?thesis by (meson rtranclp_trans)
  qed (use m3 s2' in simp)
  moreover have "msteps E lv m3 m4"
    using m4 with_conn_sends [OF _ assms(2) close_gracefully_sends] by (auto split: option.splits)
  moreover have "msteps E lv m4 m'"
    using m' report_link_steps [OF _ assms(2), of "Peer_connected ?i"] by (auto split: if_splits)
  ultimately show ?thesis by (meson rtranclp_trans)
qed

lemma on_peer_handshake_steps:
  assumes "on_peer_handshake E L h c m = Some m'" "closes_by E L" "callback_ok lv c m"
  shows "msteps E lv m m'"
proof (cases "c_peerId c = li_nodeId (me_self E)")
  case True
  with assms(1) have "with_conn (c_ptr c) (close_gracefully (conn_env E) L) m = Some m'" by (simp add: on_peer_handshake_def Let_def)
  then show ?thesis using with_conn_sends [OF _ assms(2) close_gracefully_sends] by blast
next
  case False
  have lv: "lv \<noteq> Sending" using assms(3) by (simp add: callback_ok_def)
  let ?i = "c_peerId c"
  from assms(1) False obtain st m1 where bs: "bind_static c m = Some (st, m1)" by (auto simp: on_peer_handshake_def Let_def bind_eq_Some_conv)
  obtain now m2 where now: "pm_now E m1 = (now, m2)" by fastforce
  define r where "r = (record_at ?i m2)\<lparr>pr_id := ?i, pr_isStatic := (st \<or> pr_isStatic (record_at ?i m2)),
    pr_dialAddr := (c_peerAddr c)\<lparr>sin_port := h_tcpListenPort h\<rparr>, pr_haveAddr := True, pr_lastSeen := now\<rparr>"
  obtain r1 m3 where ann: "announce_once ?i r m2 = (r1, m3)" by fastforce
  note b = bind_static_steps [OF bs lv, of E]
  note n = pm_now_step [OF now, of E lv]
  have a: "msteps E lv m2 m3" "pm_conns m3 = pm_conns m2"
    using announce_once_steps [OF ann lv, of E] by (simp_all add: r_def)
  have s3: "msteps E lv m m3" using b n a(1) by (meson rtranclp_trans)
  have "pm_conns m2 = pm_conns m1" using os_call_frame now by (fastforce simp: pm_now_def)
  then have ok: "callback_ok lv c m3" using assms(3) a(2) b by (simp add: callback_ok_def find_conn_def)
  have "with_conn (c_ptr c) (close_gracefully (conn_env E) L) m3 = Some m' \<or> (\<exists>ex. install_link E L c h r1 ex m3 = Some m')"
    using assms(1) False bs now ann by (auto simp: on_peer_handshake_def Let_def r_def [symmetric] bind_eq_Some_conv split: option.splits if_splits)
  then have "msteps E lv m3 m'"
    using with_conn_sends [OF _ assms(2) close_gracefully_sends] install_link_steps [OF _ assms(2) ok] by blast
  with s3 show ?thesis by (rule rtranclp_trans)
qed

lemma on_peer_data_steps:
  assumes "on_peer_data E L v c m = Some m'" "closes_by E L" "lv \<noteq> Sending"
  shows "msteps E lv m m'"
proof -
  obtain now m1 where now: "pm_now E m = (now, m1)" by fastforce
  with assms(1) obtain gr m2 where
    "router_step (me_cfg E) (mgr_forwarder E L) (now, Rx v (c_fd c)) (pm_router m1, m1) = Some (gr, m2)" "m' = m2\<lparr>pm_router := gr\<rparr>"
    by (auto simp: on_peer_data_def bind_eq_Some_conv)
  from route_steps [OF this(1) assms(2,3)] this(2) pm_now_step [OF now, of E lv] show ?thesis by (simp add: rtranclp_trans)
qed

lemma on_peer_membership_steps:
  assumes "on_peer_membership E L rec c m = Some m'" "closes_by E L"
  shows "msteps E lv m m'"
proof -
  obtain now m1 where now: "pm_now E m = (now, m1)" by fastforce
  with assms(1) have "mb_apply E L (on_remote_record rec (c_fd c) now) m1 = Some m'" by (simp add: on_peer_membership_def)
  from mb_apply_steps [OF this assms(2)] pm_now_step [OF now, of E lv] show ?thesis by (meson rtranclp_trans)
qed

lemma on_peer_identity_steps:
  assumes "on_peer_identity E L rec c m = Some m'" "closes_by E L" "lv \<noteq> Sending"
  shows "msteps E lv m m'"
proof (cases "admit_identity E rec m")
  case None
  then show ?thesis using assms(1) by (simp add: on_peer_identity_def)
next
  case (Some origin)
  define m1 where "m1 = m\<lparr>pm_idVersions := AList.update origin (i_version rec) (pm_idVersions m)\<rparr>"
  define m2 where "m2 = (if map_of (pm_names m1) origin \<noteq> Some (i_name rec)
                    then emit_names_snapshot (m1\<lparr>pm_names := AList.update origin (i_name rec) (pm_names m1)\<rparr>) else m1)"
  have "pm_forward_except E L (encode_identity rec) (c_fd c) m2 = Some m'"
    using assms(1) Some by (simp add: on_peer_identity_def Let_def m1_def m2_def split: if_splits)
  then have "msteps E lv m2 m'" using assms(2) by (rule forward_except_steps)
  moreover have "msteps E lv m m1" unfolding m1_def using assms(3) by (rule versions_step)
  moreover have "msteps E lv m1 m2" unfolding m2_def by (simp add: names_emit_step [OF assms(3)])
  ultimately show ?thesis by (meson rtranclp_trans)
qed

section \<open>The manager is an owner of connections\<close>

lemma from_conn_keeps:
  assumes "from_conn g s = Some s'" "\<And>m'. g (fst s) (put_conn (fst s) (snd s)) = Some m' \<Longrightarrow> kept E (put_conn (fst s) (snd s)) m'"
  shows "keeps (mgr_sys (me_sys E)) (fst s) (fst s')"
proof -
  let ?c = "fst s" and ?m = "put_conn (fst s) (snd s)"
  from assms(1) obtain m' where g: "g ?c ?m = Some m'" and
    c': "fst s' = (case find_conn (c_ptr ?c) (snd s) of None \<Rightarrow> ?c
       | Some _ \<Rightarrow> (case find_conn (c_ptr ?c) m' of None \<Rightarrow> ?c | Some c \<Rightarrow> c))"
    by (auto simp: from_conn_def bind_eq_Some_conv)
  show ?thesis
  proof (cases "find_conn (c_ptr ?c) (snd s)")
    case None
    then show ?thesis using c' by simp
  next
    case (Some x)
    then have "find_conn (c_ptr ?c) ?m = Some ?c" using find_put_same [of ?c "snd s"] by simp
    from keptD(1) [OF assms(2) [OF g] this] show ?thesis using c' Some by auto
  qed
qed

lemma callback_ok_unchecked [simp]: "callback_ok Unchecked c m"
  by (simp add: callback_ok_def)

lemma callbacks_kept:
  "on_peer_handshake E (sender E n) h c m = Some m' \<Longrightarrow> kept E m m'"
  "on_peer_data E (sender E n) v c m = Some m' \<Longrightarrow> kept E m m'"
  "on_peer_membership E (sender E n) mr c m = Some m' \<Longrightarrow> kept E m m'"
  "on_peer_identity E (sender E n) ir c m = Some m' \<Longrightarrow> kept E m m'"
  using msteps_kept [of E Unchecked m m'] on_peer_handshake_steps [of E "sender E n" h c m m' Unchecked]
    on_peer_data_steps [of E "sender E n" v c m m' Unchecked] on_peer_membership_steps [of E "sender E n" mr c m m' Unchecked]
    on_peer_identity_steps [of E "sender E n" ir c m m' Unchecked]
  by simp_all

lemma mgr_owner_keeps: "owner_keeps (conn_env E) (mgr_listener E n)"
  unfolding owner_keeps_def ev_sys_conn_env
proof (intro allI impI, elim disjE exE)
  fix s s' h assume "cl_handshake (mgr_listener E n) h s = Some s'"
  then show "keeps (mgr_sys (me_sys E)) (fst s) (fst s')"
    by (auto simp: mgr_listener_def Let_def intro: from_conn_keeps callbacks_kept)
next
  fix s s' v assume "cl_data (mgr_listener E n) v s = Some s'"
  then show "keeps (mgr_sys (me_sys E)) (fst s) (fst s')"
    by (auto simp: mgr_listener_def Let_def intro: from_conn_keeps callbacks_kept)
next
  fix s s' r assume "cl_membership (mgr_listener E n) r s = Some s'"
  then show "keeps (mgr_sys (me_sys E)) (fst s) (fst s')"
    by (auto simp: mgr_listener_def Let_def intro: from_conn_keeps callbacks_kept)
next
  fix s s' r assume "cl_identity (mgr_listener E n) r s = Some s'"
  then show "keeps (mgr_sys (me_sys E)) (fst s) (fst s')"
    by (auto simp: mgr_listener_def Let_def intro: from_conn_keeps callbacks_kept)
next
  fix s s' assume "cl_closed (mgr_listener E n) s = Some s'"
  then show "keeps (mgr_sys (me_sys E)) (fst s) (fst s')"
    by (cases n) (auto simp: mgr_listener_def Let_def intro: from_conn_keeps closed_body_kept closes_by_closed)
qed

interpretation mgr: owner "conn_env E" "mgr_listener E n" for E n
  by unfold_locales (rule mgr_owner_keeps)

interpretation mgr_log: delivery_log "mgr_forwarder E (sender E n)" delivered for E n
proof unfold_locales
  show "forward_except (mgr_forwarder E (sender E n)) frame fd w = Some w' \<Longrightarrow> delivered w' = delivered w" for frame fd w w'
    by (auto simp: mgr_forwarder_def dest: msteps_sending_frame [OF forward_except_steps [OF _ closes_by_sender]])
  show "forward_to (mgr_forwarder E (sender E n)) dst frame w = Some (sent, w') \<Longrightarrow> delivered w' = delivered w" for dst frame w sent w'
    by (auto simp: mgr_forwarder_def dest: msteps_sending_frame [OF forward_to_steps [OF _ closes_by_sender]])
  show "delivered (deliver_local (mgr_forwarder E (sender E n)) from payload w) = delivered w @ [(from, payload)]" for "from" payload w
    by (simp add: mgr_forwarder_def pm_deliver_local_def delivered_def emit_def map_filter_def)
qed

end
