(* ===== verification/ManagerRuns.thy ===== *)
theory ManagerRuns
  imports ManagerEvents
begin

text \<open>
  The entry points of the manager as sequences of steps: the events of a connection, accepting,
  discovery, the timers, starting and originating messages.
\<close>

section \<open>Events of a connection\<close>

text \<open>A step of handling an event is sending, a move, or a callback after at most one move.\<close>

lemma io_step_split:
  assumes "io_step env L s s'"
  obtains (Send) "send_step env L s s'"
  | (Move) c' where "conn_move env (fst s) c'" "s' = (c', snd s)"
  | (Handshake) c' h where "conn_move env (fst s) c'" "c_state (fst s) \<noteq> Dead" "c_state c' = Established" "cl_handshake L h (c', snd s) = Some s'"
  | (Call) c' where "c' = fst s \<or> conn_move env (fst s) c'"
      "(\<exists>v. cl_data L v (c', snd s) = Some s') \<or> (\<exists>r. cl_membership L r (c', snd s) = Some s') \<or> (\<exists>r. cl_identity L r (c', snd s) = Some s')"
  using assms
proof cases
  case (Open c h w)
  then show ?thesis using Handshake [of "c\<lparr>c_state := Established\<rparr>" h] conn_move.Opens [of c env h] by simp
next
  case (Confirmed c src f n w)
  then show ?thesis using Handshake [of "(src_consume src n c)\<lparr>c_state := Established\<rparr>" "c_peerHello c"] conn_move.Confirms [of c env src f n] by simp
next
  case (Message c src f n w)
  then show ?thesis using Call [of c] by auto
next
  case (Member c src f n w)
  then show ?thesis using Call [of "src_consume src n c"] conn_move.Received [OF inbound_consume [OF pending_le [OF Member(3)]]] by auto
next
  case (Name c src f n w)
  then show ?thesis using Call [of "src_consume src n c"] conn_move.Received [OF inbound_consume [OF pending_le [OF Name(3)]]] by auto
qed (use Send in blast, (rule Move [of "fst s'"]; simp add: conn_move.intros)+)

lemma keeps_after_move:
  assumes "io_step env L s s'" "owner_keeps env L"
  shows "\<exists>c. (c = fst s \<or> conn_move env (fst s) c) \<and> keeps (ev_sys env) c (fst s')"
  using assms(1)
proof (cases rule: io_step_split)
  case Send
  have "closed_keeps env L" using owner_keepsD(5) [OF assms(2)] by (simp add: closed_keeps_def)
  then show ?thesis using send_step_keeps [OF Send] by blast
next
  case (Move c')
  then show ?thesis by (intro exI [of _ c']) simp
next
  case (Handshake c' h)
  then show ?thesis using owner_keepsD(1) [OF assms(2) Handshake(4)] by auto
next
  case (Call c')
  then show ?thesis using owner_keepsD(2-4) [OF assms(2), of _ "(c', snd s)" s'] by auto
qed

lemma grown_io_step: "io_step env L s s' \<Longrightarrow> owner_keeps env L \<Longrightarrow> grown env (fst s) \<Longrightarrow> grown env (fst s')"
  using keeps_after_move [of env L s s'] grown_move grown_keeps by blast

text \<open>The dead flag and the dead state agree.\<close>

lemma dead_conn_invariant: "conn_invariant env (\<lambda>c. c_dead c = (c_state c = Dead))"
  unfolding conn_invariant_def
proof (intro conjI allI impI)
  fix c assume "fresh_conn env c"
  then show "c_dead c = (c_state c = Dead)" by (auto simp: fresh_conn_def conn_init_def)
next
  fix c c' assume "keeps (ev_sys env) c c'" "c_dead c = (c_state c = Dead)"
  then show "c_dead c' = (c_state c' = Dead)" by (auto simp: keeps_def split: if_splits)
next
  fix c c' assume "conn_move env c c'" "c_dead c = (c_state c = Dead)"
  then show "c_dead c' = (c_state c' = Dead)"
    by cases (auto simp: inbound_fields note_hello_def install_session_def Let_def)
qed

lemmas grown_dead = grown_invariant [OF _ dead_conn_invariant]

text \<open>A move of a connection of the vector, and a callback it makes.\<close>

lemma move_step:
  assumes "conn_move (conn_env E) c c'" "find_conn (c_ptr c) m \<noteq> None"
  shows "msteps E Entry (put_conn c m) (put_conn c' m)"
proof -
  have p: "c_ptr c' = c_ptr c" using conn_move_fields(1) [OF assms(1)] .
  have "find_conn (c_ptr c) (put_conn c m) = Some c" using assms(2) by (rule find_put_same)
  then have "mstep E Entry (put_conn c m) (put_conn c' (put_conn c m))" using assms(1) by (intro mstep.Event) simp_all
  then show ?thesis using put_put [OF p, of m] by auto
qed

lemma from_conn_flat:
  assumes "from_conn g (c, m) = Some (c', m')" "find_conn (c_ptr c) m \<noteq> None"
    and "\<And>m'. g c (put_conn c m) = Some m' \<Longrightarrow> msteps E Callback (put_conn c m) m'"
  shows "c_ptr c' = c_ptr c \<and> msteps E Entry (put_conn c m) (put_conn c' m') \<and> find_conn (c_ptr c) m' \<noteq> None"
proof -
  from assms(1,2) have g: "g c (put_conn c m) = Some m'" and
    c': "c' = (case find_conn (c_ptr c) m' of None \<Rightarrow> c | Some c \<Rightarrow> c)"
    by (auto simp: from_conn_def bind_eq_Some_conv split: option.splits)
  have s: "msteps E Callback (put_conn c m) m'" using assms(3) [OF g] .
  have "find_conn (c_ptr c) (put_conn c m) = Some c" using assms(2) by (rule find_put_same)
  from keptD(1) [OF msteps_kept [OF s] this] obtain d where d: "find_conn (c_ptr c) m' = Some d" by auto
  then have "c' = d" "c_ptr d = c_ptr c" using c' find_conn_ptr by auto
  then show ?thesis using d put_id [of d m'] msteps_callback [OF s] by auto
qed

text \<open>A connection of the vector in the middle of an event.\<close>

definition in_hand :: "'k mgr_env \<Rightarrow> conn \<times> 'k manager \<Rightarrow> bool" where
  "in_hand E s \<longleftrightarrow> find_conn (c_ptr (fst s)) (snd s) \<noteq> None \<and> grown (conn_env E) (fst s)"

lemma handshake_flat:
  assumes "cl_handshake (mgr_listener E n) h (c1, m) = Some s'" "conn_move (conn_env E) c c1" "find_conn (c_ptr c) m \<noteq> None"
    and "c_state c1 = Established" "\<not> c_dead c1"
  shows "c_ptr (fst s') = c_ptr c \<and> msteps E Entry (put_conn c m) (put_conn (fst s') (snd s')) \<and> find_conn (c_ptr c) (snd s') \<noteq> None"
proof -
  have p: "c_ptr c1 = c_ptr c" using conn_move_fields(1) [OF assms(2)] .
  have "callback_ok Callback c1 (put_conn c1 m)"
    using assms(3-5) p find_put_same [of c1 m] by (simp add: callback_ok_def)
  then have "on_peer_handshake E (sender E n) h c1 (put_conn c1 m) = Some m' \<Longrightarrow> msteps E Callback (put_conn c1 m) m'" for m'
    using on_peer_handshake_steps [OF _ closes_by_sender] by blast
  then have "c_ptr (fst s') = c_ptr c1 \<and> msteps E Entry (put_conn c1 m) (put_conn (fst s') (snd s')) \<and> find_conn (c_ptr c1) (snd s') \<noteq> None"
    using assms(1,3) p by (intro from_conn_flat) (auto simp: mgr_listener_def Let_def)
  then show ?thesis using move_step [OF assms(2,3)] p by (auto intro: rtranclp_trans)
qed

lemma io_step_flat:
  assumes "io_step (conn_env E) (mgr_listener E n) s s'" "in_hand E s"
  shows "in_hand E s' \<and> c_ptr (fst s') = c_ptr (fst s) \<and> msteps E Entry (put_conn (fst s) (snd s)) (put_conn (fst s') (snd s'))"
proof -
  have g: "grown (conn_env E) (fst s)" and f: "find_conn (c_ptr (fst s)) (snd s) \<noteq> None" using assms(2) by (simp_all add: in_hand_def)
  have call: "c_ptr (fst s') = c_ptr (fst s) \<and> msteps E Entry (put_conn (fst s) (snd s)) (put_conn (fst s') (snd s')) \<and> find_conn (c_ptr (fst s)) (snd s') \<noteq> None"
    if "from_conn g (c1, snd s) = Some s'" "c1 = fst s \<or> conn_move (conn_env E) (fst s) c1"
      "\<And>m m'. g c1 m = Some m' \<Longrightarrow> msteps E Callback m m'" for c1 g
  proof -
    have p: "c_ptr c1 = c_ptr (fst s)" using that(2) conn_move_fields(1) by blast
    have "msteps E Entry (put_conn (fst s) (snd s)) (put_conn c1 (snd s))" using that(2) move_step [OF _ f] by blast
    moreover have "c_ptr (fst s') = c_ptr c1 \<and> msteps E Entry (put_conn c1 (snd s)) (put_conn (fst s') (snd s')) \<and> find_conn (c_ptr c1) (snd s') \<noteq> None"
      using that(1,3) f p by (intro from_conn_flat [of g]) auto
    ultimately show ?thesis using p by (auto intro: rtranclp_trans)
  qed
  have "c_ptr (fst s') = c_ptr (fst s) \<and> msteps E Entry (put_conn (fst s) (snd s)) (put_conn (fst s') (snd s')) \<and> find_conn (c_ptr (fst s)) (snd s') \<noteq> None"
    using assms(1)
  proof (cases rule: io_step_split)
    case Send
    have "present (fst s) (snd s)" using f by (simp add: present_def)
    from send_step_flat [OF Send closes_by_listener this] have
      p: "c_ptr (fst s') = c_ptr (fst s)" and st: "msteps E Sending (put_conn (fst s) (snd s)) (put_conn (fst s') (snd s'))" by auto
    obtain d where "find_conn (c_ptr (fst s)) (put_conn (fst s') (snd s')) = Some d"
      using keptD(1) [OF msteps_kept [OF st] find_put_same [OF f]] by auto
    then have "find_conn (c_ptr (fst s)) (snd s') \<noteq> None" using find_put_None [of _ "fst s'" "snd s'"] by (metis option.distinct(1))
    then show ?thesis using p msteps_sending [OF st] by blast
  next
    case (Move c')
    then show ?thesis using conn_move_fields(1) [OF Move(1)] move_step [OF Move(1) f] f by simp
  next
    case (Handshake c' h)
    then show ?thesis using handshake_flat [OF Handshake(4,1) f Handshake(3)] conn_move_fields(2) [OF Handshake(1)] grown_dead [OF g] by simp
  next
    case (Call c')
    then show ?thesis
      using call [of "on_peer_data E (sender E n) v" c' for v] call [of "on_peer_membership E (sender E n) r" c' for r]
        call [of "on_peer_identity E (sender E n) r" c' for r]
        on_peer_data_steps [OF _ closes_by_sender, of E n _ _ _ _ Callback] on_peer_membership_steps [OF _ closes_by_sender, of E n _ _ _ _ Callback]
        on_peer_identity_steps [OF _ closes_by_sender, of E n _ _ _ _ Callback]
      by (auto simp: mgr_listener_def Let_def)
  qed
  moreover have "grown (conn_env E) (fst s')" using grown_io_step [OF assms(1) mgr_owner_keeps g] .
  ultimately show ?thesis by (simp add: in_hand_def)
qed

lemma conn_event_steps:
  assumes "conn_event E n p ev m = Some m'" "\<forall>c\<in>set (pm_conns m). grown (conn_env E) c"
  shows "msteps E Entry m m'"
proof -
  from assms(1) obtain c s' where c: "find_conn p m = Some c" and s': "on_io_events (conn_env E) (mgr_listener E n) ev (c, m) = Some s'"
    and m': "m' = put_conn (fst s') (snd s')" by (auto simp: conn_event_def with_conn_def bind_eq_Some_conv split: prod.splits)
  have "c \<in> set (pm_conns m)" using c by (auto simp: find_conn_def find_Some_iff)
  then have h: "in_hand E (c, m)" using c assms(2) find_conn_ptr [OF c] by (simp add: in_hand_def)
  have "in_hand E s' \<and> msteps E Entry (put_conn c m) (put_conn (fst s') (snd s'))"
    using mgr.on_io_events_steps [OF s']
  proof induction
    case base
    then show ?case using h by simp
  next
    case (step a b)
    then show ?case using io_step_flat [OF step(2)] by (auto intro: rtranclp_trans)
  qed
  then show ?thesis using m' put_id [of c m] c find_conn_ptr [OF c] by simp
qed

section \<open>Accepting\<close>

text \<open>A connection under construction is queued for reaping only once it is dead.\<close>

definition unborn :: "conn \<times> 'k manager \<Rightarrow> bool" where
  "unborn s \<longleftrightarrow> find_conn (c_ptr (fst s)) (snd s) = None \<and> c_ptr (fst s) \<in> set (pm_building (snd s)) \<and>
     (c_ptr (fst s) \<in> set (pm_reap (snd s)) \<longrightarrow> c_dead (fst s))"

lemma unborn_step:
  assumes "send_step (conn_env E) (mgr_listener E n) s s'" "unborn s"
  shows "unborn s'"
  using assms(1)
proof cases
  case (Sys w w' c)
  then show ?thesis using assms(2) sys_moves_os [OF Sys(3)] by (auto simp: unborn_def)
next
  case (Outbound c c' w)
  then show ?thesis using assms(2) keeps_fields(1) [of "mgr_sys (me_sys E)" c c'] by (auto simp: unborn_def outbound_def)
next
  case (Report c w e)
  then show ?thesis using assms(2) by (simp add: unborn_def mgr_listener_def Let_def emit_def find_conn_def)
next
  case (Close c r w)
  let ?d = "c\<lparr>c_dead := True, c_state := Dead, c_registered := r\<rparr>"
  from Close assms(2) have cl: "on_peer_closed E n (?d, w) = Some s'" and f: "find_conn (c_ptr c) w = None" and b: "c_ptr c \<in> set (pm_building w)"
    by (simp_all add: mgr_listener_def Let_def unborn_def)
  then obtain k where k: "closed_body E (closer (on_peer_closed E k)) ?d (put_conn ?d w) = Some (snd s')" and d: "fst s' = ?d"
    by (cases n) (auto simp: from_conn_def bind_eq_Some_conv)
  have "kept E (put_conn ?d w) (snd s')" using closed_body_kept [OF k closes_by_closed] .
  then have "find_conn (c_ptr c) (snd s') = None" "pm_building (snd s') = pm_building w" using f b by (simp_all add: kept_def find_put_None)
  then show ?thesis using b d by (simp add: unborn_def)
qed

lemma unborn_sends: "sends (conn_env E) (mgr_listener E n) s s' \<Longrightarrow> unborn s \<Longrightarrow> unborn s'"
  by (induction rule: rtranclp_induct) (auto intro: unborn_step)

lemma sends_grown:
  assumes "sends (conn_env E) (mgr_listener E n) s s'" "grown (conn_env E) (fst s)"
  shows "grown (conn_env E) (fst s')"
  using mgr.sent_keeps [OF assms(1)] grown_keeps [OF assms(2)] by simp

lemma accept_conn_sends:
  assumes "accept_conn env L p fd addr nonce w = Some s'"
  shows "\<exists>c w1. c_ptr c = p \<and> grown env c \<and> \<not> c_dead c \<and> (sys_moves env)\<^sup>*\<^sup>* w w1 \<and> sends env L (c, w1) s'"
proof -
  obtain now w1 where n: "sys_now (ev_sys env) w = (now, w1)" by fastforce
  obtain ok w2 where a: "loop_add (ev_sys env) fd EPOLLIN p w1 = (ok, w2)" by fastforce
  let ?c = "(conn_init p fd addr True Handshaking nonce (li_secure (ev_self env)) now)\<lparr>c_registered := ok\<rparr>"
  obtain ek w3 where g: "(if c_secure ?c then gen_ephemeral (ev_crypto env) w2 else (c_ephKeys ?c, w2)) = (ek, w3)" by fastforce
  have sh: "send_hello env L (?c, w2) = Some s'" using assms n a by (cases ok) (simp_all add: accept_conn_def Let_def conn_init_def)
  have fr: "fresh_conn env ?c" unfolding fresh_conn_def
    by (rule exI [of _ p], rule exI [of _ fd], rule exI [of _ addr], rule exI [of _ True], rule exI [of _ Handshaking], rule exI [of _ nonce],
        rule exI [of _ now], rule exI [of _ ok], rule exI [of _ False]) (simp add: conn_init_def)
  have "c_state ?c = Handshaking" by (simp add: conn_init_def)
  from grown_move [OF fresh_grown [OF fr] conn_move.Keyed [OF this]] have "grown env (?c\<lparr>c_ephKeys := ek\<rparr>)" .
  moreover have "sys_moves env w w1" "sys_moves env w1 w2" using n a by (auto simp: loop_add_def)
  moreover have "(sys_moves env)\<^sup>*\<^sup>* w2 w3" using g by (auto split: if_splits)
  ultimately have "grown env (?c\<lparr>c_ephKeys := ek\<rparr>)" "(sys_moves env)\<^sup>*\<^sup>* w w3" by (auto intro: converse_rtranclp_into_rtranclp)
  moreover have "sends env L (?c\<lparr>c_ephKeys := ek\<rparr>, w3) s'"
    using sh g by (auto simp: send_hello_def Let_def dest: push_out_sends)
  moreover have "c_ptr (?c\<lparr>c_ephKeys := ek\<rparr>) = p" "\<not> c_dead (?c\<lparr>c_ephKeys := ek\<rparr>)" by (simp_all add: conn_init_def)
  ultimately show ?thesis by blast
qed

lemma accept_connection_steps:
  assumes "accept_connection E (mgr_listener E n) fd addr m = Some m'"
    and "set (pm_reap m) \<subseteq> set (map c_ptr (pm_conns m) @ pm_building m)"
  shows "msteps E Entry m m'"
proof -
  obtain nonce m1 where r: "os_call (me_rand E) m = (nonce, m1)" by fastforce
  obtain p m2 where a: "alloc E m1 = (p, m2)" by fastforce
  let ?m2 = "m2\<lparr>pm_building := p # pm_building m2\<rparr>"
  obtain k where k: "m2 = m\<lparr>pm_os := k\<rparr>" using os_call_frame [OF r] alloc_fresh(2) [OF a] by auto
  from assms(1) r a obtain c m3 where ac: "accept_conn (conn_env E) (mgr_listener E n) p fd addr nonce ?m2 = Some (c, m3)"
    and m': "m' = m3\<lparr>pm_building := remove1 p (pm_building m3), pm_conns := pm_conns m3 @ [c]\<rparr>"
    by (auto simp: accept_connection_def bind_eq_Some_conv)
  from accept_conn_sends [OF ac] obtain c0 mx where c0: "c_ptr c0 = p" "grown (conn_env E) c0"
    and mx: "(sys_moves (conn_env E))\<^sup>*\<^sup>* ?m2 mx" and s: "sends (conn_env E) (mgr_listener E n) (c0, mx) (c, m3)" by blast
  obtain k' where k': "mx = ?m2\<lparr>pm_os := k'\<rparr>" using sys_moves_os_many [OF mx] by blast
  have fresh: "p \<notin> set (map c_ptr (pm_conns m2) @ pm_building m2)" using alloc_fresh(1) [OF a] .
  have ub: "unborn (c0, mx)" using c0(1) fresh assms(2) k k' by (auto simp: unborn_def find_conn_None)
  then have ub': "unborn (c, m3)" by (rule unborn_sends [OF s])
  have g: "grown (conn_env E) c" using sends_grown [OF s] c0(2) by simp
  have "present c0 mx" using ub by (simp add: unborn_def present_def)
  from sends_flat [OF s closes_by_listener] this have p: "c_ptr c = p" and "msteps E Sending (put_conn c0 mx) (put_conn c m3)" using c0(1) by auto
  then have "msteps E Sending mx m3" using ub ub' put_absent [of c0 mx] put_absent [of c m3] by (simp add: unborn_def)
  then have "msteps E Entry mx m3" by (rule msteps_sending)
  moreover have "mstep E Entry m m2" unfolding k by (rule mstep.Os)
  moreover have "mstep E Entry m2 ?m2" using fresh by (intro mstep.Build) simp_all
  moreover have "mstep E Entry ?m2 mx" unfolding k' by (rule mstep.Os)
  moreover have "mstep E Entry m3 m'"
    unfolding m' using mstep.Own [of Entry E c m3] g ub' p by (simp add: unborn_def find_conn_None)
  ultimately show ?thesis by (meson converse_rtranclp_into_rtranclp rtranclp.rtrancl_into_rtrancl)
qed

section \<open>Dialling\<close>

lemma dial_note_record:
  assumes "lv \<noteq> Sending" "not_connected i m" "pr_state r \<noteq> Connected"
  shows "dial_note E lv (\<lambda>p m1. m1\<lparr>pm_records := AList.update i (r\<lparr>pr_state := Connecting, pr_conn := Some p\<rparr>) (pm_records m1)\<rparr>) m"
proof -
  have "msteps E lv (m\<lparr>pm_os := k\<rparr>) (m\<lparr>pm_os := k, pm_conns := pm_conns m @ [c],
      pm_records := AList.update i (r\<lparr>pr_state := Connecting, pr_conn := Some (c_ptr c)\<rparr>) (pm_records m)\<rparr>)" if "new_conn E c m" for c k
  proof -
    let ?m1 = "m\<lparr>pm_os := k, pm_conns := pm_conns m @ [c]\<rparr>"
    have "mstep E lv (m\<lparr>pm_os := k\<rparr>) ?m1" using that by (rule new_step)
    moreover have "msteps E lv ?m1 (?m1\<lparr>pm_records := AList.update i (r\<lparr>pr_state := Connecting, pr_conn := Some (c_ptr c)\<rparr>) (pm_records ?m1)\<rparr>)"
      using assms(1,2) by (intro rec_step) (simp_all add: not_connected_def)
    ultimately show ?thesis by (simp add: converse_rtranclp_into_rtranclp)
  qed
  then show ?thesis by (simp add: dial_note_def Let_def)
qed

lemma start_dial_steps:
  assumes "start_dial E L i r m = Some m'" "closes_by E L" "lv \<noteq> Sending" "not_connected i m" "pr_state r \<noteq> Connected"
  shows "msteps E lv m m'"
  using assms(1) dial_with_steps [OF _ assms(2) dial_note_record [OF assms(3-5)]] by (simp add: start_dial_def)

lemma start_dial_addr_steps: "start_dial_addr E L addr m = Some m' \<Longrightarrow> closes_by E L \<Longrightarrow> msteps E lv m m'"
  using dial_with_steps [OF _ _ dial_note_id] by (simp add: start_dial_addr_def)

lemma maybe_dial_steps:
  assumes "maybe_dial E L i r m = Some m'" "closes_by E L" "lv \<noteq> Sending" "map_of (pm_records m) i = Some r"
  shows "msteps E lv m m'"
  using assms start_dial_steps [of E L i r m m' lv] by (auto simp: maybe_dial_def not_connected_def split: if_splits)

lemma on_discovered_steps:
  assumes "on_discovered E L a src m = Some m'" "closes_by E L" "lv \<noteq> Sending"
  shows "msteps E lv m m'"
proof -
  let ?i = "a_nodeId a"
  obtain now m1 where now: "pm_now E m = (now, m1)" by fastforce
  define r where "r = (record_at ?i m1)\<lparr>pr_id := ?i, pr_lastSeen := now, pr_dialAddr := src\<lparr>sin_port := a_tcpListenPort a\<rparr>, pr_haveAddr := True\<rparr>"
  obtain r1 m2 where ann: "announce_once ?i r m1 = (r1, m2)" by fastforce
  define r2 where "r2 = (if pr_state r1 = Lost then r1\<lparr>pr_state := Disconnected\<rparr> else r1)"
  let ?m3 = "m2\<lparr>pm_records := AList.update ?i r2 (pm_records m2)\<rparr>"
  have md: "maybe_dial E L ?i r2 ?m3 = Some m'"
    using assms(1) now ann by (simp add: on_discovered_def Let_def r_def [symmetric] r2_def)
  from announce_once_steps [OF ann assms(3), of E] have a: "msteps E lv m1 m2" "map_of (pm_records m2) ?i = Some r1" by (simp_all add: r_def)
  have "msteps E lv m2 ?m3"
  proof (cases "pr_state r1 = Lost")
    case True
    then show ?thesis using a(2) assms(3) by (intro rec_step) (simp_all add: r2_def not_connected_def)
  next
    case False
    then show ?thesis using a(2) assms(3) by (intro record_step) (simp_all add: r2_def record_at_def)
  qed
  moreover have "msteps E lv ?m3 m'" by (rule maybe_dial_steps [OF md assms(2,3)]) (simp add: update_conv)
  ultimately show ?thesis using pm_now_step [OF now, of E lv] a(1) by (meson rtranclp_trans)
qed

lemma on_reconnect_timer_steps:
  assumes "on_reconnect_timer E L i m = Some m'" "closes_by E L" "lv \<noteq> Sending"
  shows "msteps E lv m m'"
proof -
  obtain now m1 where now: "pm_now E m = (now, m1)" by fastforce
  have eq: "pm_records m1 = pm_records m" using os_call_frame now by (fastforce simp: pm_now_def)
  have "m' = m \<or> m' = m1 \<or> (\<exists>r. map_of (pm_records m1) i = Some r \<and> maybe_dial E L i r m1 = Some m')"
    using assms(1) now eq by (auto simp: on_reconnect_timer_def split: if_splits option.splits)
  then show ?thesis using pm_now_step [OF now, of E lv] maybe_dial_steps [OF _ assms(2,3)] by (auto intro: rtranclp_trans)
qed

lemma dial_seed_list_steps: "dial_seed_list E L ss m = Some m' \<Longrightarrow> closes_by E L \<Longrightarrow> msteps E lv m m'"
proof (induction E L ss m rule: dial_seed_list.induct)
  case (2 E L s ss m)
  obtain r m1 where r: "resolve_endpoint E (sp_host s) (sp_port s) m = (r, m1)" by fastforce
  with 2 obtain m2 where m2: "(case r of None \<Rightarrow> Some m1 | Some addr \<Rightarrow> start_dial_addr E L addr m1) = Some m2" "dial_seed_list E L ss m2 = Some m'"
    by (auto simp: bind_eq_Some_conv)
  have "msteps E lv m1 m2" using m2(1) 2(3) by (auto split: option.splits intro: start_dial_addr_steps)
  moreover have "msteps E lv m2 m'" using 2(1) [OF r [symmetric] m2 2(3)] .
  ultimately show ?case using resolve_endpoint_step [OF r, of lv] by (meson rtranclp_trans)
qed simp

lemma dial_seeds_steps: "dial_seeds E L m = Some m' \<Longrightarrow> closes_by E L \<Longrightarrow> msteps E lv m m'"
  using dial_seed_list_steps by (auto simp: dial_seeds_def split: if_splits)

section \<open>Timers\<close>

lemma check_conn_steps:
  assumes "check_conn E L now p m = Some m'" "closes_by E L"
  shows "msteps E lv m m'"
proof -
  have hb: "with_conn p (maybe_heartbeat (conn_env E) L now i) a = Some b \<Longrightarrow> msteps E lv a b" for i a b
    by (rule with_conn_sends [OF _ assms(2) maybe_heartbeat_sends])
  have bye: "with_conn p (close_gracefully (conn_env E) L) a = Some b \<Longrightarrow> msteps E lv a b" for a b
    by (rule with_conn_sends [OF _ assms(2) close_gracefully_sends])
  from assms(1) obtain c where "find_conn p m = Some c" by (auto simp: check_conn_def bind_eq_Some_conv)
  then show ?thesis
    using assms(1) by (cases "c_state c") (auto simp: check_conn_def bind_eq_Some_conv split: if_splits dest!: hb bye intro: rtranclp_trans)
qed

lemma for_conns_steps:
  assumes "\<And>p m m'. body p m = Some m' \<Longrightarrow> msteps E lv m m'"
  shows "for_conns body ps m = Some m' \<Longrightarrow> msteps E lv m m'"
  by (induction ps arbitrary: m) (auto simp: bind_eq_Some_conv split: if_splits dest!: assms intro: rtranclp_trans)

lemma lose_peers_steps:
  assumes "lv \<noteq> Sending"
  shows "msteps E lv m (lose_peers cfg now m)"
proof -
  have "msteps E lv m (fold (\<lambda>i m1. let m2 = emit (Peer_lost i) m1 in m2\<lparr>pm_records := AList.delete i (pm_records m2)\<rparr>) is m)" for "is"
  proof (induction "is" arbitrary: m)
    case (Cons i "is")
    let ?m1 = "emit (Peer_lost i) m"
    have "mstep E lv m ?m1" by (rule log_step) simp
    moreover have "mstep E lv ?m1 (?m1\<lparr>pm_records := AList.delete i (pm_records ?m1)\<rparr>)" using assms by (rule mstep.Forget)
    ultimately show ?case using Cons [of "?m1\<lparr>pm_records := AList.delete i (pm_records ?m1)\<rparr>"]
      by (simp add: Let_def converse_rtranclp_into_rtranclp)
  qed simp
  from rtranclp_trans [OF this emit_known_step] show ?thesis by (simp add: lose_peers_def Let_def)
qed

lemma flood_self_identity_steps:
  assumes "flood_self_identity E L fd m = Some m'" "closes_by E L" "lv \<noteq> Sending"
  shows "msteps E lv m m'"
proof (cases "li_hasIdentity (me_self E)")
  case True
  obtain rec m1 where rec: "make_self_id_record E m = (rec, m1)" by fastforce
  with assms(1) True obtain m2 where m2: "pm_forward_except E L (encode_identity rec) fd m1 = Some m2" "m' = (snd (pm_now E m2))\<lparr>pm_lastIdFlood := fst (pm_now E m2)\<rparr>"
    by (auto simp: flood_self_identity_def bind_eq_Some_conv case_prod_beta)
  have "msteps E lv m m1" using rec assms(3) by (rule self_record_step)
  moreover have "msteps E lv m1 m2" using m2(1) assms(2) by (rule forward_except_steps)
  moreover have "msteps E lv m2 (snd (pm_now E m2))" by (rule pm_now_step [of E m2 "fst (pm_now E m2)"]) simp
  moreover have "msteps E lv (snd (pm_now E m2)) m'" unfolding m2(2) using assms(3) by (rule id_flood_step)
  ultimately show ?thesis by (meson rtranclp_trans)
qed (use assms(1) in \<open>simp add: flood_self_identity_def\<close>)

lemma tick_steps:
  assumes "tick E L m = Some m'" "closes_by E L" "lv \<noteq> Sending"
  shows "msteps E lv m m'"
proof (cases "pm_running m")
  case True
  obtain now m1 where now: "pm_now E m = (now, m1)" by fastforce
  with assms(1) True obtain m2 m3 m4 m5 m6 where
    m2: "for_conns (check_conn E L now) (map c_ptr (pm_conns m1)) m1 = Some m2" and
    m3: "maintain_static_peers E L (lose_peers (me_cfg E) now m2) = Some m3" and
    m4: "mb_apply E L (mb_tick (me_cfg E) now) m3 = Some m4" and
    m5: "(if li_hasIdentity (me_self E) \<and> now - pm_lastIdFlood m4 \<ge> ms (membershipInterval (me_cfg E)) then flood_self_identity E L (-1) m4 else Some m4) = Some m5" and
    m6: "(if pm_estab m5 = [] then dial_seeds E L m5 else Some m5) = Some m6" and m': "m' = schedule_tick E m6"
    by (auto simp: tick_def bind_eq_Some_conv)
  have "msteps E lv m m1" using now by (rule pm_now_step)
  moreover have "msteps E lv m1 m2" using m2 by (rule for_conns_steps [rotated]) (rule check_conn_steps [OF _ assms(2)])
  moreover have "msteps E lv m2 (lose_peers (me_cfg E) now m2)" using assms(3) by (rule lose_peers_steps)
  moreover have "msteps E lv (lose_peers (me_cfg E) now m2) m3" using m3 assms(2) by (rule maintain_static_peers_steps)
  moreover have "msteps E lv m3 m4" using m4 assms(2) by (rule mb_apply_steps)
  moreover have "msteps E lv m4 m5" using m5 flood_self_identity_steps [OF _ assms(2,3)] by (auto split: if_splits)
  moreover have "msteps E lv m5 m6" using m6 dial_seeds_steps [OF _ assms(2)] by (auto split: if_splits)
  moreover have "msteps E lv m6 m'" unfolding m' schedule_tick_def by (rule arm_step)
  ultimately show ?thesis by (meson rtranclp_trans)
qed (use assms(1) in \<open>simp add: tick_def\<close>)

section \<open>Starting and originating\<close>

lemma pm_start_steps:
  assumes "pm_start E L m = Some m'" "closes_by E L"
  shows "msteps E Entry m m'"
proof -
  let ?m0 = "m\<lparr>pm_running := True\<rparr>"
  let ?ts = "map (\<lambda>s. \<lparr>t_host = sp_host s, t_port = sp_port s, t_learnedId = None, t_attempts = 0, t_nextAttempt = 0, t_dialing = None\<rparr>) (staticPeers (me_cfg E))"
  obtain now m1 where now: "pm_now E ?m0 = (now, m1)" by fastforce
  let ?el = "gr_start Sweep_cb (me_cfg E) now (pm_loop m1)"
  let ?m2 = "m1\<lparr>pm_loop := ?el, pm_targets := pm_targets m1 @ ?ts\<rparr>"
  from assms(1) now obtain m3 m4 where m3: "dial_seeds E L ?m2 = Some m3" and m4: "maintain_static_peers E L m3 = Some m4"
    and m': "m' = schedule_tick E m4" by (auto simp: pm_start_def Let_def bind_eq_Some_conv)
  have "mstep E Entry m ?m0" by (rule mstep.Running) simp
  moreover have "msteps E Entry ?m0 m1" using now by (rule pm_now_step)
  moreover have "mstep E Entry m1 (m1\<lparr>pm_loop := ?el\<rparr>)" by (rule mstep.Arm)
  moreover have "mstep E Entry (m1\<lparr>pm_loop := ?el\<rparr>) ?m2" using mstep.More [of Entry ?ts E "m1\<lparr>pm_loop := ?el\<rparr>"] by simp
  moreover have "msteps E Entry ?m2 m3" using m3 assms(2) by (rule dial_seeds_steps)
  moreover have "msteps E Entry m3 m4" using m4 assms(2) by (rule maintain_static_peers_steps)
  moreover have "msteps E Entry m4 m'" unfolding m' schedule_tick_def by (rule arm_step)
  ultimately show ?thesis by (meson converse_rtranclp_into_rtranclp rtranclp_trans)
qed

lemma originate_steps:
  assumes "closes_by E L"
  shows "pm_originate_broadcast E L payload m = Some m' \<Longrightarrow> msteps E Entry m m'"
    "pm_originate_targeted E L dst payload m = Some m' \<Longrightarrow> msteps E Entry m m'"
proof -
  obtain now m1 where now: "pm_now E m = (now, m1)" by fastforce
  note r = route_steps [OF _ assms, of _ m1 _ _ Entry]
  show "pm_originate_broadcast E L payload m = Some m' \<Longrightarrow> msteps E Entry m m'"
    using r [of "(now, Tx_broadcast payload)"] pm_now_step [OF now, of E Entry] now
    by (auto simp: pm_originate_broadcast_def bind_eq_Some_conv intro: rtranclp_trans)
  show "pm_originate_targeted E L dst payload m = Some m' \<Longrightarrow> msteps E Entry m m'"
    using r [of "(now, Tx_targeted dst payload)"] pm_now_step [OF now, of E Entry] now
    by (auto simp: pm_originate_targeted_def bind_eq_Some_conv intro: rtranclp_trans)
qed

end
