(* ===== verification/ManagerInvariant.thy ===== *)
theory ManagerInvariant
  imports ManagerRuns
begin

text \<open>
  The invariants of the manager: how the vector of connections, the table of links, the peer
  records, the slots of static dials and the queue of connections to destroy agree.  Each is
  shown for one step and then for whole runs.
\<close>

section \<open>The invariants\<close>

text \<open>The addresses of the connections are distinct, and each connection has grown from a fresh one.\<close>

definition conns_ok :: "'k mgr_env \<Rightarrow> 'k manager \<Rightarrow> bool" where
  "conns_ok E m \<longleftrightarrow> distinct (map c_ptr (pm_conns m) @ pm_building m) \<and> (\<forall>c\<in>set (pm_conns m). grown (conn_env E) c)"

text \<open>
  The link of a peer is a live, established connection to that peer.  The all-zero id is left
  out: \<open>on_peer_closed\<close> does not detach it.
\<close>

definition is_link :: "peer_id \<Rightarrow> nat \<Rightarrow> 'k manager \<Rightarrow> bool" where
  "is_link i p m \<longleftrightarrow> (\<exists>c. find_conn p m = Some c \<and> \<not> c_dead c \<and> c_state c = Established \<and> c_peerId c = i)"

definition links_ok :: "'k manager \<Rightarrow> bool" where
  "links_ok m \<longleftrightarrow> distinct (map fst (pm_estab m)) \<and> (\<forall>i p. map_of (pm_estab m) i = Some p \<longrightarrow> \<not> is_zero i \<longrightarrow> is_link i p m)"

text \<open>A record that says connected refers to the link of its peer.\<close>

definition records_ok :: "'k manager \<Rightarrow> bool" where
  "records_ok m \<longleftrightarrow> distinct (map fst (pm_records m)) \<and>
     (\<forall>i r. map_of (pm_records m) i = Some r \<longrightarrow> pr_state r = Connected \<longrightarrow> \<not> is_zero i \<longrightarrow>
        (\<exists>p. pr_conn r = Some p \<and> map_of (pm_estab m) i = Some p))"

text \<open>Only dead connections are queued for destruction.\<close>

definition condemned :: "nat \<Rightarrow> 'k manager \<Rightarrow> bool" where
  "condemned p m \<longleftrightarrow> (\<exists>c. find_conn p m = Some c \<and> c_dead c) \<or> p \<in> set (pm_building m)"

definition reap_ok :: "'k manager \<Rightarrow> bool" where
  "reap_ok m \<longleftrightarrow> (\<forall>p\<in>set (pm_reap m). condemned p m)"

text \<open>A static target that is being dialled and the live connection that dials it know each other.\<close>

definition slots_ok :: "'k manager \<Rightarrow> bool" where
  "slots_ok m \<longleftrightarrow> (\<forall>i p. i < length (pm_targets m) \<longrightarrow> t_dialing (pm_targets m ! i) = Some p \<longrightarrow> map_of (pm_static_dial_conn m) p = Some i) \<and>
     (\<forall>p i. map_of (pm_static_dial_conn m) p = Some i \<longrightarrow> i < length (pm_targets m) \<and> t_dialing (pm_targets m ! i) = Some p \<and>
        (\<exists>c. find_conn p m = Some c \<and> \<not> c_dead c))"

definition wf_mgr :: "'k mgr_env \<Rightarrow> 'k manager \<Rightarrow> bool" where
  "wf_mgr E m \<longleftrightarrow> conns_ok E m \<and> links_ok m \<and> records_ok m \<and> reap_ok m \<and> slots_ok m"

section \<open>Connections\<close>

lemma set_put_first: "set (put_first c cs) \<subseteq> insert c (set cs)"
  by (induction c cs rule: put_first.induct) auto

lemma conns_put:
  assumes "conns_ok E m" "grown (conn_env E) c"
  shows "conns_ok E (put_conn c m)"
  using assms set_put_first [of c "pm_conns m"] by (auto simp: conns_ok_def put_conn_def)

lemma find_grown: "conns_ok E m \<Longrightarrow> find_conn p m = Some c \<Longrightarrow> grown (conn_env E) c"
  by (auto simp: conns_ok_def find_conn_def find_Some_iff)

lemma conns_ok_cong: "pm_conns m' = pm_conns m \<Longrightarrow> pm_building m' = pm_building m \<Longrightarrow> conns_ok E m' = conns_ok E m"
  by (simp add: conns_ok_def)

lemma just_died_keeps:
  "just_died c m \<Longrightarrow> find_conn (c_ptr c) m = Some c0 \<Longrightarrow> keeps (mgr_sys (me_sys E)) c0 c \<and> \<not> c_dead c0 \<and> c_dead c \<and> c_peerId c = c_peerId c0"
  by (auto simp: just_died_def keeps_def core_def)

lemma conns_step:
  assumes "mstep E lv m m'" "conns_ok E m"
  shows "conns_ok E m'"
  using assms
proof induction
  case (Out c m c')
  then show ?case using conns_put [of E m c'] grown_keeps [OF find_grown [OF Out(3,1)], of c'] by (simp add: outbound_def)
next
  case (Closed c m m')
  have "conns_ok E (put_conn c m)"
  proof (cases "find_conn (c_ptr c) m")
    case None
    then show ?thesis using Closed(3) by (simp add: put_absent)
  next
    case (Some c0)
    then show ?thesis using conns_put [OF Closed(3), of c] grown_keeps [OF find_grown [OF Closed(3) Some], of c] just_died_keeps [OF Closed(1) Some, of E] by simp
  qed
  then show ?case using close_effect_conns [OF Closed(2)] by (simp add: conns_ok_def)
next
  case (New c m)
  then show ?case by (auto simp: conns_ok_def new_conn_def intro: fresh_grown)
next
  case (Dial c m i)
  then show ?case by (auto simp: conns_ok_def new_conn_def intro: fresh_grown)
next
  case (Event c m c')
  then show ?case using conns_put [of E m c'] grown_move [OF find_grown [OF Event(4,2)], of c'] by simp
qed (auto simp: conns_ok_def emit_def)

section \<open>Links and records\<close>

lemma is_link_cong: "pm_conns m' = pm_conns m \<Longrightarrow> is_link i p m' = is_link i p m"
  by (simp add: is_link_def find_conn_def)

lemma is_link_append: "pm_conns m' = pm_conns m @ [c] \<Longrightarrow> is_link i p m \<Longrightarrow> is_link i p m'"
  by (auto simp: is_link_def find_conn_def find_append)

lemma is_link_put:
  assumes "is_link i p m" "find_conn (c_ptr c) m = Some c0" "c_dead c = c_dead c0"
    "c_state c0 = Established \<Longrightarrow> c_state c = Established \<and> c_peerId c = c_peerId c0"
  shows "is_link i p (put_conn c m)"
  using assms find_put_same [of c m] by (cases "p = c_ptr c") (auto simp: is_link_def)

lemma links_ok_cong: "pm_conns m' = pm_conns m \<Longrightarrow> pm_estab m' = pm_estab m \<Longrightarrow> links_ok m' = links_ok m"
  using is_link_cong [of m' m] by (simp add: links_ok_def)

lemma records_ok_cong: "pm_records m' = pm_records m \<Longrightarrow> pm_estab m' = pm_estab m \<Longrightarrow> records_ok m' = records_ok m"
  by (simp add: records_ok_def)

lemma links_okD: "links_ok m \<Longrightarrow> map_of (pm_estab m) i = Some p \<Longrightarrow> \<not> is_zero i \<Longrightarrow> is_link i p m"
  unfolding links_ok_def by blast

lemma links_okI:
  assumes "links_ok m" "distinct (map fst (pm_estab m'))"
    "\<And>i p. map_of (pm_estab m') i = Some p \<Longrightarrow> \<not> is_zero i \<Longrightarrow> is_link i p m'"
  shows "links_ok m'"
  using assms unfolding links_ok_def by blast

lemma links_ok_mono:
  assumes "links_ok m" "pm_estab m' = pm_estab m" "\<And>i p. is_link i p m \<Longrightarrow> is_link i p m'"
  shows "links_ok m'"
  using assms unfolding links_ok_def by simp

text \<open>What a closing does to the tables.\<close>

lemma close_effectD:
  assumes "close_effect c m = Some m'"
  obtains m1 where "free_static_slot (c_ptr c) (put_conn c m) = Some m1" "m' = release_effect c (detach_estab c m1)"
    "pm_records m1 = pm_records m" "pm_estab m1 = pm_estab m"
  using assms free_static_slot_fields(7,8) by (fastforce simp: close_effect_def)

lemma estab_detached:
  "pm_estab (detach_estab c m) =
     (if \<not> is_zero (c_peerId c) \<and> map_of (pm_estab m) (c_peerId c) = Some (c_ptr c) then AList.delete (c_peerId c) (pm_estab m) else pm_estab m)"
  by (simp add: detach_estab_def)

lemma map_of_delete: "map_of (AList.delete k al) i = (if i = k then None else map_of al i)"
  by (simp add: delete_conv')

lemma distinct_delete: "distinct (map fst al) \<Longrightarrow> distinct (map fst (AList.delete k al))"
  by (rule distinct_delete)

lemma links_closed:
  assumes "links_ok m" "just_died c m" "close_effect c m = Some m'"
  shows "links_ok m'"
proof -
  from close_effectD [OF assms(3)] obtain m1 where m1: "m' = release_effect c (detach_estab c m1)" "pm_estab m1 = pm_estab m" .
  have e: "pm_estab m' = pm_estab (detach_estab c m)" using m1 by (simp add: estab_detached)
  have "is_link i p m'" if i: "map_of (pm_estab m') i = Some p" "\<not> is_zero i" for i p
  proof -
    have o: "map_of (pm_estab m) i = Some p" using i(1) e by (auto simp: estab_detached map_of_delete split: if_splits)
    then obtain d where d: "find_conn p m = Some d" "\<not> c_dead d" "c_state d = Established" "c_peerId d = i"
      using links_okD [OF assms(1) o i(2)] by (auto simp: is_link_def)
    have "p \<noteq> c_ptr c"
    proof
      assume p: "p = c_ptr c"
      then have "c_peerId c = i" using just_died_keeps [OF assms(2), of d] d by auto
      then show False using i e o p by (simp add: estab_detached map_of_delete)
    qed
    then have "is_link i p (put_conn c m)" using d by (simp add: is_link_def)
    then show ?thesis using is_link_cong [of m' "put_conn c m" i p] close_effect_conns [OF assms(3)] by simp
  qed
  moreover have "distinct (map fst (pm_estab m'))" using assms(1) e by (simp add: links_ok_def estab_detached distinct_delete)
  ultimately show ?thesis by (simp add: links_ok_def)
qed

lemma links_step:
  assumes "mstep E lv m m'" "lv \<noteq> Unchecked" "links_ok m"
  shows "links_ok m'"
  using assms
proof induction
  case (Out c m c')
  then have c': "c_ptr c' = c_ptr c" "c_peerId c' = c_peerId c" "c_dead c' = c_dead c" "c_state c' = c_state c"
    using keeps_fields(1,5) [of "mgr_sys (me_sys E)" c c'] by (auto simp: outbound_def)
  show ?case using Out(4) by (rule links_ok_mono) (use c' Out(1) is_link_put [of _ _ m c' c] in simp_all)
next
  case (Closed c m m')
  then show ?case using links_closed by blast
next
  case (New c m)
  show ?case using New(3) by (rule links_ok_mono) (simp_all add: is_link_append [of _ m c])
next
  case (Dial c m i)
  show ?case using Dial(5) by (rule links_ok_mono) (simp_all add: is_link_append [of _ m c])
next
  case (Own c m)
  show ?case using Own(6) by (rule links_ok_mono) (simp_all add: is_link_append [of _ m c])
next
  case (Event c m c')
  note f = conn_move_fields [OF Event(3)]
  show ?case using Event(5) by (rule links_ok_mono) (use f Event(2) is_link_put [of _ _ m c' c] in simp_all)
next
  case (Install c m r)
  then have l: "is_link (c_peerId c) (c_ptr c) m" by (simp add: is_link_def)
  show ?case using Install(8)
  proof (rule links_okI)
    show "distinct (map fst (pm_estab (m\<lparr>pm_estab := AList.update (c_peerId c) (c_ptr c) (pm_estab m), pm_records := AList.update (c_peerId c) r (pm_records m)\<rparr>)))"
      using Install(8) by (simp add: links_ok_def distinct_update)
  next
    fix i p
    assume "map_of (pm_estab (m\<lparr>pm_estab := AList.update (c_peerId c) (c_ptr c) (pm_estab m), pm_records := AList.update (c_peerId c) r (pm_records m)\<rparr>)) i = Some p" "\<not> is_zero i"
    then show "is_link i p (m\<lparr>pm_estab := AList.update (c_peerId c) (c_ptr c) (pm_estab m), pm_records := AList.update (c_peerId c) r (pm_records m)\<rparr>)"
      using l links_okD [OF Install(8), of i p] by (auto simp: update_conv is_link_def split: if_splits)
  qed
qed (simp_all add: links_ok_def is_link_def emit_def find_conn_def)

lemma records_okD:
  assumes "records_ok m" "map_of (pm_records m) i = Some r" "pr_state r = Connected" "\<not> is_zero i"
  shows "\<exists>p. pr_conn r = Some p \<and> map_of (pm_estab m) i = Some p"
  using assms unfolding records_ok_def by blast

lemma records_okI:
  assumes "distinct (map fst (pm_records m))"
    "\<And>i r. map_of (pm_records m) i = Some r \<Longrightarrow> pr_state r = Connected \<Longrightarrow> \<not> is_zero i \<Longrightarrow>
      \<exists>p. pr_conn r = Some p \<and> map_of (pm_estab m) i = Some p"
  shows "records_ok m"
  using assms unfolding records_ok_def by blast

text \<open>Changing one record.\<close>

lemma records_update:
  assumes "records_ok m" "pm_estab m' = pm_estab m" "pm_records m' = AList.update i r (pm_records m)"
    "pr_state r = Connected \<Longrightarrow> \<not> is_zero i \<Longrightarrow> \<exists>p. pr_conn r = Some p \<and> map_of (pm_estab m) i = Some p"
  shows "records_ok m'"
proof (rule records_okI)
  show "distinct (map fst (pm_records m'))" using assms(1,3) by (simp add: records_ok_def distinct_update)
next
  fix j r'
  assume "map_of (pm_records m') j = Some r'" "pr_state r' = Connected" "\<not> is_zero j"
  then show "\<exists>p. pr_conn r' = Some p \<and> map_of (pm_estab m') j = Some p"
    using assms(2-4) records_okD [OF assms(1), of j r'] by (cases "j = i") (simp_all add: update_conv)
qed

lemma records_closed:
  assumes "records_ok m" "close_effect c m = Some m'"
  shows "records_ok m'"
proof -
  from close_effectD [OF assms(2)] obtain m1 where m1: "m' = release_effect c (detach_estab c m1)" "pm_records m1 = pm_records m" "pm_estab m1 = pm_estab m" .
  define m2 where "m2 = detach_estab c m1"
  have m2: "pm_records m2 = pm_records m" "m' = release_effect c m2" using m1 by (simp_all add: m2_def)
  have e: "pm_estab m' = pm_estab (detach_estab c m)" using m1 by (simp add: estab_detached)
  have r': "map_of (pm_records m') i = Some r \<Longrightarrow> pr_state r = Connected \<Longrightarrow>
      map_of (pm_records m) i = Some r \<and> (i = c_peerId c \<longrightarrow> \<not> is_zero i \<longrightarrow> pr_conn r \<noteq> Some (c_ptr c))" for i r
    using m2 by (auto simp: release_effect_def owning_record_def update_conv split: option.splits if_splits)
  show ?thesis
  proof (rule records_okI)
    show "distinct (map fst (pm_records m'))"
      using assms(1) m2 by (auto simp: records_ok_def release_effect_def distinct_update split: option.splits)
  next
    fix i r
    assume i: "map_of (pm_records m') i = Some r" "pr_state r = Connected" "\<not> is_zero i"
    have o: "map_of (pm_records m) i = Some r" "i = c_peerId c \<longrightarrow> pr_conn r \<noteq> Some (c_ptr c)" using r' [OF i(1,2)] i(3) by auto
    from records_okD [OF assms(1) o(1) i(2,3)] obtain p where p: "pr_conn r = Some p" "map_of (pm_estab m) i = Some p" by blast
    then have "map_of (pm_estab m') i = Some p" using e o(2) by (auto simp: estab_detached map_of_delete)
    then show "\<exists>p. pr_conn r = Some p \<and> map_of (pm_estab m') i = Some p" using p(1) by simp
  qed
qed

lemma records_step:
  assumes "mstep E lv m m'" "lv \<noteq> Unchecked" "records_ok m"
  shows "records_ok m'"
  using assms
proof induction
  case (Closed c m m')
  then show ?case using records_closed by blast
next
  case (Upd m i r r')
  then show ?case using records_okD [OF Upd(5,1)] by (intro records_update [OF Upd(5)]) auto
next
  case (Rec i m r)
  then show ?case by (intro records_update [OF Rec(5)]) auto
next
  case (Forget m i)
  show ?case
  proof (rule records_okI)
    show "distinct (map fst (pm_records (m\<lparr>pm_records := AList.delete i (pm_records m)\<rparr>)))"
      using Forget(3) by (simp add: records_ok_def distinct_delete)
  qed (use records_okD [OF Forget(3)] in \<open>simp add: map_of_delete split: if_splits\<close>)
next
  case (Install c m r)
  let ?i = "c_peerId c"
  let ?m = "m\<lparr>pm_estab := AList.update ?i (c_ptr c) (pm_estab m), pm_records := AList.update ?i r (pm_records m)\<rparr>"
  show ?case
  proof (rule records_okI)
    show "distinct (map fst (pm_records ?m))" using Install(8) by (simp add: records_ok_def distinct_update)
  next
    fix j r'
    assume "map_of (pm_records ?m) j = Some r'" "pr_state r' = Connected" "\<not> is_zero j"
    then show "\<exists>p. pr_conn r' = Some p \<and> map_of (pm_estab ?m) j = Some p"
      using Install(6) records_okD [OF Install(8), of j r'] by (cases "j = ?i") (simp_all add: update_conv)
  qed
qed (simp_all add: records_ok_def put_conn_def emit_def)

section \<open>The queue of dead connections\<close>

lemma condemned_put:
  assumes "condemned p m" "\<And>c0. find_conn (c_ptr c) m = Some c0 \<Longrightarrow> c_dead c0 \<Longrightarrow> c_dead c"
  shows "condemned p (put_conn c m)"
  using assms find_put_same [of c m] by (cases "p = c_ptr c") (auto simp: condemned_def)

lemma condemned_mono:
  assumes "reap_ok m" "pm_reap m' = pm_reap m" "\<And>p. condemned p m \<Longrightarrow> condemned p m'"
  shows "reap_ok m'"
  using assms by (auto simp: reap_ok_def)

lemma condemned_append: "pm_conns m' = pm_conns m @ [c] \<Longrightarrow> pm_building m' = pm_building m \<Longrightarrow> condemned p m \<Longrightarrow> condemned p m'"
  by (auto simp: condemned_def find_conn_def find_append)

lemma condemned_cong: "pm_conns m' = pm_conns m \<Longrightarrow> pm_building m' = pm_building m \<Longrightarrow> condemned p m' = condemned p m"
  by (simp add: condemned_def find_conn_def)

lemma close_effect_reap: "close_effect c m = Some m' \<Longrightarrow> pm_reap m' = pm_reap m"
  using free_static_slot_fields(9) by (fastforce simp: close_effect_def)

lemma reap_step:
  assumes "mstep E lv m m'" "reap_ok m"
  shows "reap_ok m'"
  using assms
proof induction
  case (Out c m c')
  then have "c_ptr c' = c_ptr c" "c_dead c' = c_dead c" using keeps_fields(1) [of "mgr_sys (me_sys E)" c c'] by (auto simp: outbound_def)
  then show ?case using Out(1) by (intro condemned_mono [OF Out(3)] condemned_put) simp_all
next
  case (Closed c m m')
  have "condemned p m'" if "condemned p m" for p
    using condemned_put [OF that, of c] Closed(1) condemned_cong [of m' "put_conn c m" p] close_effect_conns [OF Closed(2)]
    by (auto simp: just_died_def)
  then show ?case using condemned_mono [OF Closed(3) close_effect_reap [OF Closed(2)]] by blast
next
  case (New c m)
  then show ?case by (intro condemned_mono [OF New(2)]) (simp_all add: condemned_append [of _ m c])
next
  case (Dial c m i)
  then show ?case by (intro condemned_mono [OF Dial(4)]) (simp_all add: condemned_append [of _ m c])
next
  case (Event c m c')
  note f = conn_move_fields [OF Event(3)]
  then show ?case using Event(2) by (intro condemned_mono [OF Event(4)] condemned_put) simp_all
next
  case (Own c m)
  then have "find_conn (c_ptr c) m = None" by (simp add: find_conn_None)
  then have "condemned p (m\<lparr>pm_building := remove1 (c_ptr c) (pm_building m), pm_conns := pm_conns m @ [c]\<rparr>)"
    if "condemned p m" "p = c_ptr c \<longrightarrow> c_dead c" for p
    using that by (auto simp: condemned_def find_conn_def find_append split: option.splits)
  then show ?case using Own(4,5) by (auto simp: reap_ok_def)
next
  case (Build p m)
  then show ?case by (intro condemned_mono [OF Build(3)]) (auto simp: condemned_def)
next
  case (Reap rs m b)
  then show ?case by (auto simp: reap_ok_def condemned_def)
qed (simp_all add: reap_ok_def condemned_def emit_def find_conn_def)

section \<open>Static dials\<close>

definition alive :: "nat \<Rightarrow> 'k manager \<Rightarrow> bool" where
  "alive p m \<longleftrightarrow> (\<exists>c. find_conn p m = Some c \<and> \<not> c_dead c)"

lemma slots_okD:
  assumes "slots_ok m"
  shows "i < length (pm_targets m) \<Longrightarrow> t_dialing (pm_targets m ! i) = Some p \<Longrightarrow> map_of (pm_static_dial_conn m) p = Some i"
    "map_of (pm_static_dial_conn m) p = Some i \<Longrightarrow> i < length (pm_targets m)"
    "map_of (pm_static_dial_conn m) p = Some i \<Longrightarrow> t_dialing (pm_targets m ! i) = Some p"
    "map_of (pm_static_dial_conn m) p = Some i \<Longrightarrow> alive p m"
  using assms unfolding slots_ok_def alive_def by blast+

lemma slots_okI:
  assumes "\<And>i p. i < length (pm_targets m) \<Longrightarrow> t_dialing (pm_targets m ! i) = Some p \<Longrightarrow> map_of (pm_static_dial_conn m) p = Some i"
    "\<And>i p. map_of (pm_static_dial_conn m) p = Some i \<Longrightarrow> i < length (pm_targets m) \<and> t_dialing (pm_targets m ! i) = Some p \<and> alive p m"
  shows "slots_ok m"
  using assms unfolding slots_ok_def alive_def by blast

lemma slots_mono:
  assumes "slots_ok m" "map t_dialing (pm_targets m') = map t_dialing (pm_targets m)" "pm_static_dial_conn m' = pm_static_dial_conn m"
    "\<And>p. alive p m \<Longrightarrow> alive p m'"
  shows "slots_ok m'"
proof -
  have l: "length (pm_targets m') = length (pm_targets m)" using assms(2) by (rule map_eq_imp_length_eq)
  have n: "i < length (pm_targets m) \<Longrightarrow> t_dialing (pm_targets m' ! i) = t_dialing (pm_targets m ! i)" for i
    using arg_cong [OF assms(2), of "\<lambda>xs. xs ! i"] l by simp
  show ?thesis
  proof (rule slots_okI)
    fix i p
    assume "i < length (pm_targets m')" "t_dialing (pm_targets m' ! i) = Some p"
    then show "map_of (pm_static_dial_conn m') p = Some i" using l n [of i] assms(3) slots_okD(1) [OF assms(1), of i p] by simp
  next
    fix i p
    assume "map_of (pm_static_dial_conn m') p = Some i"
    then show "i < length (pm_targets m') \<and> t_dialing (pm_targets m' ! i) = Some p \<and> alive p m'"
      using l n [of i] assms(3,4) slots_okD(2-4) [OF assms(1), of p i] by simp
  qed
qed

text \<open>Clearing the slot of a dial.\<close>

lemma slots_clear:
  assumes "slots_ok m" "map_of (pm_static_dial_conn m) p = Some i" "t_dialing t = None"
    "pm_targets m' = (pm_targets m)[i := t]" "pm_static_dial_conn m' = AList.delete p (pm_static_dial_conn m)"
    "\<And>q. q \<noteq> p \<Longrightarrow> alive q m \<Longrightarrow> alive q m'"
  shows "slots_ok m'"
proof (rule slots_okI)
  fix j q
  assume j: "j < length (pm_targets m')" "t_dialing (pm_targets m' ! j) = Some q"
  then have "j \<noteq> i" using assms(3,4) by auto
  then have "map_of (pm_static_dial_conn m) q = Some j" using j assms(4) slots_okD(1) [OF assms(1)] by simp
  then show "map_of (pm_static_dial_conn m') q = Some j" using assms(2,5) \<open>j \<noteq> i\<close> by (auto simp: map_of_delete)
next
  fix j q
  assume "map_of (pm_static_dial_conn m') q = Some j"
  then have q: "q \<noteq> p" "map_of (pm_static_dial_conn m) q = Some j" using assms(5) by (auto simp: map_of_delete split: if_splits)
  then have "j \<noteq> i" using slots_okD(3) [OF assms(1) assms(2)] slots_okD(3) [OF assms(1) q(2)] by auto
  then show "j < length (pm_targets m') \<and> t_dialing (pm_targets m' ! j) = Some q \<and> alive q m'"
    using q assms(4,6) slots_okD(2-4) [OF assms(1) q(2)] by simp
qed

lemma alive_put: "alive q m \<Longrightarrow> q \<noteq> c_ptr c \<or> \<not> c_dead c \<Longrightarrow> alive q (put_conn c m)"
  using find_put_same [of c m] by (cases "q = c_ptr c") (auto simp: alive_def)

lemma alive_append: "pm_conns m' = pm_conns m @ [c] \<Longrightarrow> alive p m \<Longrightarrow> alive p m'"
  by (auto simp: alive_def find_conn_def find_append)

lemma alive_cong: "pm_conns m' = pm_conns m \<Longrightarrow> alive p m' = alive p m"
  by (simp add: alive_def find_conn_def)

lemma slots_closed:
  assumes "slots_ok m" "close_effect c m = Some m'"
  shows "slots_ok m'"
proof -
  from close_effectD [OF assms(2)] obtain m1 where m1: "free_static_slot (c_ptr c) (put_conn c m) = Some m1" "m' = release_effect c (detach_estab c m1)" .
  have al: "q \<noteq> c_ptr c \<Longrightarrow> alive q m \<Longrightarrow> alive q m'" for q
    using alive_put [of q m c] alive_cong [of m' "put_conn c m" q] close_effect_conns [OF assms(2)] by simp
  show ?thesis
  proof (cases "map_of (pm_static_dial_conn m) (c_ptr c)")
    case None
    have eq: "pm_targets m' = pm_targets m" "pm_static_dial_conn m' = pm_static_dial_conn m" using m1 None by (auto simp: free_static_slot_def)
    show ?thesis
    proof (rule slots_okI)
      fix i p
      assume "map_of (pm_static_dial_conn m') p = Some i"
      then have "map_of (pm_static_dial_conn m) p = Some i" "p \<noteq> c_ptr c" using eq None by auto
      then show "i < length (pm_targets m') \<and> t_dialing (pm_targets m' ! i) = Some p \<and> alive p m'"
        using eq al slots_okD(2-4) [OF assms(1), of p i] by simp
    qed (use eq slots_okD(1) [OF assms(1)] in simp)
  next
    case (Some i)
    then have "pm_targets m' = (pm_targets m)[i := (pm_targets m ! i)\<lparr>t_dialing := None\<rparr>]"
      "pm_static_dial_conn m' = AList.delete (c_ptr c) (pm_static_dial_conn m)"
      using m1 by (auto simp: free_static_slot_def split: if_splits)
    then show ?thesis by (intro slots_clear [OF assms(1) Some]) (use al in simp_all)
  qed
qed

lemma slots_frame:
  "slots_ok m \<Longrightarrow> pm_targets m' = pm_targets m \<Longrightarrow> pm_static_dial_conn m' = pm_static_dial_conn m \<Longrightarrow> pm_conns m' = pm_conns m \<Longrightarrow> slots_ok m'"
  by (erule slots_mono) (simp_all add: alive_cong [of m' m])

lemma slots_dial:
  assumes "slots_ok m" "new_conn E c m" "i < length (pm_targets m)" "t_dialing (pm_targets m ! i) = None"
  shows "slots_ok (m\<lparr>pm_conns := pm_conns m @ [c], pm_targets := (pm_targets m)[i := (pm_targets m ! i)\<lparr>t_dialing := Some (c_ptr c)\<rparr>],
      pm_static_dial_conn := AList.update (c_ptr c) i (pm_static_dial_conn m)\<rparr>)" (is "slots_ok ?m")
proof -
  have nc: "find_conn (c_ptr c) m = None" using assms(2) by (simp add: new_conn_def find_conn_None)
  have new: "map_of (pm_static_dial_conn m) (c_ptr c) = None"
    using slots_okD(4) [OF assms(1), of "c_ptr c"] nc by (cases "map_of (pm_static_dial_conn m) (c_ptr c)") (auto simp: alive_def)
  have "\<not> c_dead c" using assms(2) by (auto simp: new_conn_def fresh_conn_def conn_init_def)
  then have me: "alive (c_ptr c) ?m" using nc by (simp add: alive_def find_conn_def find_append)
  have other: "alive q m \<Longrightarrow> alive q ?m" for q by (rule alive_append) simp_all
  show ?thesis
  proof (rule slots_okI)
    fix j q
    assume j: "j < length (pm_targets ?m)" "t_dialing (pm_targets ?m ! j) = Some q"
    show "map_of (pm_static_dial_conn ?m) q = Some j"
    proof (cases "j = i")
      case True
      then show ?thesis using j assms(3) by (simp add: update_conv)
    next
      case False
      then have "map_of (pm_static_dial_conn m) q = Some j" using j slots_okD(1) [OF assms(1)] by simp
      then show ?thesis using new by (auto simp: update_conv)
    qed
  next
    fix j q
    assume q: "map_of (pm_static_dial_conn ?m) q = Some j"
    show "j < length (pm_targets ?m) \<and> t_dialing (pm_targets ?m ! j) = Some q \<and> alive q ?m"
    proof (cases "q = c_ptr c")
      case True
      then show ?thesis using q assms(3) me by (simp add: update_conv)
    next
      case False
      then have o: "map_of (pm_static_dial_conn m) q = Some j" using q by (simp add: update_conv)
      then have "j \<noteq> i" using slots_okD(3) [OF assms(1) o] assms(4) by auto
      then show ?thesis using slots_okD(2-4) [OF assms(1) o] other [of q] by simp
    qed
  qed
qed

lemma slots_step:
  assumes "mstep E lv m m'" "slots_ok m"
  shows "slots_ok m'"
  using assms
proof induction
  case (Out c m c')
  then have "c_ptr c' = c_ptr c" "c_dead c' = c_dead c" using keeps_fields(1) [of "mgr_sys (me_sys E)" c c'] by (auto simp: outbound_def)
  then have "alive p m \<Longrightarrow> alive p (put_conn c' m)" for p using Out(1) alive_put [of p m c'] by (cases "p = c_ptr c") (auto simp: alive_def)
  then show ?case by (intro slots_mono [OF Out(3)]) simp_all
next
  case (Closed c m m')
  then show ?case using slots_closed by blast
next
  case (New c m)
  then show ?case by (intro slots_mono [OF New(2)]) (simp_all add: alive_append [of _ m c])
next
  case (Dial c m i)
  then show ?case by (intro slots_dial)
next
  case (Own c m)
  then show ?case by (intro slots_mono [OF Own(5)]) (simp_all add: alive_append [of _ m c])
next
  case (Event c m c')
  note f = conn_move_fields [OF Event(3)]
  then have "alive p m \<Longrightarrow> alive p (put_conn c' m)" for p using Event(2) alive_put [of p m c'] by (cases "p = c_ptr c") (auto simp: alive_def)
  then show ?case by (intro slots_mono [OF Event(4)]) simp_all
next
  case (Targets ts m)
  then show ?case by (intro slots_mono [OF Targets(2)]) (simp_all add: alive_def)
next
  case (Bound m p i t)
  then show ?case by (intro slots_clear [OF Bound(5,2,4)]) (simp_all add: alive_def)
next
  case (More ts m)
  show ?case
  proof (rule slots_okI)
    fix i p
    assume "i < length (pm_targets (m\<lparr>pm_targets := pm_targets m @ ts\<rparr>))" "t_dialing (pm_targets (m\<lparr>pm_targets := pm_targets m @ ts\<rparr>) ! i) = Some p"
    moreover have "t_dialing (ts ! (i - length (pm_targets m))) = None" if "\<not> i < length (pm_targets m)" "i < length (pm_targets m) + length ts"
      using More(2) that by simp
    ultimately show "map_of (pm_static_dial_conn (m\<lparr>pm_targets := pm_targets m @ ts\<rparr>)) p = Some i"
      using slots_okD(1) [OF More(3), of i p] by (auto simp: nth_append split: if_splits)
  next
    fix i p
    assume "map_of (pm_static_dial_conn (m\<lparr>pm_targets := pm_targets m @ ts\<rparr>)) p = Some i"
    then show "i < length (pm_targets (m\<lparr>pm_targets := pm_targets m @ ts\<rparr>)) \<and> t_dialing (pm_targets (m\<lparr>pm_targets := pm_targets m @ ts\<rparr>) ! i) = Some p \<and>
        alive p (m\<lparr>pm_targets := pm_targets m @ ts\<rparr>)"
      using slots_okD(2-4) [OF More(3), of p i] by (simp add: nth_append alive_def)
  qed
qed (erule slots_frame; simp add: emit_def)+

section \<open>Runs\<close>

lemma wf_step: "mstep E lv m m' \<Longrightarrow> lv \<noteq> Unchecked \<Longrightarrow> wf_mgr E m \<Longrightarrow> wf_mgr E m'"
  using conns_step [of E lv m m'] links_step [of E lv m m'] records_step [of E lv m m'] reap_step [of E lv m m'] slots_step [of E lv m m']
  by (simp add: wf_mgr_def)

lemma wf_msteps: "msteps E lv m m' \<Longrightarrow> lv \<noteq> Unchecked \<Longrightarrow> wf_mgr E m \<Longrightarrow> wf_mgr E m'"
  by (induction rule: rtranclp_induct) (auto intro: wf_step)

lemma loop_del_os: "\<exists>k. snd (loop_del (mgr_sys sys) fd m) = m\<lparr>pm_os := k\<rparr>"
  by (auto simp: loop_del_def mgr_sys_def os_call_def split: prod.splits)

lemma destroy_os: "\<exists>k. fold (destroy_conn E) cs m = m\<lparr>pm_os := k\<rparr>"
proof (induction cs arbitrary: m)
  case Nil
  then show ?case by (auto intro: exI [of _ "pm_os m"])
next
  case (Cons c cs)
  have "\<exists>k. destroy_conn E c m = m\<lparr>pm_os := k\<rparr>"
    using loop_del_os [of "me_sys E" "c_fd c" m] by (auto simp: destroy_conn_def intro: exI [of _ "pm_os m"])
  then obtain k where k: "destroy_conn E c m = m\<lparr>pm_os := k\<rparr>" by blast
  from Cons [of "m\<lparr>pm_os := k\<rparr>"] show ?case by (auto simp: k)
qed

text \<open>Destroying the queued connections: none of them is referred to.\<close>

lemma find_filter: "List.find (\<lambda>c. c_ptr c = p) (filter (\<lambda>c. c_ptr c \<notin> D) cs) = (if p \<in> D then None else List.find (\<lambda>c. c_ptr c = p) cs)"
  by (induction cs) auto

lemma reap_conns:
  "pm_conns (reap E m) = filter (\<lambda>c. c_ptr c \<notin> set (pm_reap m)) (pm_conns m)"
  "pm_building (reap E m) = pm_building m" "pm_estab (reap E m) = pm_estab m" "pm_records (reap E m) = pm_records m"
  "pm_targets (reap E m) = pm_targets m" "pm_static_dial_conn (reap E m) = pm_static_dial_conn m" "pm_reap (reap E m) = []"
  "pm_router (reap E m) = pm_router m" "pm_calls (reap E m) = pm_calls m"
proof -
  obtain k where "fold (destroy_conn E) (filter (\<lambda>c. c_ptr c \<in> set (pm_reap m)) (pm_conns m)) (m\<lparr>pm_reapScheduled := False, pm_reap := []\<rparr>) =
      m\<lparr>pm_reapScheduled := False, pm_reap := []\<rparr>\<lparr>pm_os := k\<rparr>"
    using destroy_os [of E "filter (\<lambda>c. c_ptr c \<in> set (pm_reap m)) (pm_conns m)" "m\<lparr>pm_reapScheduled := False, pm_reap := []\<rparr>"] by blast
  then show "pm_conns (reap E m) = filter (\<lambda>c. c_ptr c \<notin> set (pm_reap m)) (pm_conns m)"
    "pm_building (reap E m) = pm_building m" "pm_estab (reap E m) = pm_estab m" "pm_records (reap E m) = pm_records m"
    "pm_targets (reap E m) = pm_targets m" "pm_static_dial_conn (reap E m) = pm_static_dial_conn m" "pm_reap (reap E m) = []"
    "pm_router (reap E m) = pm_router m" "pm_calls (reap E m) = pm_calls m"
    by (simp_all add: reap_def Let_def)
qed

lemma alive_not_condemned:
  assumes "conns_ok E m" "reap_ok m" "alive p m"
  shows "p \<notin> set (pm_reap m)"
proof
  assume "p \<in> set (pm_reap m)"
  then have "condemned p m" using assms(2) by (simp add: reap_ok_def)
  then have "p \<in> set (pm_building m)" using assms(3) by (auto simp: alive_def condemned_def)
  moreover have "p \<in> set (map c_ptr (pm_conns m))" using assms(3) find_conn_None [of p m] by (auto simp: alive_def)
  ultimately show False using assms(1) by (auto simp: conns_ok_def)
qed

lemma find_reap: "find_conn p (reap E m) = (if p \<in> set (pm_reap m) then None else find_conn p m)"
  by (simp add: find_conn_def reap_conns find_filter)

lemma wf_reap:
  assumes "wf_mgr E m"
  shows "wf_mgr E (reap E m)"
proof -
  have c: "conns_ok E m" and l: "links_ok m" and r: "records_ok m" and q: "reap_ok m" and s: "slots_ok m" using assms by (simp_all add: wf_mgr_def)
  have al: "alive p m \<Longrightarrow> find_conn p (reap E m) = find_conn p m" for p using alive_not_condemned [OF c q, of p] by (simp add: find_reap)
  have "conns_ok E (reap E m)" using c by (auto simp: conns_ok_def reap_conns distinct_map_filter)
  moreover have "is_link i p m \<Longrightarrow> is_link i p (reap E m)" for i p using al [of p] by (auto simp: is_link_def alive_def)
  then have "links_ok (reap E m)" by (intro links_ok_mono [OF l]) (simp_all add: reap_conns)
  moreover have "records_ok (reap E m)" using r by (simp add: records_ok_def reap_conns)
  moreover have "reap_ok (reap E m)" by (simp add: reap_ok_def reap_conns)
  moreover have "slots_ok (reap E m)" by (rule slots_mono [OF s]) (use al in \<open>auto simp: reap_conns alive_def\<close>)
  ultimately show ?thesis by (simp add: wf_mgr_def)
qed

lemma shutdown_steps:
  assumes "pm_shutdown E L m = Some m'" "closes_by E L"
  shows "\<exists>m1. msteps E Entry m m1 \<and> pm_conns m' = [] \<and> pm_building m' = pm_building m1 \<and> pm_estab m' = [] \<and> pm_records m' = [] \<and>
    pm_targets m' = [] \<and> pm_static_dial_conn m' = [] \<and> pm_reap m' = [] \<and> pm_router m' = pm_router m1 \<and> pm_calls m' = pm_calls m1"
proof -
  from assms(1) obtain m1 where m1: "for_conns (\<lambda>p m1. do { c \<leftarrow> find_conn p m1;
             (if c_state c = Established then with_conn p (close_gracefully (conn_env E) L) m1 else Some m1) })
           (map c_ptr (pm_conns m)) (m\<lparr>pm_running := False\<rparr>) = Some m1"
    and m': "m' = (fold (destroy_conn E) (pm_conns m1) (m1\<lparr>pm_estab := []\<rparr>))\<lparr>pm_conns := [], pm_records := [], pm_targets := [],
             pm_static_dial_conn := [], pm_membership := mb_clear (pm_membership m1), pm_reap := []\<rparr>"
    by (auto simp: pm_shutdown_def bind_eq_Some_conv)
  have "mstep E Entry m (m\<lparr>pm_running := False\<rparr>)" by (rule mstep.Running) simp
  moreover have "msteps E Entry (m\<lparr>pm_running := False\<rparr>) m1"
    by (rule for_conns_steps [OF _ m1]) (auto simp: bind_eq_Some_conv split: if_splits intro: with_conn_sends [OF _ assms(2) close_gracefully_sends])
  ultimately have "msteps E Entry m m1" by (rule converse_rtranclp_into_rtranclp)
  moreover obtain k where "fold (destroy_conn E) (pm_conns m1) (m1\<lparr>pm_estab := []\<rparr>) = m1\<lparr>pm_estab := []\<rparr>\<lparr>pm_os := k\<rparr>"
    using destroy_os [of E "pm_conns m1" "m1\<lparr>pm_estab := []\<rparr>"] by blast
  ultimately show ?thesis using m' by auto
qed

text \<open>Every event of the manager but reaping and shutting down is a sequence of steps.\<close>

lemma mgr_step_steps:
  assumes "mgr_step E n e m = Some m'" "conns_ok E m" "reap_ok m" "e \<noteq> Timer_reap" "e \<noteq> Shutdown"
  shows "msteps E Entry m m'"
proof (cases e)
  case (Io p ev)
  then show ?thesis using assms(1,2) conn_event_steps [of E n p ev m m'] by (simp add: conns_ok_def)
next
  case (Accept fd addr)
  have "set (pm_reap m) \<subseteq> set (map c_ptr (pm_conns m) @ pm_building m)"
  proof
    fix p assume "p \<in> set (pm_reap m)"
    then have "condemned p m" using assms(3) by (simp add: reap_ok_def)
    then show "p \<in> set (map c_ptr (pm_conns m) @ pm_building m)" using find_conn_None [of p m] by (auto simp: condemned_def)
  qed
  then show ?thesis using Accept assms(1) accept_connection_steps [of E n fd addr m m'] by simp
next
  case (Discover a src)
  then show ?thesis using assms(1) on_discovered_steps [OF _ closes_by_sender, of E n] by simp
next
  case (Broadcast p)
  then show ?thesis using assms(1) originate_steps(1) [OF closes_by_sender, of E n] by simp
next
  case (Targeted dst p)
  then show ?thesis using assms(1) originate_steps(2) [OF closes_by_sender, of E n] by simp
next
  case Timer_tick
  then show ?thesis using assms(1) tick_steps [OF _ closes_by_sender, of E n] by simp
next
  case (Timer_reconnect i)
  then show ?thesis using assms(1) on_reconnect_timer_steps [OF _ closes_by_sender, of E n] by simp
next
  case (Timer_sweep cb)
  obtain now m1 where now: "pm_now E m = (now, m1)" by fastforce
  obtain gr el where rs: "run_sweep Sweep_cb (me_cfg E) now cb (pm_router m1, pm_loop m1) = (gr, el)" by fastforce
  then have "gr = evict_sweep (me_cfg E) now (pm_router m1)" by (cases cb) auto
  then have "mstep E Entry m1 (m1\<lparr>pm_router := gr, pm_calls := pm_calls m1 @ map (\<lambda>(from, payload). Message_received from payload) []\<rparr>)"
    by (intro mstep.Route [of _ _ "(now, Sweep)"]) simp_all
  moreover have "mstep E Entry (m1\<lparr>pm_router := gr\<rparr>) (m1\<lparr>pm_router := gr, pm_loop := el\<rparr>)" by (rule mstep.Arm)
  ultimately show ?thesis using Timer_sweep assms(1) now rs pm_now_step [OF now, of E Entry] by (auto intro: rtranclp.rtrancl_into_rtrancl)
next
  case Start
  then show ?thesis using assms(1) pm_start_steps [OF _ closes_by_sender, of E n] by simp
qed (use assms in simp_all)

lemma wf_mgr_step:
  assumes "mgr_step E n e m = Some m'" "wf_mgr E m"
  shows "wf_mgr E m'"
proof (cases "e = Timer_reap \<or> e = Shutdown")
  case True
  then show ?thesis
  proof
    assume "e = Timer_reap"
    then show ?thesis using assms wf_reap [of E m] by simp
  next
    assume "e = Shutdown"
    then obtain m1 where m1: "msteps E Entry m m1" "pm_conns m' = []" "pm_building m' = pm_building m1" "pm_estab m' = []" "pm_records m' = []"
      "pm_targets m' = []" "pm_static_dial_conn m' = []" "pm_reap m' = []"
      using assms(1) shutdown_steps [OF _ closes_by_sender, of E n m m'] by auto
    have "conns_ok E m1" using wf_msteps [OF m1(1)] assms(2) by (simp add: wf_mgr_def)
    then show ?thesis using m1(2-) by (simp add: wf_mgr_def conns_ok_def links_ok_def records_ok_def reap_ok_def slots_ok_def)
  qed
next
  case False
  then show ?thesis using mgr_step_steps [OF assms(1)] wf_msteps [of E Entry m m'] assms(2) by (simp add: wf_mgr_def)
qed

lemma wf_mgr_run: "mgr_run E n es m = Some m' \<Longrightarrow> wf_mgr E m \<Longrightarrow> wf_mgr E m'"
  by (induction es arbitrary: m) (auto simp: bind_eq_Some_conv intro: wf_mgr_step)

lemma wf_mgr_init: "wf_mgr E (peer_manager_init E rd1 rd2 wall1 wall2 os)"
  by (simp add: wf_mgr_def conns_ok_def links_ok_def records_ok_def reap_ok_def slots_ok_def peer_manager_init_def)

end
