(* ===== verification/ManagerLab.thy ===== *)
theory ManagerLab
  imports ManagerInvariant ConnectionHandshake
begin

text \<open>
  A small concrete world in which the manager of an open mesh runs: an operating system that delivers
  a script of byte strings, whose sockets take no data, and whose clock stands still; and three
  events evaluated in it.  A peer connects, says hello and becomes a link, and hangs up.
\<close>

section \<open>The world\<close>

text \<open>An entry \<open>None\<close> of the script is a read that would block.\<close>

definition lab_sys :: "bytes option list sys" where
  "lab_sys = (idle_sys 0)\<lparr>sys_recv := (\<lambda>fd n k. case k of
     Some b # k' \<Rightarrow> (Inr (take n b), k') | None # k' \<Rightarrow> (Inl EAGAIN, k') | [] \<Rightarrow> (Inl EAGAIN, []))\<rparr>"

definition lab_net :: "bytes option list net" where
  "lab_net = \<lparr>inet_pton = (\<lambda>s. Some 0x7F000001), net_socket_udp = (\<lambda>k. (Inr 4, k)), net_setsockopt = (\<lambda>_ _ _ k. k), net_bind = (\<lambda>_ _ k. (Inr (), k)),
     net_listen = (\<lambda>_ _ k. (Inr (), k)), net_getsockname = (\<lambda>_ k. (None, k)), net_accept = (\<lambda>_ k. (Inl EAGAIN, k)), net_join = (\<lambda>_ _ _ k. (Inr (), k)),
     net_sendto = (\<lambda>_ _ _ k. k), net_recvfrom = (\<lambda>_ _ k. (Inl EAGAIN, k))\<rparr>"

definition open_li :: "byte \<Rightarrow> local_identity" where
  "open_li b = (sample_li b)\<lparr>li_secure := False, li_hasIdentity := False\<rparr>"

definition lab_env :: "seed_peer list \<Rightarrow> bytes option list mgr_env" where
  "lab_env sps = \<lparr>me_sys = lab_sys, me_net = lab_net, me_crypto = None, me_cfg = (default_config (Peer_id (replicate 16 1)))\<lparr>staticPeers := sps\<rparr>,
     me_self = open_li 1, me_objs = [], me_new = (\<lambda>k. (0, k)), me_getaddrinfo = (\<lambda>_ k. (None, k)), me_rand = (\<lambda>k. (5, k)), me_uniform = (\<lambda>lo hi k. (lo, k))\<rparr>"

definition lab_start :: "bytes option list \<Rightarrow> bytes option list manager" where
  "lab_start k = peer_manager_init (lab_env []) 0 0 0 0 k"

lemma lab_sys_simps [simp]:
  "sys_now (mgr_sys lab_sys) m = (0, m)" "sys_epoll_ctl (mgr_sys lab_sys) opn fd ev p m = (True, m)"
  "sys_send (mgr_sys lab_sys) fd bs m = (Inl EAGAIN, m)" "sys_socket_tcp (mgr_sys lab_sys) m = (Inr 3, m)"
  "sys_connect (mgr_sys lab_sys) fd a m = (Inr (), m)"
  "sys_recv (mgr_sys lab_sys) fd n m = (case pm_os m of
     Some b # k \<Rightarrow> (Inr (take n b), m\<lparr>pm_os := k\<rparr>) | None # k \<Rightarrow> (Inl EAGAIN, m\<lparr>pm_os := k\<rparr>) | [] \<Rightarrow> (Inl EAGAIN, m))"
  by (cases m; auto simp: mgr_sys_def os_call_def lab_sys_def idle_sys_def split: list.splits option.splits)+

lemma lab_env_simps [simp]:
  "me_sys (lab_env sps) = lab_sys" "me_objs (lab_env sps) = []" "me_crypto (lab_env sps) = None" "me_self (lab_env sps) = open_li 1"
  "me_cfg (lab_env sps) = (default_config (Peer_id (replicate 16 1)))\<lparr>staticPeers := sps\<rparr>"
  "ev_sys (conn_env (lab_env sps)) = mgr_sys lab_sys" "ev_crypto (conn_env (lab_env sps)) = None" "ev_self (conn_env (lab_env sps)) = open_li 1"
  "ev_cfg (conn_env (lab_env sps)) = (default_config (Peer_id (replicate 16 1)))\<lparr>staticPeers := sps\<rparr>"
  by (simp_all add: lab_env_def conn_env_def)

lemma lab_os [simp]:
  "os_call (me_rand (lab_env sps)) m = (5, m)" "os_call (me_new (lab_env sps)) m = (0, m)" "os_call (me_uniform (lab_env sps) lo hi) m = (lo, m)"
  "pm_now (lab_env sps) m = (0, m)"
  by (simp_all add: lab_env_def os_call_def pm_now_def lab_sys_def idle_sys_def)

lemma lab_bounded: "recv_bounded lab_sys" "send_bounded lab_sys" "recv_bounded (mgr_sys lab_sys)"
  by (auto simp: recv_bounded_def send_bounded_def lab_sys_def idle_sys_def mgr_sys_def os_call_def split: list.splits option.splits prod.splits)

section \<open>A peer connects\<close>

text \<open>The connection after its hello is queued, accepted or dialled.\<close>

definition lab_conn :: "bool \<Rightarrow> conn" where
  "lab_conn inb = (conn_init 2 3 sample_addr inb Handshaking 5 False 0)\<lparr>c_registered := True, c_wantWrite := True,
     c_out := buf_append (encode_hello (if inb then HelloAck else Hello) (my_hello (open_li 1) (conn_init 2 3 sample_addr inb Handshaking 5 False 0))) empty_buffer\<rparr>"

lemma lab_accept:
  "mgr_step (lab_env []) n (Accept 3 sample_addr) (lab_start k) = Some ((lab_start k)\<lparr>pm_conns := [lab_conn True]\<rparr>)"
proof -
  have "encode_hello HelloAck h \<noteq> []" for h
    using length_patch_length by (simp add: encode_hello_def put_u32_def flip: length_0_conv)
  then show ?thesis
    by (simp add: accept_connection_def alloc_def new_addr_def accept_conn_def loop_add_def send_hello_def push_out_def
        flush_outbound.simps [of "conn_env (lab_env [])"] update_epoll_def loop_mod_def conn_init_def Let_def buf_empty_iff
        lab_start_def peer_manager_init_def lab_conn_def open_li_def sample_li_def my_hello_def)
qed

section \<open>The peer says hello\<close>

text \<open>The peer is the node whose id repeats the byte \<open>b\<close>.\<close>

definition lab_hello :: "byte \<Rightarrow> hello" where
  "lab_hello b = my_hello (open_li b) (conn_init 8 4 sample_addr False Handshaking 5 False 0)"

definition lab_bytes :: "byte \<Rightarrow> bytes" where
  "lab_bytes b = encode_msg (MHello (lab_hello b))"

lemma lab_hello_fields [simp]:
  "h_protocolVersion (lab_hello b) = 1" "h_groupName (lab_hello b) = ''lab''" "\<not> h_secure (lab_hello b)"
  "h_nodeId (lab_hello b) = Peer_id (replicate 16 b)" "h_tcpListenPort (lab_hello b) = 9000" "h_nonce (lab_hello b) = 5" "\<not> h_hasIdentity (lab_hello b)"
  by (simp_all add: lab_hello_def my_hello_def open_li_def sample_li_def conn_init_def)

lemma lab_bytes_length: "5 \<le> length (lab_bytes b)" "length (lab_bytes b) \<le> 1000"
  by (simp_all add: lab_bytes_def lab_hello_def encode_hello_def put_u8_def put_u16_def put_u32_def put_u64_def put_bytes_def put_id_def
      put_str_def put_bool_def my_hello_def open_li_def sample_li_def conn_init_def null_keys_def)

lemma lab_frame:
  "f_hello (parsed_msg (MHello (lab_hello b)) parsed_frame_init) = lab_hello b" "f_type (parsed_msg (MHello (lab_hello b)) parsed_frame_init) = Hello"
  using canon_my_hello [of "open_li b"] by (simp_all add: parsed_frame_init_def lab_hello_def open_li_def sample_li_def)

lemma lab_decode:
  "try_decode_frame (lab_bytes b @ rest) (maxMessageBytes (default_config i)) out = Ok (parsed_msg (MHello (lab_hello b)) out) (length (lab_bytes b))"
  unfolding lab_bytes_def
proof (rule decode_encode)
  show "wf_msg (MHello (lab_hello b))"
    by (simp add: wf_hello_def lab_hello_def my_hello_def open_li_def sample_li_def conn_init_def wf_id_def hello_init_def)
qed (use lab_bytes_length [of b] in \<open>simp_all add: default_config_def lab_bytes_def\<close>)

lemma lab_read:
  assumes "pm_os m = Some (lab_bytes b) # None # k"
  shows "read_loop (conn_env (lab_env sps)) L (lab_conn inb, m) = Some (True, (lab_conn inb)\<lparr>c_in := buf_append (lab_bytes b) empty_buffer\<rparr>, m\<lparr>pm_os := k\<rparr>)"
  using lab_bounded(3) lab_bytes_length [of b] assms by (auto simp: read_loop_unfold EAGAIN_def lab_conn_def conn_init_def)

text \<open>The connection when its handshake is done.\<close>

definition lab_hand :: "bool \<Rightarrow> byte \<Rightarrow> conn" where
  "lab_hand inb b = (lab_conn inb)\<lparr>c_in := consume (length (lab_bytes b)) (buf_append (lab_bytes b) empty_buffer), c_peerId := Peer_id (replicate 16 b),
     c_peerListenPort := 9000, c_peerNonce := 5, c_state := Established\<rparr>"

lemma lab_fields [simp]:
  "c_ptr (lab_conn inb) = 2" "c_state (lab_conn inb) = Handshaking" "\<not> c_secure (lab_conn inb)" "\<not> c_dead (lab_conn inb)" "c_lastRecv (lab_conn inb) = 0"
  "c_ptr (lab_hand inb b) = 2" "c_fd (lab_hand inb b) = 3" "c_peerId (lab_hand inb b) = Peer_id (replicate 16 b)" "\<not> c_dead (lab_hand inb b)" "c_state (lab_hand inb b) = Established"
  "\<not> c_secure (lab_hand inb b)" "c_registered (lab_hand inb b)" "c_wantWrite (lab_hand inb b)" "c_peerAddr (lab_hand inb b) = sample_addr"
  "buf_data (c_in (lab_hand inb b)) = []" "wf_buffer (c_out (lab_hand inb b))" "wf_buffer (c_in (lab_hand inb b))"
  by (simp_all add: lab_conn_def lab_hand_def conn_init_def)

lemma lab_hand_out: "buf_size (c_out (lab_hand inb b)) \<le> 1000"
  by (simp add: lab_conn_def lab_hand_def conn_init_def encode_hello_def put_u8_def put_u16_def put_u32_def put_u64_def put_bytes_def put_id_def
      put_str_def put_bool_def my_hello_def open_li_def sample_li_def null_keys_def empty_buffer_def buf_size_def buf_append_def)

lemma lab_hello_in:
  assumes "cl_handshake L (lab_hello b) (lab_hand inb b, m) = Some (c', m')" "c_in c' = c_in (lab_hand inb b)" "\<not> c_dead c'" "\<not> c_secure c'"
  shows "parse_plaintext (conn_env (lab_env sps)) L ((lab_conn inb)\<lparr>c_in := buf_append (lab_bytes b) empty_buffer\<rparr>, m) = Some (True, c', m')"
proof -
  let ?c = "(lab_conn inb)\<lparr>c_in := buf_append (lab_bytes b) empty_buffer\<rparr>" and ?f = "parsed_msg (MHello (lab_hello b)) parsed_frame_init"
  have e: "src_consume In (length (lab_bytes b)) (note_hello (lab_hello b) (?c\<lparr>c_lastRecv := 0\<rparr>))\<lparr>c_state := Established\<rparr> = lab_hand inb b"
    by (simp add: lab_hand_def note_hello_def lab_conn_def conn_init_def)
  have "dispatch (conn_env (lab_env sps)) L ?f (length (lab_bytes b)) In (?c, m) =
      handle_hello (conn_env (lab_env sps)) L ?f (length (lab_bytes b)) In (?c\<lparr>c_lastRecv := 0\<rparr>, m)"
    using lab_frame(2) by (simp add: dispatch_def del: parsed_msg.simps)
  also have "\<dots> = Some (True, c', m')"
    using assms e lab_frame(1) [of b]
    by (simp add: handle_hello_def Let_def open_li_def sample_li_def unless_dead_def note_hello_def del: parsed_msg.simps src_consume.simps)
  finally have "dispatch (conn_env (lab_env sps)) L ?f (length (lab_bytes b)) In (?c, m) = Some (True, c', m')" .
  moreover have "parse_plaintext (conn_env (lab_env sps)) L (c', m') = Some (True, c', m')"
    using assms(2) by (subst parse_plaintext.simps) (simp add: try_decode_frame_def)
  ultimately show ?thesis using lab_decode [of b "[]"] assms(4) by (subst parse_plaintext.simps) simp
qed

section \<open>The peer becomes a link\<close>

definition lab_membership :: "byte \<Rightarrow> membership" where
  "lab_membership b = fst (set_local_neighbors [Peer_id (replicate 16 b)] 0 (membership_init 0 (Peer_id (replicate 16 1))))"

definition lab_flood :: "byte \<Rightarrow> bytes" where
  "lab_flood b = encode_membership \<lparr>m_origin = Peer_id (replicate 16 1), m_version = 1, m_neighbors = [Peer_id (replicate 16 b)]\<rparr>"

definition lab_link :: "bool \<Rightarrow> byte \<Rightarrow> conn" where
  "lab_link inb b = (lab_hand inb b)\<lparr>c_out := buf_append (lab_flood b) (c_out (lab_hand inb b)), c_lastSend := 0\<rparr>"

definition lab_linked :: "byte \<Rightarrow> bytes option list \<Rightarrow> bytes option list manager" where
  "lab_linked b k = (lab_start k)\<lparr>pm_conns := [lab_link True b], pm_membership := lab_membership b, pm_estab := [(Peer_id (replicate 16 b), 2)],
     pm_records := [(Peer_id (replicate 16 b), \<lparr>pr_id = Peer_id (replicate 16 b), pr_dialAddr = sample_addr, pr_haveAddr = True,
        pr_state = Connected, pr_lastSeen = 0, pr_reconnectAttempts = 0, pr_announced = True, pr_isStatic = False, pr_conn = Some 2\<rparr>)],
     pm_calls := [Peer_discovered (Peer_id (replicate 16 b)), Known_snapshot [Peer_id (replicate 16 b)],
        Peer_connected (Peer_id (replicate 16 b)), Connected_snapshot [Peer_id (replicate 16 b)],
        Member_event (Member_joined (Peer_id (replicate 16 b))), Member_event (Members_snapshot [Peer_id (replicate 16 b)])]\<rparr>"

lemma lab_neighbors:
  assumes "b \<noteq> 1"
  shows "set_local_neighbors [Peer_id (replicate 16 b)] 0 (membership_init 0 (Peer_id (replicate 16 1))) =
    (lab_membership b, [Member_joined (Peer_id (replicate 16 b)), Members_snapshot [Peer_id (replicate 16 b)], Flood (lab_flood b) (-1)])"
proof -
  have "Peer_id (replicate 16 b) \<noteq> Peer_id (replicate 16 1)" using assms by simp
  then have "snd (set_local_neighbors [Peer_id (replicate 16 b)] 0 (membership_init 0 (Peer_id (replicate 16 1)))) =
      [Member_joined (Peer_id (replicate 16 b)), Members_snapshot [Peer_id (replicate 16 b)], Flood (lab_flood b) (-1)]"
    unfolding lab_flood_def
    by (simp add: set_local_neighbors_def recompute_and_fire_def membership_init_def build_adj_def flood_self_def reach_from_def Let_def add_edge_def)
  then show ?thesis unfolding lab_membership_def by (simp add: prod_eq_iff)
qed

lemma lab_flood_length: "lab_flood b \<noteq> []" "length (lab_flood b) \<le> 500"
  by (simp_all add: lab_flood_def encode_membership_def put_u8_def put_u16_def put_u32_def put_u64_def put_bytes_def put_id_def flip: length_0_conv)

lemma lab_send:
  assumes "\<not> c_dead c" "\<not> c_secure c" "c_registered c" "c_wantWrite c" "buf_size (c_out c) + length fr \<le> 2000" "fr \<noteq> []" "wf_buffer (c_out c)"
  shows "send_raw (conn_env (lab_env sps)) L fr (c, m) = Some (c\<lparr>c_out := buf_append fr (c_out c), c_lastSend := 0\<rparr>, m)"
  using assms by (simp add: send_raw_def enqueue_def outgoing_record_def queue_record_def push_out_def
      flush_outbound.simps [of "conn_env (lab_env sps)"] update_epoll_def buf_empty_iff default_config_def)

lemma lab_installs:
  assumes "b \<noteq> 1"
  shows "cl_handshake (mgr_listener (lab_env []) n) (lab_hello b) (lab_hand True b, (lab_start k)\<lparr>pm_conns := [lab_conn True]\<rparr>) = Some (lab_link True b, lab_linked b k)"
proof -
  have "send_raw (conn_env (lab_env [])) L (lab_flood b) (lab_hand True b, m) = Some (lab_link True b, m)" for L m
    unfolding lab_link_def using lab_hand_out [of True b] lab_flood_length [of b] by (intro lab_send) simp_all
  moreover have "c_ptr (lab_link True b) = 2" by (simp add: lab_link_def)
  moreover have "sample_addr\<lparr>sin_port := 9000\<rparr> = sample_addr" by (simp add: sample_addr_def)
  moreover have "replicate 16 b \<noteq> replicate 16 (1 :: byte)" using assms by simp
  ultimately show ?thesis
    by (simp add: mgr_listener_def Let_def from_conn_def on_peer_handshake_def bind_static_def lab_start_def peer_manager_init_def find_conn_def
        put_conn_def record_at_def announce_once_def install_link_def peer_record_init_def emit_def emit_known_snapshot_def update_local_membership_def
        emit_connected_snapshot_def mb_apply_def open_li_def sample_li_def lab_neighbors [OF assms] pm_forward_except_def with_conn_def those_def lab_linked_def)
qed

lemma lab_event:
  assumes "b \<noteq> 1"
  shows "mgr_step (lab_env []) n (Io 2 EPOLLIN) ((lab_start (Some (lab_bytes b) # None # k))\<lparr>pm_conns := [lab_conn True]\<rparr>) = Some (lab_linked b k)"
proof -
  let ?m = "(lab_start (Some (lab_bytes b) # None # k))\<lparr>pm_conns := [lab_conn True]\<rparr>" and ?m' = "(lab_start k)\<lparr>pm_conns := [lab_conn True]\<rparr>"
  have "?m\<lparr>pm_os := k\<rparr> = ?m'" by (simp add: lab_start_def peer_manager_init_def)
  with lab_read [of ?m b k] have "read_loop (conn_env (lab_env [])) L (lab_conn True, ?m) =
      Some (True, (lab_conn True)\<lparr>c_in := buf_append (lab_bytes b) empty_buffer\<rparr>, ?m')" for L
    by (simp add: lab_start_def peer_manager_init_def)
  moreover have "parse_plaintext (conn_env (lab_env [])) (mgr_listener (lab_env []) n) ((lab_conn True)\<lparr>c_in := buf_append (lab_bytes b) empty_buffer\<rparr>, ?m') =
      Some (True, lab_link True b, lab_linked b k)"
    using assms by (intro lab_hello_in lab_installs) (simp_all add: lab_link_def)
  ultimately have "on_io_events (conn_env (lab_env [])) (mgr_listener (lab_env []) n) EPOLLIN (lab_conn True, ?m) = Some (lab_link True b, lab_linked b k)"
    by (simp add: on_io_events_def do_read_def parse_inbound_def EPOLLIN_def EPOLLHUP_def EPOLLERR_def EPOLLOUT_def EPOLLRDHUP_def lab_link_def)
  moreover have "put_conn (lab_link True b) (lab_linked b k) = lab_linked b k" by (simp add: put_conn_def lab_linked_def)
  ultimately show ?thesis by (simp add: conn_event_def with_conn_def find_conn_def)
qed

lemma lab_run:
  assumes "b \<noteq> 1"
  shows "mgr_run (lab_env []) n [Accept 3 sample_addr, Io 2 EPOLLIN] (lab_start (Some (lab_bytes b) # None # k)) = Some (lab_linked b k)"
  using lab_event [OF assms, of n k] by (simp add: lab_accept del: mgr_step.simps)

lemma lab_link_fields [simp]:
  "c_ptr (lab_link inb b) = 2" "c_fd (lab_link inb b) = 3" "c_peerId (lab_link inb b) = Peer_id (replicate 16 b)" "\<not> c_dead (lab_link inb b)"
  "c_state (lab_link inb b) = Established" "\<not> c_secure (lab_link inb b)" "c_registered (lab_link inb b)" "wf_buffer (c_in (lab_link inb b))"
  by (simp_all add: lab_link_def)

section \<open>The peer hangs up\<close>

definition lab_hung_up :: "byte \<Rightarrow> conn" where
  "lab_hung_up b = (lab_link True b)\<lparr>c_dead := True, c_state := Dead, c_registered := False\<rparr>"

lemma is_zero_lab: "is_zero (Peer_id (replicate 16 b)) \<longleftrightarrow> b = 0"
  by (simp add: is_zero_def is_zero_bytes_iff)

lemmas lab_membership_eval = lab_membership_def set_local_neighbors_def recompute_and_fire_def membership_init_def build_adj_def
  flood_self_def reach_from_def Let_def add_edge_def

lemma lab_unlinked:
  assumes "b \<noteq> 1"
  shows "\<exists>mb fr. set_local_neighbors [] t (lab_membership b) = (mb, [Member_left (Peer_id (replicate 16 b)), Members_snapshot [], Flood fr (-1)])"
proof -
  have "Peer_id (replicate 16 b) \<noteq> Peer_id (replicate 16 1)" using assms by simp
  then show ?thesis by (simp add: lab_membership_eval)
qed

lemma lab_still_linked: "set_local_neighbors [Peer_id (replicate 16 0)] 0 (lab_membership 0) = (lab_membership 0, [])"
proof -
  have "mb_selfNeighbors (lab_membership 0) = [Peer_id (replicate 16 0)]" by (simp add: lab_membership_eval)
  then show ?thesis by (simp add: set_local_neighbors_def)
qed

lemmas lab_reading = conn_event_def with_conn_def find_conn_def lab_linked_def on_io_events_def EPOLLIN_def EPOLLHUP_def EPOLLERR_def EPOLLOUT_def
  EPOLLRDHUP_def do_read_def read_loop_unfold lab_bounded lab_start_def peer_manager_init_def

lemmas lab_closing = reject_def fail_def mark_dead_def loop_del_def mgr_listener_def Let_def from_conn_def closed_body_def free_static_slot_def
  detach_estab_def owning_record_def is_zero_lab release_record_def find_conn_def put_conn_def emit_def emit_connected_snapshot_def
  update_local_membership_def mb_apply_def pm_forward_except_def those_def schedule_reconnect_def schedule_reap_def arm_def lab_hung_up_def

lemma lab_hangup:
  assumes "b \<noteq> 1" "b \<noteq> 0"
  shows "\<exists>m. mgr_step (lab_env []) (Suc n) (Io 2 EPOLLIN) (lab_linked b (Some [] # k)) = Some m \<and>
    pm_conns m = [lab_hung_up b] \<and> pm_estab m = [] \<and> pm_reap m = [2]"
proof -
  from lab_unlinked [OF assms(1)] obtain mb fr where
    u: "set_local_neighbors [] 0 (lab_membership b) = (mb, [Member_left (Peer_id (replicate 16 b)), Members_snapshot [], Flood fr (-1)])" by blast
  show ?thesis using assms by (simp add: lab_reading) (simp add: lab_closing u)
qed

lemma lab_hangup_zero:
  "\<exists>m. mgr_step (lab_env []) (Suc n) (Io 2 EPOLLIN) (lab_linked 0 (Some [] # k)) = Some m \<and>
    pm_conns m = [lab_hung_up 0] \<and> pm_estab m = [(zero_id, 2)] \<and> pm_reap m = [2]"
  by (simp add: lab_reading) (simp add: lab_closing lab_still_linked zero_id_def)

section \<open>A static peer is dialled\<close>

definition lab_seed :: seed_peer where
  "lab_seed = \<lparr>sp_host = ''h'', sp_port = 9000\<rparr>"

lemma lab_resolve [simp]: "resolve_endpoint (lab_env sps) (sp_host lab_seed) port m = (Some \<lparr>sin_addr = 0x7F000001, sin_port = port\<rparr>, m)"
  by (simp add: resolve_endpoint_def make_addr_def lab_env_def lab_net_def lab_seed_def)

lemma lab_dial:
  "\<exists>m. mgr_run (lab_env [lab_seed]) n [Start] (lab_start k) = Some m \<and> map c_ptr (pm_conns m) = [2] \<and> pm_static_dial_conn m = [(2, 0)] \<and>
    length (pm_targets m) = 1 \<and> t_dialing (pm_targets m ! 0) = Some 2"
proof -
  have "seedPeers (default_config i) = []" for i by (simp add: default_config_def)
  then show ?thesis
    by (simp add: pm_start_def lab_start_def peer_manager_init_def dial_seeds_def maintain_static_peers_def start_static_dial_def jittered_backoff_def
        Let_def dial_with_def alloc_def new_addr_def dial_conn_def conn_init_def with_conn_def find_conn_def start_connect_def loop_add_def put_conn_def
        schedule_tick_def arm_def)
qed

end
