(* ===== verification/ManagerLabStatic.thy ===== *)
theory ManagerLabStatic
  imports ManagerLab
begin

text \<open>
  The same world with a static peer: the manager dials it at the start, the connection completes,
  the peer says hello and becomes a link; later the peer falls silent.
\<close>

section \<open>The dial completes\<close>

definition lab_loop :: "loop_cb event_loop" where
  "lab_loop = snd (add_timer 0 (ms (heartbeatInterval (default_config (Peer_id (replicate 16 1))))) Tick_cb
     (gr_start Sweep_cb ((default_config (Peer_id (replicate 16 1)))\<lparr>staticPeers := [lab_seed]\<rparr>) 0 event_loop_init))"

definition lab_target :: "peer_id option \<Rightarrow> int \<Rightarrow> nat option \<Rightarrow> static_target" where
  "lab_target learned n dialing = \<lparr>t_host = sp_host lab_seed, t_port = 9000, t_learnedId = learned, t_attempts = n,
     t_nextAttempt = ms (backoff_ms ((default_config (Peer_id (replicate 16 1)))\<lparr>staticPeers := [lab_seed]\<rparr>) 0), t_dialing = dialing\<rparr>"

definition lab_dialing :: "bytes option list \<Rightarrow> bytes option list manager" where
  "lab_dialing k = (lab_start k)\<lparr>pm_conns := [(conn_init 2 3 sample_addr False ConnectingOut 5 False 0)\<lparr>c_registered := True, c_wantWrite := True\<rparr>],
     pm_targets := [lab_target None 1 (Some 2)], pm_static_dial_conn := [(2, 0)], pm_running := True, pm_loop := lab_loop\<rparr>"

lemma open_li_fields [simp]: "\<not> li_secure (open_li b)" "li_nodeId (open_li b) = Peer_id (replicate 16 b)" "\<not> li_hasIdentity (open_li b)"
  by (simp_all add: open_li_def sample_li_def)

lemma lab_seed_port [simp]: "sp_port lab_seed = 9000"
  by (simp add: lab_seed_def)

lemma lab_started: "mgr_step (lab_env [lab_seed]) n Start (lab_start k) = Some (lab_dialing k)"
proof -
  have "seedPeers (default_config i) = []" for i by (simp add: default_config_def)
  then show ?thesis
    by (simp add: pm_start_def lab_start_def peer_manager_init_def dial_seeds_def maintain_static_peers_def start_static_dial_def jittered_backoff_def
        Let_def dial_with_def alloc_def new_addr_def dial_conn_def  with_conn_def find_conn_def start_connect_def loop_add_def put_conn_def
        schedule_tick_def arm_def conn_init_def lab_dialing_def lab_target_def lab_loop_def sample_addr_def)
qed

definition lab_greeting :: "bytes option list \<Rightarrow> bytes option list manager" where
  "lab_greeting k = (lab_dialing k)\<lparr>pm_conns := [lab_conn False]\<rparr>"

lemma lab_connected: "mgr_step (lab_env [lab_seed]) n (Io 2 EPOLLOUT) (lab_dialing k) = Some (lab_greeting k)"
proof -
  have "encode_hello Hello h \<noteq> []" for h
    using length_patch_length by (simp add: encode_hello_def put_u32_def flip: length_0_conv)
  moreover have "sys_so_error (mgr_sys lab_sys) fd m = (True, 0, m)" for fd m by (simp add: mgr_sys_def lab_sys_def idle_sys_def)
  ultimately show ?thesis
    by (simp add: lab_greeting_def lab_dialing_def conn_event_def with_conn_def find_conn_def put_conn_def lab_conn_def conn_init_def my_hello_def
        on_io_events_def on_connect_complete_def send_hello_def push_out_def flush_outbound.simps [of "conn_env (lab_env [lab_seed])"] update_epoll_def loop_mod_def
        EPOLLIN_def EPOLLHUP_def EPOLLERR_def EPOLLOUT_def EPOLLRDHUP_def buf_empty_iff Let_def)
qed

section \<open>The peer becomes a link\<close>

definition lab_static_linked :: "byte \<Rightarrow> bytes option list \<Rightarrow> bytes option list manager" where
  "lab_static_linked b k = (lab_greeting k)\<lparr>pm_conns := [lab_link False b], pm_membership := lab_membership b, pm_estab := [(Peer_id (replicate 16 b), 2)],
     pm_records := [(Peer_id (replicate 16 b), \<lparr>pr_id = Peer_id (replicate 16 b), pr_dialAddr = sample_addr, pr_haveAddr = True,
        pr_state = Connected, pr_lastSeen = 0, pr_reconnectAttempts = 0, pr_announced = True, pr_isStatic = True, pr_conn = Some 2\<rparr>)],
     pm_targets := [lab_target (Some (Peer_id (replicate 16 b))) 0 None], pm_static_dial_conn := [],
     pm_calls := [Peer_discovered (Peer_id (replicate 16 b)), Known_snapshot [Peer_id (replicate 16 b)],
        Peer_connected (Peer_id (replicate 16 b)), Connected_snapshot [Peer_id (replicate 16 b)],
        Member_event (Member_joined (Peer_id (replicate 16 b))), Member_event (Members_snapshot [Peer_id (replicate 16 b)])]\<rparr>"

lemma lab_static_installs:
  assumes "b \<noteq> 1"
  shows "cl_handshake (mgr_listener (lab_env [lab_seed]) n) (lab_hello b) (lab_hand False b, lab_greeting k) = Some (lab_link False b, lab_static_linked b k)"
proof -
  have "send_raw (conn_env (lab_env [lab_seed])) L (lab_flood b) (lab_hand False b, m) = Some (lab_link False b, m)" for L m
    unfolding lab_link_def using lab_hand_out [of False b] lab_flood_length [of b] by (intro lab_send) simp_all
  moreover have "sample_addr\<lparr>sin_port := 9000\<rparr> = sample_addr" by (simp add: sample_addr_def)
  moreover have "replicate 16 b \<noteq> replicate 16 (1 :: byte)" using assms by simp
  ultimately show ?thesis
    by (simp add: mgr_listener_def Let_def from_conn_def on_peer_handshake_def bind_static_def lab_start_def peer_manager_init_def find_conn_def
        put_conn_def record_at_def announce_once_def install_link_def peer_record_init_def emit_def emit_known_snapshot_def update_local_membership_def
        emit_connected_snapshot_def mb_apply_def lab_neighbors [OF assms] pm_forward_except_def with_conn_def those_def lab_static_linked_def
        lab_greeting_def lab_dialing_def lab_target_def)
qed

lemma lab_static_event:
  assumes "b \<noteq> 1"
  shows "mgr_step (lab_env [lab_seed]) n (Io 2 EPOLLIN) (lab_greeting (Some (lab_bytes b) # None # k)) = Some (lab_static_linked b k)"
proof -
  have "(lab_greeting (Some (lab_bytes b) # None # k))\<lparr>pm_os := k\<rparr> = lab_greeting k"
    by (simp add: lab_greeting_def lab_dialing_def lab_start_def peer_manager_init_def)
  with lab_read [of "lab_greeting (Some (lab_bytes b) # None # k)" b k "[lab_seed]"] have
    "read_loop (conn_env (lab_env [lab_seed])) L (lab_conn False, lab_greeting (Some (lab_bytes b) # None # k)) =
      Some (True, (lab_conn False)\<lparr>c_in := buf_append (lab_bytes b) empty_buffer\<rparr>, lab_greeting k)" for L
    by (simp add: lab_greeting_def lab_dialing_def lab_start_def peer_manager_init_def)
  moreover have "parse_plaintext (conn_env (lab_env [lab_seed])) (mgr_listener (lab_env [lab_seed]) n)
      ((lab_conn False)\<lparr>c_in := buf_append (lab_bytes b) empty_buffer\<rparr>, lab_greeting k) = Some (True, lab_link False b, lab_static_linked b k)"
    using assms by (intro lab_hello_in lab_static_installs) (simp_all add: lab_link_def)
  ultimately have "on_io_events (conn_env (lab_env [lab_seed])) (mgr_listener (lab_env [lab_seed]) n) EPOLLIN
      (lab_conn False, lab_greeting (Some (lab_bytes b) # None # k)) = Some (lab_link False b, lab_static_linked b k)"
    by (simp add: on_io_events_def do_read_def parse_inbound_def EPOLLIN_def EPOLLHUP_def EPOLLERR_def EPOLLOUT_def EPOLLRDHUP_def)
  moreover have "put_conn (lab_link False b) (lab_static_linked b k) = lab_static_linked b k" by (simp add: put_conn_def lab_static_linked_def)
  moreover have "find_conn 2 (lab_greeting k') = Some (lab_conn False)" for k' by (simp add: find_conn_def lab_greeting_def)
  ultimately show ?thesis by (simp add: conn_event_def with_conn_def)
qed

lemma lab_static_run:
  assumes "b \<noteq> 1"
  shows "mgr_run (lab_env [lab_seed]) n [Start, Io 2 EPOLLOUT, Io 2 EPOLLIN] (lab_start (Some (lab_bytes b) # None # k)) = Some (lab_static_linked b k)"
  using lab_static_event [OF assms, of n k] by (simp add: lab_started lab_connected del: mgr_step.simps)

section \<open>Time passes\<close>

text \<open>The world when its clock reads \<open>t\<close>.\<close>

definition at_time :: "time_point \<Rightarrow> 'k mgr_env \<Rightarrow> 'k mgr_env" where
  "at_time t E = E\<lparr>me_sys := (me_sys E)\<lparr>sys_now := \<lambda>k. (t, k)\<rparr>\<rparr>"

abbreviation late :: "bytes option list mgr_env" where "late \<equiv> at_time (ms 10000) (lab_env [lab_seed])"

lemma late_simps [simp]:
  "sys_now (mgr_sys (me_sys (at_time t (lab_env sps)))) m = (t, m)" "sys_epoll_ctl (mgr_sys (me_sys (at_time t (lab_env sps)))) opn fd ev p m = (True, m)"
  "sys_send (mgr_sys (me_sys (at_time t (lab_env sps)))) fd bs m = (Inl EAGAIN, m)" "sys_socket_tcp (mgr_sys (me_sys (at_time t (lab_env sps)))) m = (Inr 3, m)"
  "sys_connect (mgr_sys (me_sys (at_time t (lab_env sps)))) fd a m = (Inr (), m)"
  by (cases m; simp add: at_time_def mgr_sys_def os_call_def lab_env_def lab_sys_def idle_sys_def)+

lemma late_env_simps [simp]:
  "me_objs (at_time t (lab_env sps)) = []" "me_self (at_time t (lab_env sps)) = open_li 1" "me_cfg (at_time t (lab_env sps)) = (default_config (Peer_id (replicate 16 1)))\<lparr>staticPeers := sps\<rparr>"
  "ev_sys (conn_env (at_time t (lab_env sps))) = mgr_sys (me_sys (at_time t (lab_env sps)))"
  "ev_crypto (conn_env (at_time t (lab_env sps))) = None"
  "ev_self (conn_env (at_time t (lab_env sps))) = open_li 1" "ev_cfg (conn_env (at_time t (lab_env sps))) = (default_config (Peer_id (replicate 16 1)))\<lparr>staticPeers := sps\<rparr>"
  by (simp_all add: at_time_def lab_env_def conn_env_def)

lemma late_os [simp]:
  "os_call (me_rand (at_time t (lab_env sps))) m = (5, m)" "os_call (me_new (at_time t (lab_env sps))) m = (0, m)" "os_call (me_uniform (at_time t (lab_env sps)) lo hi) m = (lo, m)"
  "pm_now (at_time t (lab_env sps)) m = (t, m)"
  "resolve_endpoint (at_time t (lab_env sps)) (sp_host lab_seed) port m = (Some \<lparr>sin_addr = 0x7F000001, sin_port = port\<rparr>, m)"
  by (simp_all add: at_time_def lab_env_def os_call_def pm_now_def lab_sys_def idle_sys_def resolve_endpoint_def make_addr_def lab_net_def lab_seed_def)

lemma late_push: 
  assumes "\<not> c_dead c" "\<not> c_secure c" "c_registered c" "c_wantWrite c" "buf_size (c_out c) + length fr \<le> 2000" "fr \<noteq> []" "wf_buffer (c_out c)"
  shows "enqueue (conn_env (at_time t (lab_env sps))) L fr (c, m) = Some (c\<lparr>c_out := buf_append fr (c_out c), c_lastSend := t\<rparr>, m)"
  using assms by (simp add: enqueue_def outgoing_record_def queue_record_def push_out_def
      flush_outbound.simps [of "conn_env (at_time t (lab_env sps))"] update_epoll_def buf_empty_iff default_config_def)

lemma small_frames: "encode_heartbeat \<noteq> []" "encode_goodbye \<noteq> []" "length encode_heartbeat \<le> 50" "length encode_goodbye \<le> 50"
  by code_simp+


lemma lab_link_more [simp]: "c_lastSend (lab_link inb b) = 0" "c_lastRecv (lab_link inb b) = 0" "c_wantWrite (lab_link inb b)" "wf_buffer (c_out (lab_link inb b))"
  "buf_size (c_out (lab_link inb b)) \<le> 1500"
  using lab_hand_out [of inb b] lab_flood_length [of b] by (simp_all add: lab_link_def) (simp add: lab_hand_def)

lemma late_check:
  "\<exists>m. check_conn late (sender late (Suc n)) (ms 10000) 2 (lab_static_linked 2 k) = Some m \<and> map c_ptr (pm_conns m) = [2, 4]"
proof -
  from lab_unlinked [of 2 "ms 10000"] obtain mb fr where
    u: "set_local_neighbors [] (ms 10000) (lab_membership 2) = (mb, [Member_left (Peer_id (replicate 16 2)), Members_snapshot [], Flood fr (-1)])" by auto
  define c1 where "c1 = (lab_link False 2)\<lparr>c_out := buf_append encode_heartbeat (c_out (lab_link False 2)), c_lastSend := ms 10000\<rparr>"
  define c2 where "c2 = c1\<lparr>c_out := buf_append encode_goodbye (c_out c1), c_lastSend := ms 10000\<rparr>"
  have hb: "maybe_heartbeat (conn_env late) L (ms 10000) (heartbeatInterval (default_config i)) (lab_link False 2, m) = Some (c1, m)" for L m i
    unfolding c1_def maybe_heartbeat_def send_raw_def using late_push [of "lab_link False 2" encode_heartbeat] small_frames lab_link_more(5) [of False 2]
    by (simp add: default_config_def ms_def)
  have c1: "c_ptr c1 = 2" "c_lastRecv c1 = 0" "\<not> c_dead c1" by (simp_all add: c1_def)
  have gb: "close_gracefully (conn_env late) L (c1, m) = mark_dead (conn_env late) L (c2, m)" for L m
    unfolding c2_def close_gracefully_def using late_push [of c1 encode_goodbye] small_frames lab_link_more(5) [of False 2] by (simp add: c1_def)
  have c2: "c_ptr c2 = 2" "\<not> c_dead c2" "c_fd c2 = 3" "c_registered c2" "c_peerId c2 = Peer_id (replicate 16 2)" by (simp_all add: c2_def c1_def)
  have "heartbeatTimeout (default_config i) = 3000" for i by (simp add: default_config_def)
  note e = hb c1 gb this
  have b: "backoff_ms ((default_config i)\<lparr>staticPeers := sps\<rparr>) 0 = 500" for i sps by (simp add: backoff_ms_def default_config_def)
  note dying = sender_def closer_def from_conn_def closed_body_def free_static_slot_def detach_estab_def owning_record_def is_zero_lab c2 release_record_def
    find_conn_def put_conn_def lab_greeting_def lab_dialing_def lab_start_def peer_manager_init_def emit_def emit_connected_snapshot_def
    update_local_membership_def mb_apply_def u [unfolded ms_def, simplified] pm_forward_except_def those_def
  note redial = maintain_static_peers_def lab_target_def b ms_def jittered_backoff_def Let_def start_static_dial_def dial_with_def alloc_def new_addr_def
    dial_conn_def conn_init_def with_conn_def find_conn_def start_connect_def loop_add_def put_conn_def schedule_reap_def arm_def c1 c2
  show ?thesis
    apply (simp add: check_conn_def find_conn_def lab_static_linked_def with_conn_def e put_conn_def)
    apply (simp add: ms_def mark_dead_def c2 loop_del_def Let_def)
    apply (simp add: dying)
    apply (simp add: redial)
    done
qed

end
