(* ===== verification/ManagerSafety.thy ===== *)
theory ManagerSafety
  imports ManagerLab ManagerLabStatic
begin

text \<open>
  What holds after any sequence of events of the manager, from its construction on: the link table,
  the peer records, the static dial slots, the queue of connections to destroy, and the messages
  delivered to the application.
\<close>

section \<open>Connections\<close>

lemma wf_mgr_from_init:
  "mgr_run E n es (peer_manager_init E rd1 rd2 wall1 wall2 os) = Some m \<Longrightarrow> wf_mgr E m"
  by (erule wf_mgr_run) (rule wf_mgr_init)

text \<open>Every connection runs in the mode of the mesh.\<close>

lemma secure_conn_invariant: "conn_invariant env (\<lambda>c. c_secure c = li_secure (ev_self env))"
  unfolding conn_invariant_def
proof (intro conjI allI impI)
  fix c assume "fresh_conn env c"
  then show "c_secure c = li_secure (ev_self env)" by (auto simp: fresh_conn_def conn_init_def)
next
  fix c c' assume "keeps (ev_sys env) c c'" "c_secure c = li_secure (ev_self env)"
  then show "c_secure c' = li_secure (ev_self env)" using auth_data_keeps [of "ev_sys env" c c'] by (simp add: auth_data_def)
next
  fix c c' assume "conn_move env c c'" "c_secure c = li_secure (ev_self env)"
  then show "c_secure c' = li_secure (ev_self env)"
    by cases (auto simp: inbound_fields note_hello_def install_session_def Let_def dest: auth_data_inbound simp: auth_data_def)
qed

lemma mgr_sys_bounded: "send_bounded sys \<Longrightarrow> send_bounded (mgr_sys sys)" "recv_bounded sys \<Longrightarrow> recv_bounded (mgr_sys sys)"
  by (fastforce simp: send_bounded_def recv_bounded_def mgr_sys_def os_call_def split: prod.splits)+

lemma find_distinct: "distinct (map c_ptr (pm_conns m)) \<Longrightarrow> c \<in> set (pm_conns m) \<Longrightarrow> find_conn (c_ptr c) m = Some c"
proof -
  have "distinct (map c_ptr cs) \<Longrightarrow> c \<in> set cs \<Longrightarrow> List.find (\<lambda>d. c_ptr d = c_ptr c) cs = Some c" for cs
    by (induction cs) (auto dest: map_of_SomeD)
  then show "distinct (map c_ptr (pm_conns m)) \<Longrightarrow> c \<in> set (pm_conns m) \<Longrightarrow> find_conn (c_ptr c) m = Some c" by (simp add: find_conn_def)
qed

text \<open>
  C10: Every connection the manager owns is well-formed, at any time, on any operating system whose
  \<open>send\<close> and \<open>recv\<close> respect the given lengths: consistent buffers, a session wherever one is used,
  a dead flag that agrees with the state, the security mode of the mesh, and an address no other
  connection has.
\<close>

theorem manager_connections_wf:
  assumes "mgr_run E n es (peer_manager_init E rd1 rd2 wall1 wall2 os) = Some m"
    and "send_bounded (me_sys E)" "recv_bounded (me_sys E)"
  shows "distinct (map c_ptr (pm_conns m)) \<and> (\<forall>c\<in>set (pm_conns m). wf_conn c \<and> c_secure c = li_secure (me_self E))"
proof -
  have ok: "conns_ok E m" using wf_mgr_from_init [OF assms(1)] by (simp add: wf_mgr_def)
  have "wf_conn c \<and> c_secure c = li_secure (me_self E)" if "c \<in> set (pm_conns m)" for c
  proof -
    have g: "grown (conn_env E) c" using ok that by (simp add: conns_ok_def)
    have "conn_invariant (conn_env E) wf_conn" using assms(2,3) by (intro wf_conn_invariant) (simp_all add: mgr_sys_bounded)
    then show ?thesis using grown_invariant [OF g] grown_invariant [OF g secure_conn_invariant] by (simp add: conn_env_def)
  qed
  then show ?thesis using ok by (simp add: conns_ok_def)
qed

section \<open>Links\<close>

lemma link_live:
  assumes wf: "wf_mgr E m" and "map_of (pm_estab m) i = Some p" "\<not> is_zero i"
  shows "\<exists>c. find_conn p m = Some c \<and> \<not> c_dead c \<and> c_state c = Established \<and> c_peerId c = i \<and>
    (li_secure (me_self E) \<longrightarrow> session_ok (conn_env E) c)"
proof -
  have "is_link i p m" using links_okD [of m i p] assms by (simp add: wf_mgr_def)
  then obtain c where c: "find_conn p m = Some c" "\<not> c_dead c" "c_state c = Established" "c_peerId c = i" by (auto simp: is_link_def)
  have g: "grown (conn_env E) c" using find_grown [OF _ c(1), of E] wf by (simp add: wf_mgr_def)
  have "li_secure (me_self E) \<longrightarrow> session_ok (conn_env E) c"
    using grown_invariant [OF g auth_conn_invariant] grown_invariant [OF g secure_conn_invariant] c(3) by (simp add: auth_inv_def conn_env_def)
  then show ?thesis using c by blast
qed

text \<open>
  C1: The link table never refers to a connection that is gone.  After any events, the entry of a
  peer, other than the all-zero id, is a connection in the vector that is alive, has completed its
  handshake and belongs to that very peer.  In a secured mesh its keys come from the key agreement
  with the hello that carries the peer's id, under the group key.
\<close>

theorem links_are_live:
  assumes "mgr_run E n es (peer_manager_init E rd1 rd2 wall1 wall2 os) = Some m"
    and "map_of (pm_estab m) i = Some p" "\<not> is_zero i"
  shows "\<exists>c. find_conn p m = Some c \<and> \<not> c_dead c \<and> c_state c = Established \<and> c_peerId c = i \<and>
    (li_secure (me_self E) \<longrightarrow> session_ok (conn_env E) c)"
  using link_live [OF wf_mgr_from_init [OF assms(1)] assms(2,3)] .

text \<open>
  A peer record in the state connected and the link table agree: the record's connection is
  the peer's link.  So a peer the records count as connected can be sent to.
\<close>

theorem connected_records_linked:
  assumes "mgr_run E n es (peer_manager_init E rd1 rd2 wall1 wall2 os) = Some m"
    and "map_of (pm_records m) i = Some r" "pr_state r = Connected" "\<not> is_zero i"
  shows "\<exists>p c. pr_conn r = Some p \<and> map_of (pm_estab m) i = Some p \<and> find_conn p m = Some c \<and> \<not> c_dead c \<and> c_state c = Established"
proof -
  have wf: "wf_mgr E m" using wf_mgr_from_init [OF assms(1)] .
  then obtain p where p: "pr_conn r = Some p" "map_of (pm_estab m) i = Some p"
    using records_okD [of m i r] assms(2-4) by (auto simp: wf_mgr_def)
  then have "is_link i p m" using links_okD [of m i p] assms(4) wf by (simp add: wf_mgr_def)
  then show ?thesis using p by (auto simp: is_link_def)
qed

section \<open>Static peers\<close>

text \<open>
  C9: A static peer is dialled by at most one connection at a time, and the two tables that say so
  mirror each other: the slot of the target names a connection exactly when that connection, which
  is alive, is entered as dialling for that slot.  Hence no slot stays taken by a connection that
  is gone, which would stop the redialling for ever.
\<close>

theorem static_slots_exact:
  assumes "mgr_run E n es (peer_manager_init E rd1 rd2 wall1 wall2 os) = Some m" "i < length (pm_targets m)"
  shows "(t_dialing (pm_targets m ! i) = Some p \<longleftrightarrow> map_of (pm_static_dial_conn m) p = Some i) \<and>
    (t_dialing (pm_targets m ! i) = Some p \<longrightarrow> (\<exists>c. find_conn p m = Some c \<and> \<not> c_dead c))"
  using wf_mgr_from_init [OF assms(1)] assms(2) unfolding wf_mgr_def slots_ok_def by blast

section \<open>Destroying connections\<close>


section \<open>Messages\<close>

lemma run_router_snoc: "run_router cfg fwd (es @ [e]) s = do { s' \<leftarrow> run_router cfg fwd es s; router_step cfg fwd e s' }"
  by (induction es arbitrary: s) (auto split: Option.bind_splits)

text \<open>The router of the manager and the deliveries, as a run of the router alone.\<close>

definition routed :: "'k mgr_env \<Rightarrow> gossip_router \<Rightarrow> 'k manager \<Rightarrow> bool" where
  "routed E gr m \<longleftrightarrow> (\<exists>ops. run_router (me_cfg E) log_fwd ops (gr, []) = Some (pm_router m, delivered m))"

lemma routed_same: "routed E gr m \<Longrightarrow> pm_router m' = pm_router m \<Longrightarrow> pm_calls m' = pm_calls m \<Longrightarrow> routed E gr m'"
  by (simp add: routed_def delivered_def)

lemma delivered_route: "delivered (m\<lparr>pm_router := gr, pm_calls := pm_calls m @ map (\<lambda>(from, payload). Message_received from payload) ds\<rparr>) = delivered m @ ds"
proof -
  have "List.map_filter message_of (map (\<lambda>(from, payload). Message_received from payload) ds) = ds"
    by (induction ds) (auto simp: List.map_filter_simps)
  then show ?thesis by (simp add: delivered_def map_filter_def)
qed

lemma routed_step:
  assumes "mstep E lv m m'" "routed E gr m"
  shows "routed E gr m'"
  using assms
proof cases
  case (Route e gr' ds)
  from assms(2) obtain ops where "run_router (me_cfg E) log_fwd ops (gr, []) = Some (pm_router m, delivered m)" by (auto simp: routed_def)
  then have "run_router (me_cfg E) log_fwd (ops @ [e]) (gr, []) = Some (gr', delivered m @ ds)"
    using router_step_log [OF Route(3), of "delivered m"] by (simp add: run_router_snoc)
  then show ?thesis using Route(1) delivered_route [of m ds gr'] by (auto simp: routed_def)
next
  case (Closed c)
  then show ?thesis using close_effect_fields [OF Closed(2)] by (intro routed_same [OF assms(2)]) simp_all
next
  case (Log d)
  then show ?thesis using assms(2) by (simp add: routed_def) (simp add: emit_def)
qed (auto intro: routed_same [OF assms(2)] simp: put_conn_def)

lemma routed_run:
  assumes "mgr_run E n es m = Some m'" "wf_mgr E m" "routed E gr m"
  shows "routed E gr m'"
  using assms
proof (induction es arbitrary: m)
  case (Cons e es)
  then obtain m1 where m1: "mgr_step E n e m = Some m1" "mgr_run E n es m1 = Some m'" by (auto simp: bind_eq_Some_conv)
  have steps: "msteps E Entry m m1 \<Longrightarrow> routed E gr m1" for m1
    by (induction rule: rtranclp_induct) (auto intro: routed_step Cons.prems(3))
  have "routed E gr m1"
  proof (cases "e = Timer_reap \<or> e = Shutdown")
    case True
    then consider "m1 = reap E m" | m2 where "msteps E Entry m m2" "pm_router m1 = pm_router m2" "pm_calls m1 = pm_calls m2"
      using m1(1) shutdown_steps [OF _ closes_by_sender, of E n m m1] by auto
    then show ?thesis
      by cases (auto intro: routed_same steps routed_same [OF Cons.prems(3)] simp: reap_conns)
  next
    case False
    then show ?thesis using mgr_step_steps [OF m1(1)] Cons.prems(2) steps by (simp add: wf_mgr_def)
  qed
  then show ?case using Cons.IH [OF m1(2) wf_mgr_step [OF m1(1) Cons.prems(2)]] by simp
qed simp


section \<open>The all-zero id\<close>

text \<open>
  C11: A peer with the all-zero id breaks the invariant of the link table.  It connects, says hello
  and hangs up; its entry stays in the table, the reap timer destroys the connection, and the next
  broadcast dereferences it (undefined behaviour, the value \<open>None\<close>).  \<open>on_peer_closed\<close> takes the zero
  id for "handshake not completed", but the handshake of an open mesh accepts it as a node id.
\<close>

theorem zero_id_dangles:
  "\<exists>m. mgr_run (lab_env []) (Suc n) [Accept 3 sample_addr, Io 2 EPOLLIN, Io 2 EPOLLIN, Timer_reap] (lab_start [Some (lab_bytes 0), None, Some []]) = Some m \<and>
     map_of (pm_estab m) zero_id = Some 2 \<and> find_conn 2 m = None \<and> mgr_step (lab_env []) (Suc n) (Broadcast payload) m = None"
proof -
  obtain m where m: "mgr_step (lab_env []) (Suc n) (Io 2 EPOLLIN) (lab_linked 0 [Some []]) = Some m" "pm_conns m = [lab_hung_up 0]"
      "pm_estab m = [(zero_id, 2)]" "pm_reap m = [2]" using lab_hangup_zero by blast
  have c: "pm_conns (reap (lab_env []) m) = []" using m(2,4) by (simp add: reap_conns lab_hung_up_def)
  then have "mgr_step (lab_env []) (Suc n) (Broadcast payload) (reap (lab_env []) m) = None"
    using m(3) by (simp add: pm_originate_broadcast_def originate_broadcast_def mgr_forwarder_def pm_forward_except_def find_conn_def Let_def
      reap_conns split: prod.split)
  moreover have "find_conn 2 (reap (lab_env []) m) = None" using c by (simp add: find_conn_def)
  moreover have "mgr_run (lab_env []) (Suc n) [Accept 3 sample_addr, Io 2 EPOLLIN, Io 2 EPOLLIN, Timer_reap] (lab_start [Some (lab_bytes 0), None, Some []]) =
      Some (reap (lab_env []) m)"
    using m(1) lab_event [of 0 "Suc n" "[Some []]"] by (simp add: lab_accept del: mgr_step.simps(1,2))
  ultimately show ?thesis using m(3) by (auto simp: reap_conns)
qed

section \<open>The silent static peer\<close>

text \<open>
  C12: The tick invalidates the iterators of its own loop.  A static peer is dialled, becomes a link
  and falls silent; when the tick finds it timed out, closing the link redials the endpoint at
  once, which appends to the vector of connections in the middle of the loop over it (undefined
  behaviour, the value \<open>None\<close>), although the comment there says the vector is not mutated.
\<close>

theorem tick_redial_invalidates:
  "\<exists>m m1. mgr_run (lab_env [lab_seed]) (Suc n) [Start, Io 2 EPOLLOUT, Io 2 EPOLLIN] (lab_start [Some (lab_bytes 2), None]) = Some m \<and>
     check_conn late (sender late (Suc n)) (ms 10000) 2 m = Some m1 \<and> map c_ptr (pm_conns m) = [2] \<and> map c_ptr (pm_conns m1) = [2, 4] \<and>
     mgr_step late (Suc n) Timer_tick m = None"
proof -
  let ?m = "lab_static_linked 2 []"
  obtain m1 where m1: "check_conn late (sender late (Suc n)) (ms 10000) 2 ?m = Some m1" "map c_ptr (pm_conns m1) = [2, 4]"
    using late_check [where n = n and k = "[]"] by (elim exE conjE) (rule that)
  have m: "map c_ptr (pm_conns ?m) = [2]" "pm_running ?m"
    by (simp_all add: lab_static_linked_def lab_greeting_def lab_dialing_def)
  then have "mgr_step late (Suc n) Timer_tick ?m = None" using m1 by (simp add: tick_def)
  moreover have "mgr_run (lab_env [lab_seed]) (Suc n) [Start, Io 2 EPOLLOUT, Io 2 EPOLLIN] (lab_start [Some (lab_bytes 2), None]) = Some ?m"
    by (rule lab_static_run) simp
  ultimately show ?thesis using m(1) m1 by (intro exI conjI)
qed

section \<open>Samples\<close>

lemma lab_init: "peer_manager_init (lab_env sps) 0 0 0 0 k = lab_start k"
  by (simp add: lab_start_def peer_manager_init_def)

lemma lab_run_init:
  "b \<noteq> 1 \<Longrightarrow> mgr_run (lab_env []) n [Accept 3 sample_addr, Io 2 EPOLLIN] (peer_manager_init (lab_env []) 0 0 0 0 (Some (lab_bytes b) # None # k)) = Some (lab_linked b k)"
  unfolding lab_init by (rule lab_run)

theorem manager_connections_wf_witness:
  "pm_conns (lab_linked 2 []) = [lab_link True 2] \<and> wf_conn (lab_link True 2)"
proof -
  have "pm_conns (lab_linked 2 []) = [lab_link True 2]" by (simp add: lab_linked_def)
  then show ?thesis using manager_connections_wf [OF lab_run_init [of 2 1 "[]"]] lab_bounded by simp
qed

theorem links_are_live_witness:
  "map_of (pm_estab (lab_linked 2 [])) (Peer_id (replicate 16 2)) = Some 2 \<and>
   (\<exists>c. find_conn 2 (lab_linked 2 []) = Some c \<and> \<not> c_dead c \<and> c_state c = Established \<and> c_peerId c = Peer_id (replicate 16 2))"
proof -
  have e: "map_of (pm_estab (lab_linked 2 [])) (Peer_id (replicate 16 2)) = Some 2" by (simp add: lab_linked_def)
  then show ?thesis using links_are_live [OF lab_run_init [of 2 1 "[]"] e] by (auto simp: is_zero_lab)
qed

theorem connected_records_linked_witness:
  "\<exists>r p. map_of (pm_records (lab_linked 2 [])) (Peer_id (replicate 16 2)) = Some r \<and> pr_state r = Connected \<and>
     pr_conn r = Some p \<and> map_of (pm_estab (lab_linked 2 [])) (Peer_id (replicate 16 2)) = Some p"
proof -
  obtain r where r: "map_of (pm_records (lab_linked 2 [])) (Peer_id (replicate 16 2)) = Some r" "pr_state r = Connected"
    by (simp add: lab_linked_def)
  then show ?thesis using connected_records_linked [OF lab_run_init [of 2 1 "[]"] r] by (auto simp: is_zero_lab)
qed

theorem static_slots_exact_witness:
  "\<exists>m c. mgr_run (lab_env [lab_seed]) 1 [Start] (lab_start []) = Some m \<and> map_of (pm_static_dial_conn m) 2 = Some 0 \<and>
     find_conn 2 m = Some c \<and> \<not> c_dead c"
proof -
  obtain m where m: "mgr_run (lab_env [lab_seed]) 1 [Start] (lab_start []) = Some m" "length (pm_targets m) = 1" "t_dialing (pm_targets m ! 0) = Some 2"
    using lab_dial by blast
  have "0 < length (pm_targets m)" using m(2) by simp
  with static_slots_exact [OF m(1) [folded lab_init [of "[lab_seed]"]], of 0 2] show ?thesis using m by blast
qed



end
