(* ===== verification/ManagerPolicy.thy ===== *)
theory ManagerPolicy
  imports ManagerSafety
begin

text \<open>
  Decisions of the peer manager that two nodes must take alike: which of two crossing
  connections survives, which identity records are believed, and when to dial again.
\<close>

section \<open>Crossing connections\<close>

text \<open>
  A connection is named by the node that dialled it, so it is inbound at the other.  Of two
  connections to the same peer, the first established at this node and a later one, one is kept.
\<close>

definition survivor :: "local_identity \<Rightarrow> peer_id \<Rightarrow> peer_id \<Rightarrow> peer_id \<Rightarrow> peer_id" where
  "survivor self peer d1 d2 = (if keep_existing self (d1 \<noteq> li_nodeId self) (d2 \<noteq> li_nodeId self) peer then d1 else d2)"

text \<open>
  C14: When two nodes dial each other at the same time, both keep the same one of the two
  connections, the one dialled by the node with the lower id, whatever the order in which the
  handshakes complete at either end.  So the race neither drops both connections nor leaves each
  node with the connection the other has closed.
\<close>

theorem dial_race_agreement:
  assumes "li_nodeId a = i" "li_nodeId b = j" "i \<noteq> j" "{d1, d2} = {i, j}" "{e1, e2} = {i, j}"
  shows "survivor a j d1 d2 = survivor b i e1 e2 \<and> survivor a j d1 d2 = min i j"
  using assms by (auto simp: survivor_def keep_existing_def Let_def doubleton_eq_iff min_def)

section \<open>Identity records\<close>

lemma identity_frame:
  assumes "length (i_idPubKey r) = 32" "length (i_signature r) = 64" "length (i_name r) \<le> 255" "114 + length (i_name r) \<le> 4 + maxb"
  shows "try_decode_frame (encode_identity r @ rest) maxb out = Ok (out\<lparr>f_type := IdentityRecord, f_identity := r\<rparr>) (length (encode_identity r))"
proof -
  have l: "length (encode_identity r) = 110 + length (i_name r)"
    using assms(1-3) by (simp add: encode_identity_def put_u8_def put_u32_def put_u64_def put_bytes_def put_str_def)
  show ?thesis using decode_encode [of "MIdentity r" maxb rest out] assms l by (simp add: take_all)
qed

text \<open>
  C13: The signed name of a node reaches every node that may learn it.  The identity record a node
  makes (with a name that fits the wire format) is decoded by the receiver from the frame
  unchanged, and the receiver believes it, under the id that is the hash of the signer's key,
  exactly if it runs with an identity itself, the record is not its own, its allowlist is empty or
  holds the key, and the version is above the last one it saw.
\<close>

theorem identity_record_travels:
  assumes "make_self_id_record EA mA = (r, mA')" "me_crypto EA = Some sd" "me_crypto EB = Some sd" "sign_correct sd (li_idKeys (me_self EA))"
    and "length (ik_pk (li_idKeys (me_self EA))) = 32" "length (li_nodeName (me_self EA)) \<le> 255" "365 \<le> maxb"
  shows "\<exists>k. try_decode_frame (encode_identity r @ rest) maxb out = Ok (out\<lparr>f_type := IdentityRecord, f_identity := r\<rparr>) k \<and>
    i_version r = pm_selfIdVersion mA' \<and>
    (let origin = Peer_id (id_from_identity (Some sd) (ik_pk (li_idKeys (me_self EA)))); self = me_self EB
     in admit_identity EB r mB = (if li_hasIdentity self \<and> origin \<noteq> li_nodeId self \<and>
          (li_trustedKeys self = [] \<or> ik_pk (li_idKeys (me_self EA)) \<in> set (li_trustedKeys self)) \<and>
          (\<forall>v. map_of (pm_idVersions mB) origin = Some v \<longrightarrow> v < i_version r) then Some origin else None))"
proof -
  let ?kp = "li_idKeys (me_self EA)"
  from assms(1) have r: "i_idPubKey r = ik_pk ?kp" "i_name r = li_nodeName (me_self EA)" "i_version r = pm_selfIdVersion mA'"
    "i_signature r = crypto_sign_detached sd (id_record_msg (i_version r) (i_name r)) (ik_sk ?kp)"
    by (auto simp: make_self_id_record_def Let_def crypto_sign_def assms(2))
  have v: "verify_sig (Some sd) (id_record_msg (i_version r) (i_name r)) (i_signature r) (i_idPubKey r)" "length (i_signature r) = 64"
    using assms(4) r by (simp_all add: verify_sig_def sign_correct_def)
  have "try_decode_frame (encode_identity r @ rest) maxb out = Ok (out\<lparr>f_type := IdentityRecord, f_identity := r\<rparr>) (length (encode_identity r))"
    by (rule identity_frame) (use assms r v in simp_all)
  then show ?thesis using r(3) v(1) by (auto simp: admit_identity_def assms(3) r(1) Let_def not_le split: option.split)
qed

section \<open>Backoff\<close>

lemma backoff_exact:
  assumes "0 < reconnectBase cfg" "reconnectBase cfg < 2 ^ 43" "0 \<le> attempts"
  shows "backoff_ms cfg attempts = min (reconnectBase cfg * 2 ^ nat (min attempts 20)) (reconnectMax cfg)"
proof -
  let ?v = "reconnectBase cfg * 2 ^ nat (min attempts 20)"
  have "(2 :: int) ^ nat (min attempts 20) \<le> 2 ^ 20" by (rule power_increasing) auto
  then have "?v \<le> reconnectBase cfg * 2 ^ 20" using assms(1) by (intro mult_left_mono) auto
  moreover have "reconnectBase cfg * 2 ^ 20 < 2 ^ 63" using assms(2) by simp
  moreover have pos: "0 \<le> ?v" using assms(1) by simp
  ultimately have s: "signed_take_bit 63 ?v = ?v" by (intro signed_take_bit_int_eq_self) auto
  show ?thesis unfolding backoff_ms_def Let_def s using pos by (auto simp: not_less)
qed

text \<open>
  C34: The delay before the next dial grows with the attempts and stays within bounds: without
  jitter it is the configured base, doubled per attempt up to twenty times and capped at the
  configured maximum; the jitter, uniform in the interval asked for, adds at most a fifth (or one
  millisecond).  The shift of a base below \<open>2 ^ 43\<close> milliseconds does not overflow.
\<close>

theorem backoff_bounds:
  assumes "0 < reconnectBase (me_cfg E)" "reconnectBase (me_cfg E) < 2 ^ 43" "reconnectBase (me_cfg E) \<le> reconnectMax (me_cfg E)" "0 \<le> attempts"
    and "\<forall>lo hi k. lo \<le> hi \<longrightarrow> lo \<le> fst (me_uniform E lo hi k) \<and> fst (me_uniform E lo hi k) \<le> hi"
    and "jittered_backoff E attempts m = (d, m')"
  shows "reconnectBase (me_cfg E) \<le> d \<and> d \<le> reconnectMax (me_cfg E) + max 1 (reconnectMax (me_cfg E) div 5) \<and>
    backoff_ms (me_cfg E) attempts \<le> backoff_ms (me_cfg E) (attempts + 1) \<and> m' = m\<lparr>pm_os := pm_os m'\<rparr>"
proof -
  let ?b = "reconnectBase (me_cfg E)" and ?c = "reconnectMax (me_cfg E)" and ?v = "backoff_ms (me_cfg E) attempts"
  have v: "?v = min (?b * 2 ^ nat (min attempts 20)) ?c" using backoff_exact assms(1,2,4) .
  obtain j k where u: "me_uniform E 0 (max 1 (?v div 5)) (pm_os m) = (j, k)" by fastforce
  have j: "0 \<le> j" "j \<le> max 1 (?v div 5)" using assms(5) [rule_format, of 0 "max 1 (?v div 5)" "pm_os m"] u by auto
  have d: "d = ?v + j" "m' = m\<lparr>pm_os := k\<rparr>" using assms(6) u by (auto simp: jittered_backoff_def Let_def os_call_def)
  have lo: "?b \<le> ?v" using v assms(1,3) by (simp add: mult_le_cancel_left1)
  have hi: "?v \<le> ?c" using v by simp
  then have "max 1 (?v div 5) \<le> max 1 (?c div 5)" by (intro max.mono zdiv_mono1) simp_all
  then have "d \<le> ?c + max 1 (?c div 5)" using d(1) j(2) hi by linarith
  moreover have "?v \<le> backoff_ms (me_cfg E) (attempts + 1)"
  proof -
    have "(2 :: int) ^ nat (min attempts 20) \<le> 2 ^ nat (min (attempts + 1) 20)" by (rule power_increasing) auto
    then have "?b * 2 ^ nat (min attempts 20) \<le> ?b * 2 ^ nat (min (attempts + 1) 20)" using assms(1) by (intro mult_left_mono) auto
    then show ?thesis unfolding v using backoff_exact [of "me_cfg E" "attempts + 1"] assms(1,2,4) by (simp add: min_le_iff_disj)
  qed
  ultimately show ?thesis using d j(1) lo by simp
qed

section \<open>Witnesses\<close>

theorem dial_race_agreement_witness:
  "li_nodeId (open_li 1) \<noteq> li_nodeId (open_li 2) \<and>
   survivor (open_li 1) (Peer_id (replicate 16 2)) (Peer_id (replicate 16 2)) (Peer_id (replicate 16 1)) =
     survivor (open_li 2) (Peer_id (replicate 16 1)) (Peer_id (replicate 16 2)) (Peer_id (replicate 16 1))"
proof -
  have i: "li_nodeId (open_li b) = Peer_id (replicate 16 b)" for b by (simp add: open_li_def sample_li_def)
  have n: "Peer_id (replicate 16 (1 :: byte)) \<noteq> Peer_id (replicate 16 2)" by simp
  from dial_race_agreement [OF i i n, of "Peer_id (replicate 16 2)" "Peer_id (replicate 16 1)" "Peer_id (replicate 16 2)" "Peer_id (replicate 16 1)"]
  show ?thesis using i n by (simp add: insert_commute)
qed

definition id_env :: "byte \<Rightarrow> bytes option list mgr_env" where
  "id_env b = (lab_env [])\<lparr>me_crypto := Some toy_sodium, me_self := sample_li b\<rparr>"

theorem identity_record_travels_witness:
  "\<exists>r m'. make_self_id_record (id_env 2) (lab_start []) = (r, m') \<and>
     admit_identity (id_env 1) r (lab_start []) = Some (Peer_id (id_from_identity (Some (toy_sodium :: bytes option list sodium)) (ik_pk (li_idKeys (sample_li 2)))))"
proof -
  obtain r m' where r: "make_self_id_record (id_env 2) (lab_start []) = (r, m')" by fastforce
  have "sign_correct (toy_sodium :: bytes option list sodium) (li_idKeys (sample_li 2))" by (simp add: sign_correct_def toy_sodium_def sample_li_def)
  then have "\<exists>k. try_decode_frame (encode_identity r @ []) 1000 parsed_frame_init = Ok (parsed_frame_init\<lparr>f_type := IdentityRecord, f_identity := r\<rparr>) k \<and>
    i_version r = pm_selfIdVersion m' \<and>
    (let origin = Peer_id (id_from_identity (Some (toy_sodium :: bytes option list sodium)) (ik_pk (li_idKeys (me_self (id_env 2))))); self = me_self (id_env 1)
     in admit_identity (id_env 1) r (lab_start []) = (if li_hasIdentity self \<and> origin \<noteq> li_nodeId self \<and>
          (li_trustedKeys self = [] \<or> ik_pk (li_idKeys (me_self (id_env 2))) \<in> set (li_trustedKeys self)) \<and>
          (\<forall>v. map_of (pm_idVersions (lab_start [])) origin = Some v \<longrightarrow> v < i_version r) then Some origin else None))"
    by (intro identity_record_travels [OF r]) (simp_all add: id_env_def sample_li_def)
  then show ?thesis using r by (auto simp: id_env_def sample_li_def lab_start_def peer_manager_init_def id_from_identity_def toy_sodium_def pad_to_def Let_def)
qed

theorem backoff_bounds_witness:
  "fst (jittered_backoff (lab_env []) 3 (lab_start [])) = 4000 \<and> 500 \<le> fst (jittered_backoff (lab_env []) 3 (lab_start []))"
proof -
  let ?E = "lab_env []"
  have c: "reconnectBase (me_cfg ?E) = 500" "reconnectMax (me_cfg ?E) = 30000" by (simp_all add: lab_env_def default_config_def)
  obtain d m' where d: "jittered_backoff ?E 3 (lab_start []) = (d, m')" by fastforce
  have "500 \<le> d" using backoff_bounds [OF _ _ _ _ _ d] c by (simp add: lab_env_def)
  moreover have "d = 4000" using d backoff_exact [of "me_cfg ?E" 3] c by (auto simp: jittered_backoff_def Let_def os_call_def lab_env_def eval_nat_numeral)
  ultimately show ?thesis using d by simp
qed

end
