(* ===== verification/SocketOwner.thy ===== *)
theory SocketOwner
  imports Sockets
begin

text \<open>
  The ownership of descriptors by the move-only class \<open>socket\<close> (\<open>src/socket.hpp\<close>, \<open>src/socket.cpp\<close>):
  an explicit store of the live socket objects by address, the descriptors the kernel has open,
  those given away by \<open>release\<close>, and the arguments of the calls of \<open>close\<close>.  An operation on an
  object that is not live has no result.
\<close>

record descriptors =
  ow_fd :: "nat \<rightharpoonup> int"
  ow_open :: "int set"
  ow_released :: "int set"
  ow_closed :: "int list"

definition no_descriptors :: descriptors where
  "no_descriptors = \<lparr>ow_fd = Map.empty, ow_open = {}, ow_released = {}, ow_closed = []\<rparr>"

definition sock_get :: "nat \<Rightarrow> descriptors \<Rightarrow> int option" where
  "sock_get p W = ow_fd W p"

definition sock_valid :: "nat \<Rightarrow> descriptors \<Rightarrow> bool option" where
  "sock_valid p W = map_option (\<lambda>fd. fd \<ge> 0) (sock_get p W)"

definition sock_reset :: "nat \<Rightarrow> descriptors \<Rightarrow> descriptors option" where
  "sock_reset p W =
     (case sock_get p W of
        None \<Rightarrow> None
      | Some fd \<Rightarrow>
          if fd \<ge> 0 then Some (W\<lparr>ow_fd := (ow_fd W)(p \<mapsto> -1), ow_open := ow_open W - {fd}, ow_closed := ow_closed W @ [fd]\<rparr>)
          else Some W)"

definition sock_release :: "nat \<Rightarrow> descriptors \<Rightarrow> (int \<times> descriptors) option" where
  "sock_release p W =
     map_option (\<lambda>fd. (fd, W\<lparr>ow_fd := (ow_fd W)(p \<mapsto> -1), ow_released := (if fd \<ge> 0 then insert fd (ow_released W) else ow_released W)\<rparr>)) (sock_get p W)"

text \<open>\<open>std::exchange(o.fd_, -1)\<close> into the object at \<open>p\<close>: the move constructor.\<close>

definition sock_move :: "nat \<Rightarrow> nat \<Rightarrow> descriptors \<Rightarrow> descriptors option" where
  "sock_move p q W = map_option (\<lambda>fd. W\<lparr>ow_fd := (ow_fd W)(q \<mapsto> -1, p \<mapsto> fd)\<rparr>) (sock_get q W)"

definition sock_assign :: "nat \<Rightarrow> nat \<Rightarrow> descriptors \<Rightarrow> descriptors option" where
  "sock_assign p q W = (if p = q then Some W else Option.bind (sock_reset p W) (sock_move p q))"

definition sock_destroy :: "nat \<Rightarrow> descriptors \<Rightarrow> descriptors option" where
  "sock_destroy p W = map_option (\<lambda>W1. W1\<lparr>ow_fd := (ow_fd W1)(p := None)\<rparr>) (sock_reset p W)"

text \<open>
  The factories wrap what the kernel returned (\<open>-1\<close> on failure), an fd that was not open.
\<close>

definition sock_wrap :: "nat \<Rightarrow> int \<Rightarrow> descriptors \<Rightarrow> descriptors" where
  "sock_wrap p fd W = W\<lparr>ow_fd := (ow_fd W)(p \<mapsto> fd), ow_open := (if fd \<ge> 0 then insert fd (ow_open W) else ow_open W)\<rparr>"

text \<open>
  What a program can do: construct objects at fresh addresses, by a factory or by moving, assign,
  reset, release and destroy them, and close what was released.
\<close>

inductive own_step :: "descriptors \<Rightarrow> descriptors \<Rightarrow> bool" where
  own_wrap: "sock_get p W = None \<Longrightarrow> fd < 0 \<or> fd \<notin> ow_open W \<Longrightarrow> own_step W (sock_wrap p fd W)"
| own_move: "sock_get p W = None \<Longrightarrow> sock_move p q W = Some W' \<Longrightarrow> own_step W W'"
| own_assign: "sock_get p W \<noteq> None \<Longrightarrow> sock_assign p q W = Some W' \<Longrightarrow> own_step W W'"
| own_reset: "sock_reset p W = Some W' \<Longrightarrow> own_step W W'"
| own_release: "sock_release p W = Some (fd, W') \<Longrightarrow> own_step W W'"
| own_destroy: "sock_destroy p W = Some W' \<Longrightarrow> own_step W W'"
| own_extern: "fd \<in> ow_released W \<Longrightarrow> own_step W (W\<lparr>ow_open := ow_open W - {fd}, ow_released := ow_released W - {fd}\<rparr>)"

section \<open>Single ownership\<close>

definition held :: "(nat \<rightharpoonup> int) \<Rightarrow> int set" where
  "held f = {fd. 0 \<le> fd \<and> (\<exists>p. f p = Some fd)}"

definition single :: "(nat \<rightharpoonup> int) \<Rightarrow> bool" where
  "single f \<longleftrightarrow> (\<forall>p q fd. f p = Some fd \<longrightarrow> f q = Some fd \<longrightarrow> 0 \<le> fd \<longrightarrow> p = q)"

definition own_ok :: "descriptors \<Rightarrow> bool" where
  "own_ok W \<longleftrightarrow> ow_open W = held (ow_fd W) \<union> ow_released W \<and> held (ow_fd W) \<inter> ow_released W = {} \<and> single (ow_fd W)"

lemma held_clear: "single f \<Longrightarrow> f p = Some fd \<Longrightarrow> held (f(p \<mapsto> -1)) = held f - {fd}"
  by (auto simp: held_def single_def split: if_splits) (metis option.inject)+

lemma held_set: "\<forall>fd. f p = Some fd \<longrightarrow> fd < 0 \<Longrightarrow> held (f(p \<mapsto> x)) = (if 0 \<le> x then insert x (held f) else held f)"
  by (force simp: held_def split: if_splits)

lemma held_drop: "\<forall>fd. f p = Some fd \<longrightarrow> fd < 0 \<Longrightarrow> held (f(p := None)) = held f"
  by (force simp: held_def split: if_splits)

lemma held_neg: "f p = Some fd \<Longrightarrow> fd < 0 \<Longrightarrow> fd \<notin> held f"
  by (simp add: held_def)

lemma held_ofI: "f p = Some fd \<Longrightarrow> 0 \<le> fd \<Longrightarrow> fd \<in> held f"
  by (auto simp: held_def)

lemma single_upd: "single f \<Longrightarrow> x < 0 \<or> x \<notin> held f \<Longrightarrow> single (f(p \<mapsto> x))"
  by (auto simp: held_def single_def)

lemma single_drop: "single f \<Longrightarrow> single (f(p := None))"
  by (auto simp: single_def split: if_splits)

lemma reset_ok:
  assumes "own_ok W" "sock_reset p W = Some W'"
  shows "own_ok W'" "\<exists>fd<0. ow_fd W' p = Some fd" "q \<noteq> p \<Longrightarrow> ow_fd W' q = ow_fd W q"
    "ow_closed W' = ow_closed W \<and> ow_open W' = ow_open W \<or> (\<exists>fd\<in>ow_open W. ow_closed W' = ow_closed W @ [fd] \<and> ow_open W' = ow_open W - {fd})"
proof -
  from assms(2) obtain fd where fd: "ow_fd W p = Some fd" by (auto simp: sock_reset_def sock_get_def split: option.splits)
  have "own_ok W' \<and> (\<exists>fd<0. ow_fd W' p = Some fd) \<and> (q \<noteq> p \<longrightarrow> ow_fd W' q = ow_fd W q) \<and>
    (ow_closed W' = ow_closed W \<and> ow_open W' = ow_open W \<or> (\<exists>fd\<in>ow_open W. ow_closed W' = ow_closed W @ [fd] \<and> ow_open W' = ow_open W - {fd}))"
  proof (cases "0 \<le> fd")
    case True
    then have W': "W' = W\<lparr>ow_fd := (ow_fd W)(p \<mapsto> -1), ow_open := ow_open W - {fd}, ow_closed := ow_closed W @ [fd]\<rparr>"
      using assms(2) fd by (simp add: sock_reset_def sock_get_def)
    have "fd \<in> held (ow_fd W)" using held_ofI fd True by blast
    then show ?thesis using assms(1) W' held_clear [of "ow_fd W" p fd] fd single_upd [of "ow_fd W" "-1" p] by (auto simp: own_ok_def)
  next
    case False
    then show ?thesis using assms fd by (auto simp: sock_reset_def sock_get_def)
  qed
  then show "own_ok W'" "\<exists>fd<0. ow_fd W' p = Some fd" "q \<noteq> p \<Longrightarrow> ow_fd W' q = ow_fd W q"
    "ow_closed W' = ow_closed W \<and> ow_open W' = ow_open W \<or> (\<exists>fd\<in>ow_open W. ow_closed W' = ow_closed W @ [fd] \<and> ow_open W' = ow_open W - {fd})"
    by blast+
qed

lemma move_ok:
  assumes "own_ok W" "sock_move p q W = Some W'" "p \<noteq> q" "\<forall>fd. ow_fd W p = Some fd \<longrightarrow> fd < 0"
  shows "own_ok W'" "ow_closed W' = ow_closed W" "ow_open W' = ow_open W"
proof -
  from assms(2) obtain fd where fd: "ow_fd W q = Some fd" "W' = W\<lparr>ow_fd := (ow_fd W)(q \<mapsto> -1, p \<mapsto> fd)\<rparr>" by (auto simp: sock_move_def sock_get_def)
  let ?f = "(ow_fd W)(q \<mapsto> -1)"
  have s: "single (ow_fd W)" using assms(1) by (simp add: own_ok_def)
  have h: "held ?f = held (ow_fd W) - {fd}" by (rule held_clear [OF s fd(1)])
  have "held (?f(p \<mapsto> fd)) = held (ow_fd W)"
    using held_set [of ?f p fd] assms(3,4) h held_ofI [of "ow_fd W" q fd] held_neg [of "ow_fd W" q fd] fd(1) by auto
  moreover have "single (?f(p \<mapsto> fd))" using single_upd [OF single_upd [OF s]] h by simp
  ultimately show "own_ok W'" "ow_closed W' = ow_closed W" "ow_open W' = ow_open W" using assms(1) fd(2) by (simp_all add: own_ok_def)
qed

lemma own_step_ok:
  assumes "own_step W W'" "own_ok W"
  shows "own_ok W' \<and> (ow_closed W' = ow_closed W \<or> (\<exists>fd\<in>ow_open W. ow_closed W' = ow_closed W @ [fd] \<and> ow_open W' = ow_open W - {fd}))"
  using assms
proof (induction rule: own_step.induct)
  case (own_wrap p W fd)
  then have "held ((ow_fd W)(p \<mapsto> fd)) = (if 0 \<le> fd then insert fd (held (ow_fd W)) else held (ow_fd W))" by (intro held_set) (simp add: sock_get_def)
  moreover have "single ((ow_fd W)(p \<mapsto> fd))" using own_wrap by (intro single_upd) (auto simp: own_ok_def)
  ultimately show ?case using own_wrap by (auto simp: own_ok_def sock_wrap_def)
next
  case (own_move p W q W')
  then have "p \<noteq> q" by (auto simp: sock_move_def)
  then show ?case using move_ok [OF own_move(3,2)] own_move(1) by (auto simp: sock_get_def)
next
  case (own_assign p W q W')
  show ?case
  proof (cases "p = q")
    case True
    then show ?thesis using own_assign by (simp add: sock_assign_def)
  next
    case False
    then obtain W1 where W1: "sock_reset p W = Some W1" "sock_move p q W1 = Some W'" using own_assign(2) by (auto simp: sock_assign_def Option.bind_eq_Some_conv)
    note r = reset_ok [OF own_assign(3) W1(1)]
    have n: "\<forall>fd. ow_fd W1 p = Some fd \<longrightarrow> fd < 0" using r(2) by auto
    from move_ok [OF r(1) W1(2) False n] r(4) show ?thesis by auto
  qed
next
  case (own_reset p W W')
  then show ?case using reset_ok(1,4) by metis
next
  case (own_release p W fd W')
  then obtain "ow_fd W p = Some fd" "W' = W\<lparr>ow_fd := (ow_fd W)(p \<mapsto> -1), ow_released := (if fd \<ge> 0 then insert fd (ow_released W) else ow_released W)\<rparr>"
    by (auto simp: sock_release_def sock_get_def)
  then show ?case using own_release(2) held_clear [of "ow_fd W" p fd] single_upd [of "ow_fd W" "-1" p] held_ofI [of "ow_fd W" p fd] held_neg [of "ow_fd W" p fd]
    by (auto simp: own_ok_def)
next
  case (own_destroy p W W')
  then obtain W1 where W1: "sock_reset p W = Some W1" "W' = W1\<lparr>ow_fd := (ow_fd W1)(p := None)\<rparr>" by (auto simp: sock_destroy_def)
  note r = reset_ok [OF own_destroy(2) W1(1)]
  have "held ((ow_fd W1)(p := None)) = held (ow_fd W1)" using r(2) by (intro held_drop) auto
  then show ?case using r(1,4) W1(2) single_drop [of "ow_fd W1" p] by (auto simp: own_ok_def)
next
  case (own_extern fd W)
  then show ?case by (auto simp: own_ok_def)
qed

text \<open>
  C15: Descriptors are neither leaked nor closed twice.  Whatever a program does with socket
  objects (wrapping, moving, assigning, also to itself, resetting, releasing, destroying), the open
  descriptors are exactly those that a live object holds and those that were released, no two
  objects hold the same one, and the only descriptor an operation closes is one that is open.
\<close>

theorem sockets_own_descriptors:
  assumes "own_step\<^sup>*\<^sup>* no_descriptors W"
  shows "ow_open W = held (ow_fd W) \<union> ow_released W \<and> held (ow_fd W) \<inter> ow_released W = {} \<and> single (ow_fd W) \<and>
    (\<forall>W'. own_step W W' \<longrightarrow> ow_closed W' = ow_closed W \<or> (\<exists>fd\<in>ow_open W. ow_closed W' = ow_closed W @ [fd] \<and> fd \<notin> ow_open W'))"
proof -
  have "own_ok no_descriptors" by (simp add: no_descriptors_def own_ok_def held_def single_def)
  with assms have "own_ok W" by (induction rule: rtranclp_induct) (auto dest: own_step_ok)
  then show ?thesis using own_step_ok by (fastforce simp: own_ok_def)
qed

theorem sockets_own_descriptors_witness:
  "\<exists>W1 W2. own_step\<^sup>*\<^sup>* no_descriptors W1 \<and> ow_open W1 = {3, 4} \<and> single (ow_fd W1) \<and> sock_assign 1 2 W1 = Some W2 \<and> ow_closed W2 = [3] \<and> ow_open W2 = {4}"
proof -
  let ?A = "sock_wrap 1 3 no_descriptors" and ?B = "sock_wrap 2 4 (sock_wrap 1 3 no_descriptors)"
  have "own_step no_descriptors ?A" by (rule own_wrap) (simp_all add: no_descriptors_def sock_get_def)
  moreover have "own_step ?A ?B" by (rule own_wrap) (simp_all add: no_descriptors_def sock_get_def sock_wrap_def)
  ultimately have s: "own_step\<^sup>*\<^sup>* no_descriptors ?B" by simp
  have "\<exists>W2. sock_assign 1 2 ?B = Some W2 \<and> ow_closed W2 = [3] \<and> ow_open W2 = {4}"
    by (auto simp: sock_assign_def sock_reset_def sock_move_def sock_get_def sock_wrap_def no_descriptors_def)
  moreover have "single (ow_fd ?B)" using sockets_own_descriptors [OF s] by blast
  moreover have "ow_open ?B = {3, 4}" by (auto simp: sock_wrap_def no_descriptors_def)
  ultimately show ?thesis using s by blast
qed

end
