(* ===== verification/MeshImpl.thy ===== *)
theory MeshImpl
  imports PeerManager DiscoveryService
begin

text \<open>
  The node behind the public class (\<open>src/mesh_impl.hpp\<close>, \<open>src/mesh_impl.cpp\<close>, and \<open>src/mesh.cpp\<close>, which
  forwards to it): configuration and identity, \<open>start\<close> with every refusal, the mailbox between the
  application's threads and the IO thread, the bridge from the manager to the user's callbacks and
  to the snapshots, \<open>stop\<close>, and the dispatch of the event loop to manager, listener and discovery.

  The loop \<open>loop_\<close> is the field \<open>pm_loop\<close> of the manager, and the world is the manager's \<open>pm_os\<close> once there
  is one.  The user's callbacks are only logged: a command they post is an application call.  The
  manager makes its delegate calls in the middle of its operations; it never reads anything back
  from them, so they are performed after the operation, in the order in which they were made.
\<close>

unbundle bit_operations_syntax

section \<open>Hexadecimal text\<close>

definition hex_nibble :: "char \<Rightarrow> int" where
  "hex_nibble c =
     (let v = int (of_char c) in
      if v \<ge> 48 \<and> v \<le> 57 then v - 48
      else if v \<ge> 97 \<and> v \<le> 102 then v - 97 + 10
      else if v \<ge> 65 \<and> v \<le> 70 then v - 65 + 10
      else -1)"

text \<open>\<open>std::isspace\<close> in the C locale: space, and tab to carriage return.\<close>

definition isspace :: "char \<Rightarrow> bool" where
  "isspace c \<longleftrightarrow> (of_char c :: nat) = 32 \<or> (of_char c :: nat) \<in> {9..13}"

fun decode_pairs :: "string \<Rightarrow> bytes option" where
  "decode_pairs (a # b # cs) =
     (let hi = hex_nibble a; lo = hex_nibble b in
      if hi < 0 \<or> lo < 0 then None
      else map_option ((#) (word_of_int ((push_bit 4 hi) OR lo))) (decode_pairs cs))"
| "decode_pairs _ = Some []"

definition decode_hex :: "string \<Rightarrow> nat \<Rightarrow> bytes option" where
  "decode_hex sv n =
     (let sv1 = rev (dropWhile isspace (rev (dropWhile isspace sv)))
      in if length sv1 \<noteq> n * 2 then None else decode_pairs sv1)"

definition to_hex :: "bytes \<Rightarrow> string" where
  "to_hex p = concat (map (\<lambda>v. [kHex ! unat (drop_bit 4 v), kHex ! unat (v AND 0x0F)]) p)"

section \<open>The platform\<close>

text \<open>
  System calls, libsodium, the C++ runtime, and files: \<open>pf_read\<close> opens and reads a whole file (\<open>None\<close>
  when it cannot be opened), \<open>pf_write\<close> truncates and writes one (false when it cannot be opened).
  \<open>pf_listener\<close> and \<open>pf_discovery\<close> are the addresses of those two objects.
\<close>

record 'k platform =
  pf_sys :: "'k sys"
  pf_net :: "'k net"
  pf_crypto :: "'k crypto"
  pf_listener :: nat
  pf_discovery :: nat
  pf_new :: "'k \<Rightarrow> nat \<times> 'k"
  pf_getaddrinfo :: "string \<Rightarrow> 'k \<Rightarrow> u32 option \<times> 'k"
  pf_rand :: "'k \<Rightarrow> u64 \<times> 'k"
  pf_uniform :: "int \<Rightarrow> int \<Rightarrow> 'k \<Rightarrow> int \<times> 'k"
  pf_device :: "'k \<Rightarrow> u32 \<times> 'k"
  pf_wall :: "'k \<Rightarrow> int \<times> 'k"
  pf_read :: "string \<Rightarrow> 'k \<Rightarrow> string option \<times> 'k"
  pf_write :: "string \<Rightarrow> string \<Rightarrow> 'k \<Rightarrow> bool \<times> 'k"
  pf_chmod :: "string \<Rightarrow> 'k \<Rightarrow> 'k"

definition mgr_env_of :: "'k platform \<Rightarrow> mesh_config \<Rightarrow> local_identity \<Rightarrow> 'k mgr_env" where
  "mgr_env_of P cfg self = \<lparr>me_sys = pf_sys P, me_net = pf_net P, me_crypto = pf_crypto P, me_cfg = cfg, me_self = self,
     me_objs = [pf_listener P, pf_discovery P], me_new = pf_new P, me_getaddrinfo = pf_getaddrinfo P, me_rand = pf_rand P,
     me_uniform = pf_uniform P\<rparr>"

section \<open>State\<close>

datatype command_kind = Kind_broadcast | Kind_targeted | Kind_stop

record command =
  cmd_type :: command_kind
  cmd_dst :: peer_id
  cmd_payload :: bytes

text \<open>Which callbacks the user has set, and the calls they receive.\<close>

record callbacks =
  cb_onPeerDiscovered :: bool
  cb_onPeerConnected :: bool
  cb_onPeerDisconnected :: bool
  cb_onPeerLost :: bool
  cb_onMemberJoined :: bool
  cb_onMemberLeft :: bool
  cb_onMessage :: bool
  cb_onError :: bool

datatype user_call =
    OnPeerDiscovered peer_id
  | OnPeerConnected peer_id
  | OnPeerDisconnected peer_id
  | OnPeerLost peer_id
  | OnMemberJoined peer_id
  | OnMemberLeft peer_id
  | OnMessage peer_id bytes
  | OnError error

text \<open>The IO thread: a \<open>std::thread\<close> is joinable from its start until it is joined.\<close>

datatype io_thread = No_thread | Io_running | Io_done | Joined

record 'k mesh_impl =
  mi_cfg :: mesh_config
  mi_self :: local_identity
  mi_cb :: callbacks
  mi_peers :: "'k manager option"
  mi_listener :: "listener option"
  mi_discovery :: "discovery option"
  mi_thread :: io_thread
  mi_running :: bool
  mi_started :: bool
  mi_listenPort :: u16
  mi_mailbox :: "command list"
  mi_connectedSnap :: "peer_id list"
  mi_knownSnap :: "peer_id list"
  mi_membersSnap :: "peer_id list"
  mi_namesSnap :: "(peer_id \<times> string) list option"
  mi_localLabels :: "(peer_id \<times> string) list"
  mi_calls :: "user_call list"
  mi_os :: 'k

definition local_identity_init :: local_identity where
  "local_identity_init = \<lparr>li_nodeId = zero_id, li_groupName = [], li_protocolVersion = 1, li_listenPort = 0, li_secure = False,
     li_groupKey = replicate 32 0, li_discoveryKey = replicate 32 0, li_hasIdentity = False,
     li_idKeys = \<lparr>ik_pk = replicate 32 0, ik_sk = replicate 64 0\<rparr>, li_nodeName = [], li_trustedKeys = []\<rparr>"

definition mesh_impl_init :: "mesh_config \<Rightarrow> 'k \<Rightarrow> 'k mesh_impl" where
  "mesh_impl_init cfg os = \<lparr>mi_cfg = cfg,
     mi_self = local_identity_init\<lparr>li_nodeId := nodeId cfg, li_groupName := groupName cfg, li_protocolVersion := protocolVersion cfg,
       li_listenPort := listenPort cfg\<rparr>,
     mi_cb = \<lparr>cb_onPeerDiscovered = False, cb_onPeerConnected = False, cb_onPeerDisconnected = False, cb_onPeerLost = False,
       cb_onMemberJoined = False, cb_onMemberLeft = False, cb_onMessage = False, cb_onError = False\<rparr>,
     mi_peers = None, mi_listener = None, mi_discovery = None, mi_thread = No_thread, mi_running = False, mi_started = False,
     mi_listenPort = 0, mi_mailbox = [], mi_connectedSnap = [], mi_knownSnap = [], mi_membersSnap = [], mi_namesSnap = None,
     mi_localLabels = [], mi_calls = [], mi_os = os\<rparr>"

text \<open>The world, and the loop, wherever they are kept.\<close>

definition mesh_os :: "'k mesh_impl \<Rightarrow> 'k" where
  "mesh_os s = (case mi_peers s of None \<Rightarrow> mi_os s | Some m \<Rightarrow> pm_os m)"

definition set_os :: "'k \<Rightarrow> 'k mesh_impl \<Rightarrow> 'k mesh_impl" where
  "set_os k s = (case mi_peers s of None \<Rightarrow> s\<lparr>mi_os := k\<rparr> | Some m \<Rightarrow> s\<lparr>mi_peers := Some (m\<lparr>pm_os := k\<rparr>)\<rparr>)"

definition set_loop :: "loop_cb event_loop \<Rightarrow> 'k mesh_impl \<Rightarrow> 'k mesh_impl" where
  "set_loop el s = s\<lparr>mi_peers := map_option (\<lambda>m. m\<lparr>pm_loop := el\<rparr>) (mi_peers s)\<rparr>"

definition set_callbacks :: "callbacks \<Rightarrow> 'k mesh_impl \<Rightarrow> 'k mesh_impl" where
  "set_callbacks cb s = s\<lparr>mi_cb := cb\<rparr>"

section \<open>The delegate\<close>

definition user :: "(callbacks \<Rightarrow> bool) \<Rightarrow> user_call \<Rightarrow> 'k mesh_impl \<Rightarrow> 'k mesh_impl" where
  "user isset c s = (if isset (mi_cb s) then s\<lparr>mi_calls := mi_calls s @ [c]\<rparr> else s)"

fun delegate :: "delegate_call \<Rightarrow> 'k mesh_impl \<Rightarrow> 'k mesh_impl" where
  "delegate (Peer_discovered i) s = user cb_onPeerDiscovered (OnPeerDiscovered i) s"
| "delegate (Peer_connected i) s = user cb_onPeerConnected (OnPeerConnected i) s"
| "delegate (Peer_disconnected i) s = user cb_onPeerDisconnected (OnPeerDisconnected i) s"
| "delegate (Peer_lost i) s = user cb_onPeerLost (OnPeerLost i) s"
| "delegate (Member_event (Member_joined i)) s = user cb_onMemberJoined (OnMemberJoined i) s"
| "delegate (Member_event (Member_left i)) s = user cb_onMemberLeft (OnMemberLeft i) s"
| "delegate (Member_event (Members_snapshot v)) s = s\<lparr>mi_membersSnap := v\<rparr>"
| "delegate (Member_event (Flood frame fd)) s = s"
| "delegate (Message_received from payload) s = user cb_onMessage (OnMessage from payload) s"
| "delegate (On_error e) s = user cb_onError (OnError e) s"
| "delegate (Connected_snapshot v) s = s\<lparr>mi_connectedSnap := v\<rparr>"
| "delegate (Known_snapshot v) s = s\<lparr>mi_knownSnap := v\<rparr>"
| "delegate (Names_snapshot v) s = s\<lparr>mi_namesSnap := Some v\<rparr>"

definition on_error :: "error_category \<Rightarrow> string \<Rightarrow> 'k mesh_impl \<Rightarrow> 'k mesh_impl" where
  "on_error cat what s = delegate (On_error \<lparr>e_category = cat, e_sysErrno = 0, e_what = what, e_peer = None\<rparr>) s"

text \<open>Run an operation of the manager, and then the delegate calls it made.\<close>

definition with_peers :: "('k manager \<Rightarrow> 'k manager option) \<Rightarrow> 'k mesh_impl \<Rightarrow> 'k mesh_impl option" where
  "with_peers f s = do {
     m \<leftarrow> mi_peers s;
     m1 \<leftarrow> f m;
     Some (fold delegate (drop (length (pm_calls m)) (pm_calls m1)) (s\<lparr>mi_peers := Some m1\<rparr>)) }"

section \<open>Identity\<close>

definition load_or_create_seed :: "'k platform \<Rightarrow> 'k mesh_impl \<Rightarrow> seed32 option \<times> 'k mesh_impl" where
  "load_or_create_seed P s =
     (let cfg = mi_cfg s in
      if identitySeedHex cfg \<noteq> [] then
        (case decode_hex (identitySeedHex cfg) 32 of
           None \<Rightarrow> (None, on_error Identity ''invalid identitySeedHex'' s)
         | Some seed \<Rightarrow> (Some seed, s))
      else case pf_read P (identityFile cfg) (mesh_os s) of
        (Some content, k) \<Rightarrow>
          (let s1 = set_os k s in
           case decode_hex content 32 of
             None \<Rightarrow> (None, on_error Identity (''malformed identity file: '' @ identityFile cfg) s1)
           | Some seed \<Rightarrow> (Some seed, s1))
      | (None, k) \<Rightarrow>
          (case gen_identity (pf_crypto P) k of (kp, k1) \<Rightarrow>
             let seed = seed_of (pf_crypto P) kp in
             case pf_write P (identityFile cfg) (to_hex seed) k1 of
               (False, k2) \<Rightarrow> (None, on_error Identity (''cannot write identity file: '' @ identityFile cfg) (set_os k2 s))
             | (True, k2) \<Rightarrow> (Some seed, set_os (pf_chmod P (identityFile cfg) k2) s)))"

text \<open>The allowlist with its labels; the boolean is false when \<open>start\<close> returns early.\<close>

fun parse_trusted :: "'k platform \<Rightarrow> trusted_node list \<Rightarrow> 'k mesh_impl \<Rightarrow> bool \<times> 'k mesh_impl" where
  "parse_trusted P [] s = (True, s)"
| "parse_trusted P (t # ts) s =
     (case decode_hex (tn_publicKeyHex t) 32 of
        None \<Rightarrow> (False, on_error Identity (''invalid trustedKeys public key: '' @ tn_publicKeyHex t) s)
      | Some pk \<Rightarrow>
          let s1 = s\<lparr>mi_self := (mi_self s)\<lparr>li_trustedKeys := li_trustedKeys (mi_self s) @ [pk]\<rparr>\<rparr>;
              s2 = (if tn_label t \<noteq> []
                    then s1\<lparr>mi_localLabels := AList.update (Peer_id (id_from_identity (pf_crypto P) pk)) (tn_label t) (mi_localLabels s1)\<rparr> else s1)
          in parse_trusted P ts s2)"

definition configure_secure :: "'k platform \<Rightarrow> 'k mesh_impl \<Rightarrow> bool \<times> 'k mesh_impl" where
  "configure_secure P s =
     (if psk (mi_cfg s) = [] then (True, s)
      else if \<not> crypto_init (pf_crypto P)
      then (False, on_error Crypto ''PSK configured but library built without libsodium support'' s)
      else let gk = derive_group_key (pf_crypto P) (psk (mi_cfg s))
           in (True, s\<lparr>mi_self := (mi_self s)\<lparr>li_secure := True, li_groupKey := gk, li_discoveryKey := derive_discovery_key (pf_crypto P) gk\<rparr>\<rparr>))"

definition configure_identity :: "'k platform \<Rightarrow> 'k mesh_impl \<Rightarrow> bool \<times> 'k mesh_impl" where
  "configure_identity P s =
     (let cfg = mi_cfg s in
      if identityFile cfg = [] \<and> identitySeedHex cfg = [] then (True, s)
      else if psk cfg = [] then (False, on_error Identity ''node identity requires a PSK (a secured mesh)'' s)
      else case load_or_create_seed P s of
        (None, s1) \<Rightarrow> (False, s1)
      | (Some seed, s1) \<Rightarrow>
          let kp = identity_from_seed (pf_crypto P) seed;
              i = Peer_id (id_from_identity (pf_crypto P) (ik_pk kp))
          in parse_trusted P (trustedKeys cfg)
               (s1\<lparr>mi_cfg := cfg\<lparr>nodeId := i\<rparr>,
                   mi_self := (mi_self s1)\<lparr>li_idKeys := kp, li_hasIdentity := True, li_nodeName := nodeName cfg, li_nodeId := i\<rparr>\<rparr>))"

section \<open>Start\<close>

text \<open>The environment of the manager, which refers to \<open>cfg_\<close> and \<open>self_\<close>.\<close>

definition mesh_env :: "'k platform \<Rightarrow> 'k mesh_impl \<Rightarrow> 'k mgr_env" where
  "mesh_env P s = mgr_env_of P (mi_cfg s) (mi_self s)"

text \<open>
  The manager, from the readings its members take: two of the random device for the message
  counter, the wall clock for the membership version, a seed for \<open>rng_\<close>, and the wall clock again.
\<close>

definition make_peers :: "'k platform \<Rightarrow> 'k mesh_impl \<Rightarrow> 'k manager" where
  "make_peers P s =
     (case pf_device P (mesh_os s) of (rd1, k1) \<Rightarrow>
      case pf_device P k1 of (rd2, k2) \<Rightarrow>
      case pf_wall P k2 of (wall1, k3) \<Rightarrow>
      case pf_device P k3 of (_, k4) \<Rightarrow>
      case pf_wall P k4 of (wall2, k5) \<Rightarrow> peer_manager_init (mesh_env P s) rd1 rd2 wall1 wall2 k5)"

definition start_peers :: "'k platform \<Rightarrow> nat \<Rightarrow> 'k mesh_impl \<Rightarrow> 'k mesh_impl option" where
  "start_peers P n s = with_peers (pm_start (mesh_env P s) (sender (mesh_env P s) n)) s"

definition start_discovery :: "'k platform \<Rightarrow> 'k mesh_impl \<Rightarrow> 'k mesh_impl option" where
  "start_discovery P s = do {
     m \<leftarrow> mi_peers s;
     (case discovery_start (pf_sys P) (pf_crypto P) (pf_net P) (pf_uniform P) (mi_cfg s) (mi_self s) (pf_discovery P) Announce_cb (pm_loop m, pm_os m) of
        (err, d, el, k) \<Rightarrow>
          let s1 = s\<lparr>mi_discovery := Some d, mi_peers := Some (m\<lparr>pm_loop := el, pm_os := k\<rparr>)\<rparr>
          in Some (case err of
               None \<Rightarrow> s1
             | Some (eno, what) \<Rightarrow> delegate (On_error \<lparr>e_category = Discovery,
                 e_sysErrno = (case eno of None \<Rightarrow> sys_errno (pf_sys P) k | Some e \<Rightarrow> e), e_what = what, e_peer = None\<rparr>) s1)) }"

text \<open>
  What follows the listener: advertise its port, construct the discovery (which seeds its own
  generator), set the wake handler, start manager and discovery, and spawn the IO thread.
\<close>

definition start_services :: "'k platform \<Rightarrow> nat \<Rightarrow> listener \<Rightarrow> 'k mesh_impl \<Rightarrow> 'k mesh_impl option" where
  "start_services P n l s =
     (let port = ls_boundPort l;
          s1 = s\<lparr>mi_listener := Some l, mi_self := (mi_self s)\<lparr>li_listenPort := port\<rparr>, mi_listenPort := port, mi_discovery := Some discovery_init\<rparr>;
          s2 = set_os (snd (pf_device P (mesh_os s1))) s1;
          s3 = s2\<lparr>mi_peers := map_option (\<lambda>m. m\<lparr>pm_loop := (pm_loop m)\<lparr>wakeHandler := Some Mailbox_cb\<rparr>\<rparr>) (mi_peers s2)\<rparr>
      in do {
        s4 \<leftarrow> start_peers P n s3;
        s5 \<leftarrow> start_discovery P s4;
        Some (s5\<lparr>mi_running := True, mi_thread := Io_running\<rparr>) })"

text \<open>\<open>start\<close>; the first component is the thrown \<open>std::system_error\<close>, if any.\<close>

definition mesh_start :: "'k platform \<Rightarrow> nat \<Rightarrow> 'k mesh_impl \<Rightarrow> ((int \<times> string) option \<times> 'k mesh_impl) option" where
  "mesh_start P n s0 =
     (case configure_secure P s0 of (ok1, s1) \<Rightarrow>
        if \<not> ok1 then Some (None, s1)
        else case configure_identity P s1 of (ok2, s2) \<Rightarrow>
          if \<not> ok2 then Some (None, s2)
          else if mi_started s2 then Some (None, s2)
          else let m = make_peers P s2; s3 = s2\<lparr>mi_started := True, mi_peers := Some m\<rparr> in
            case listener_start (pf_sys P) (pf_net P) (pf_listener P) (bindAddr (mi_cfg s3)) (listenPort (mi_cfg s3)) (mesh_os s3) of
              (Inl (eno, what), k) \<Rightarrow> Some (Some (case eno of None \<Rightarrow> sys_errno (pf_sys P) k | Some e \<Rightarrow> e, what), set_os k s3)
            | (Inr l, k) \<Rightarrow> do { s4 \<leftarrow> start_services P n l (set_os k s3); Some (None, s4) })"

section \<open>Application calls\<close>

definition post :: "'k platform \<Rightarrow> command \<Rightarrow> 'k mesh_impl \<Rightarrow> 'k mesh_impl" where
  "post P c s = (let s1 = s\<lparr>mi_mailbox := mi_mailbox s @ [c]\<rparr> in set_os (wakeup (pf_sys P) (mesh_os s1)) s1)"

definition mesh_broadcast :: "'k platform \<Rightarrow> bytes \<Rightarrow> 'k mesh_impl \<Rightarrow> 'k mesh_impl" where
  "mesh_broadcast P data s =
     (if \<not> mi_running s then s else post P \<lparr>cmd_type = Kind_broadcast, cmd_dst = zero_id, cmd_payload = data\<rparr> s)"

definition mesh_send :: "'k platform \<Rightarrow> peer_id \<Rightarrow> bytes \<Rightarrow> 'k mesh_impl \<Rightarrow> 'k mesh_impl" where
  "mesh_send P dst data s =
     (if \<not> mi_running s then s else post P \<lparr>cmd_type = Kind_targeted, cmd_dst = dst, cmd_payload = data\<rparr> s)"

definition joinable :: "'k mesh_impl \<Rightarrow> bool" where
  "joinable s \<longleftrightarrow> mi_thread s = Io_running \<or> mi_thread s = Io_done"

text \<open>\<open>stop\<close> up to the join; the boolean says whether the caller (\<open>onIo\<close>: the IO thread itself) joins.\<close>

definition mesh_stop :: "'k platform \<Rightarrow> bool \<Rightarrow> 'k mesh_impl \<Rightarrow> bool \<times> 'k mesh_impl" where
  "mesh_stop P onIo s =
     (if \<not> mi_started s then (False, s)
      else if \<not> mi_running s then (joinable s \<and> \<not> onIo, s)
      else let s1 = post P \<lparr>cmd_type = Kind_stop, cmd_dst = zero_id, cmd_payload = []\<rparr> (s\<lparr>mi_running := False\<rparr>)
           in (\<not> onIo \<and> joinable s1, s1))"

text \<open>\<open>ioThread_.join()\<close> returns when the thread has ended.\<close>

definition mesh_join :: "'k mesh_impl \<Rightarrow> 'k mesh_impl option" where
  "mesh_join s = (if mi_thread s = Io_done then Some (s\<lparr>mi_thread := Joined\<rparr>) else None)"

definition connected_peers :: "'k mesh_impl \<Rightarrow> peer_id list" where
  "connected_peers s = mi_connectedSnap s"

definition known_peers :: "'k mesh_impl \<Rightarrow> peer_id list" where
  "known_peers s = mi_knownSnap s"

definition members :: "'k mesh_impl \<Rightarrow> peer_id list" where
  "members s = mi_membersSnap s"

definition identity_public_key :: "'k mesh_impl \<Rightarrow> string" where
  "identity_public_key s = (if \<not> li_hasIdentity (mi_self s) then [] else to_hex (ik_pk (li_idKeys (mi_self s))))"

definition node_name :: "'k mesh_impl \<Rightarrow> peer_id \<Rightarrow> string" where
  "node_name s i =
     (case map_of (mi_localLabels s) i of
        Some l \<Rightarrow> l
      | None \<Rightarrow> (case mi_namesSnap s of
                   None \<Rightarrow> []
                 | Some snap \<Rightarrow> (case map_of snap i of None \<Rightarrow> [] | Some nm \<Rightarrow> nm)))"

section \<open>The IO thread\<close>

fun originate_all :: "'k mgr_env \<Rightarrow> 'k manager listener_ops \<Rightarrow> command list \<Rightarrow> 'k manager \<Rightarrow> 'k manager option" where
  "originate_all E L [] m = Some m"
| "originate_all E L (c # cs) m = do {
     m1 \<leftarrow> (case cmd_type c of
             Kind_broadcast \<Rightarrow> pm_originate_broadcast E L (cmd_payload c) m
           | Kind_targeted \<Rightarrow> pm_originate_targeted E L (cmd_dst c) (cmd_payload c) m
           | Kind_stop \<Rightarrow> Some m);
     originate_all E L cs m1 }"

definition drain_mailbox :: "'k platform \<Rightarrow> nat \<Rightarrow> 'k mesh_impl \<Rightarrow> 'k mesh_impl option" where
  "drain_mailbox P n s =
     (let cmds = mi_mailbox s; E = mesh_env P s; L = sender E n in do {
        s1 \<leftarrow> with_peers (originate_all E L cmds) (s\<lparr>mi_mailbox := []\<rparr>);
        (if \<exists>c\<in>set cmds. cmd_type c = Kind_stop
         then do {
           s2 \<leftarrow> with_peers (pm_shutdown E L) s1;
           with_peers (\<lambda>m. case loop_stop (pf_sys P) (pm_loop m, pm_os m) of (el, k) \<Rightarrow> Some (m\<lparr>pm_loop := el, pm_os := k\<rparr>)) s2 }
         else Some s1) })"

text \<open>The socket calls of listener and discovery, and libsodium, on the manager's world.\<close>

definition mgr_net :: "'k net \<Rightarrow> 'k manager net" where
  "mgr_net net = \<lparr>inet_pton = inet_pton net, net_socket_udp = os_call (net_socket_udp net),
     net_setsockopt = (\<lambda>fd opt v m. m\<lparr>pm_os := net_setsockopt net fd opt v (pm_os m)\<rparr>), net_bind = (\<lambda>fd a. os_call (net_bind net fd a)),
     net_listen = (\<lambda>fd n. os_call (net_listen net fd n)), net_getsockname = (\<lambda>fd. os_call (net_getsockname net fd)),
     net_accept = (\<lambda>fd. os_call (net_accept net fd)), net_join = (\<lambda>fd a i. os_call (net_join net fd a i)),
     net_sendto = (\<lambda>fd bs a m. m\<lparr>pm_os := net_sendto net fd bs a (pm_os m)\<rparr>), net_recvfrom = (\<lambda>fd n. os_call (net_recvfrom net fd n))\<rparr>"

text \<open>Dispatch of a ready descriptor: the pointer is the listener, the discovery or a connection.\<close>

definition mesh_io :: "'k platform \<Rightarrow> nat \<Rightarrow> nat \<Rightarrow> u32 \<Rightarrow> 'k mesh_impl \<Rightarrow> 'k mesh_impl option" where
  "mesh_io P n ptr ev s =
     (let E = mesh_env P s in
      if ptr = pf_listener P then
        do { l \<leftarrow> mi_listener s; with_peers (listener_on_io_events (mgr_net (pf_net P)) (accept_connection E (mgr_listener E n)) ev l) s }
      else if ptr = pf_discovery P then
        do { d \<leftarrow> mi_discovery s;
             with_peers (discovery_on_io_events (map_option mgr_sodium (pf_crypto P)) (mgr_net (pf_net P)) (on_discovered E (sender E n)) (mi_self s) ev d) s }
      else with_peers (conn_event E n ptr ev) s)"

text \<open>The closures of the timers, and the wake handler.\<close>

fun mesh_timer :: "'k platform \<Rightarrow> nat \<Rightarrow> loop_cb \<Rightarrow> 'k mesh_impl \<Rightarrow> 'k mesh_impl option" where
  "mesh_timer P n (Sweep_cb c) s = with_peers (mgr_step (mesh_env P s) n (Timer_sweep c)) s"
| "mesh_timer P n Tick_cb s = with_peers (mgr_step (mesh_env P s) n Timer_tick) s"
| "mesh_timer P n (Reconnect_cb i) s = with_peers (mgr_step (mesh_env P s) n (Timer_reconnect i)) s"
| "mesh_timer P n Reap_cb s = with_peers (mgr_step (mesh_env P s) n Timer_reap) s"
| "mesh_timer P n Announce_cb s = do {
     d \<leftarrow> mi_discovery s;
     with_peers (\<lambda>m. case run_announce (pf_sys P) (pf_crypto P) (pf_net P) (pf_uniform P) (mi_cfg s) (mi_self s) d Announce_cb (pm_loop m, pm_os m) of
       (el, k) \<Rightarrow> Some (m\<lparr>pm_loop := el, pm_os := k\<rparr>)) s }"
| "mesh_timer P n Mailbox_cb s = drain_mailbox P n s"

text \<open>The thread runs the event loop on the node.\<close>

definition mesh_call :: "('k \<Rightarrow> 'a \<times> 'k) \<Rightarrow> 'k mesh_impl \<Rightarrow> 'a \<times> 'k mesh_impl" where
  "mesh_call f s = (case f (mesh_os s) of (x, k) \<Rightarrow> (x, set_os k s))"

definition mesh_sys :: "'k sys \<Rightarrow> 'k mesh_impl sys" where
  "mesh_sys sys = \<lparr>sys_errno = (\<lambda>s. sys_errno sys (mesh_os s)), sys_now = mesh_call (sys_now sys),
     sys_epoll_ctl = (\<lambda>opn fd ev p. mesh_call (sys_epoll_ctl sys opn fd ev p)),
     sys_epoll_wait = (\<lambda>n t. mesh_call (sys_epoll_wait sys n t)), sys_eventfd_write = (\<lambda>v s. set_os (sys_eventfd_write sys v (mesh_os s)) s),
     sys_eventfd_read = mesh_call (sys_eventfd_read sys), sys_socket_tcp = mesh_call (sys_socket_tcp sys),
     sys_connect = (\<lambda>fd a. mesh_call (sys_connect sys fd a)),
     sys_so_error = (\<lambda>fd s. case sys_so_error sys fd (mesh_os s) of (ok, e, k) \<Rightarrow> (ok, e, set_os k s)),
     sys_recv = (\<lambda>fd n. mesh_call (sys_recv sys fd n)), sys_send = (\<lambda>fd bs. mesh_call (sys_send sys fd bs))\<rparr>"

text \<open>A handler runs on the node with the loop as it is, and hands the loop back.\<close>

definition on_loop :: "('k mesh_impl \<Rightarrow> 'k mesh_impl option) \<Rightarrow> loop_cb event_loop \<times> 'k mesh_impl \<Rightarrow> (loop_cb event_loop \<times> 'k mesh_impl) option" where
  "on_loop f s = do { s1 \<leftarrow> f (set_loop (fst s) (snd s)); m \<leftarrow> mi_peers s1; Some (pm_loop m, s1) }"

definition io_thread_main :: "'k platform \<Rightarrow> nat \<Rightarrow> 'k mesh_impl \<Rightarrow> 'k mesh_impl option" where
  "io_thread_main P n s = do {
     m \<leftarrow> mi_peers s;
     (el, s1) \<leftarrow> loop_run (\<lambda>cb. on_loop (mesh_timer P n cb)) (\<lambda>ptr ev. on_loop (mesh_io P n ptr ev)) (mesh_sys (pf_sys P)) (pm_loop m, s);
     Some ((set_loop el s1)\<lparr>mi_thread := Io_done\<rparr>) }"

end
