(* ===== verification/MeshStart.thy ===== *)
theory MeshStart
  imports MeshImpl
begin

text \<open>
  Starting a node: the hexadecimal texts of keys and seeds, the identity that survives a restart,
  the refusals of \<open>start\<close>, and what a second call does.
\<close>

section \<open>Hexadecimal text\<close>

lemma hex_nibble_val: "hex_nibble c = hex_val c"
  by (simp add: hex_nibble_def hex_val_def)

lemma to_hex_bytes: "to_hex p = concat (map hex_byte p)"
  by (simp add: to_hex_def hex_byte_def [abs_def])

lemma length_to_hex [simp]: "length (to_hex p) = 2 * length p"
  by (induction p) (simp_all add: to_hex_def)

lemma join_nibbles: "(word_of_int (push_bit 4 hi OR lo) :: byte) = push_bit 4 (word_of_int hi) OR word_of_int lo"
  by (rule bit_eqI) (auto simp: bit_simps)

lemma decode_pairs_eq: "even (length cs) \<Longrightarrow> decode_pairs cs = (if hex_digits cs then Some (hex_pairs cs) else None)"
  by (induction cs rule: decode_pairs.induct) (auto simp: Let_def hex_nibble_val join_nibbles)

lemma hex_digit_not_space: "0 \<le> hex_val c \<Longrightarrow> \<not> isspace c"
  by (auto simp: hex_val_def isspace_def Let_def split: if_splits)

definition trim :: "string \<Rightarrow> string" where
  "trim sv = rev (dropWhile isspace (rev (dropWhile isspace sv)))"

lemma trim_parts: "\<exists>ws1 ws2. sv = ws1 @ trim sv @ ws2 \<and> list_all isspace ws1 \<and> list_all isspace ws2"
proof (intro exI conjI)
  let ?d = "dropWhile isspace sv"
  have "rev ?d = takeWhile isspace (rev ?d) @ dropWhile isspace (rev ?d)" by simp
  then have "?d = rev (dropWhile isspace (rev ?d)) @ rev (takeWhile isspace (rev ?d))" by (metis rev_append rev_rev_ident)
  then show "sv = takeWhile isspace sv @ trim sv @ rev (takeWhile isspace (rev ?d))" unfolding trim_def by (metis takeWhile_dropWhile_id)
qed (auto simp: list_all_iff dest: set_takeWhileD)

lemma dropWhile_all: "list_all P xs \<Longrightarrow> dropWhile P (xs @ ys) = dropWhile P ys"
  by (induction xs) auto

lemma trim_digits:
  assumes "hex_digits ds" "list_all isspace ws1" "list_all isspace ws2"
  shows "trim (ws1 @ ds @ ws2) = ds"
proof (cases "ds = []")
  case True
  moreover have "dropWhile isspace (ws1 @ ws2) = []" using dropWhile_all [of isspace "ws1 @ ws2" "[]"] assms by (simp del: dropWhile_append)
  ultimately show ?thesis by (auto simp: trim_def dest: set_dropWhileD)
next
  case False
  have n: "\<not> isspace (hd ds)" "\<not> isspace (last ds)" using False assms(1) hex_digit_not_space by simp_all
  have "dropWhile isspace (ws1 @ ds @ ws2) = ds @ ws2"
    using n(1) False by (simp add: dropWhile_all [OF assms(2)] dropWhile_eq_self_iff)
  moreover have "dropWhile isspace (rev ws2 @ rev ds) = rev ds"
    using n(2) False assms(3) by (subst dropWhile_all) (simp_all add: dropWhile_eq_self_iff hd_rev list_all_iff)
  ultimately show ?thesis by (simp add: trim_def)
qed

lemma decode_hex_trim: "decode_hex sv n = Some bs \<longleftrightarrow> length bs = n \<and> map lower_hex (trim sv) = to_hex bs"
proof -
  have "decode_hex sv n = Some bs \<longleftrightarrow> length (trim sv) = n * 2 \<and> hex_digits (trim sv) \<and> bs = hex_pairs (trim sv)"
    by (auto simp: decode_hex_def trim_def [symmetric] Let_def decode_pairs_eq split: if_splits)
  also have "\<dots> \<longleftrightarrow> length bs = n \<and> (length (trim sv) = 2 * length bs \<and> hex_digits (trim sv) \<and> bs = hex_pairs (trim sv))"
    using length_hex_pairs [of "trim sv"] by (metis mult.commute nonzero_mult_div_cancel_right zero_neq_numeral)
  also have "\<dots> \<longleftrightarrow> length bs = n \<and> map lower_hex (trim sv) = to_hex bs"
    unfolding to_hex_bytes to_string_pairs [symmetric] by (simp add: eq_commute)
  finally show ?thesis .
qed

text \<open>
  C19: \<open>decode_hex\<close> accepts exactly the texts that, between optional white space, spell the given
  number of bytes in hexadecimal digits of either case, and returns these bytes.  So what \<open>to_hex\<close>
  prints, as the identity file and the public key a node shows, reads back unchanged.
\<close>

theorem decode_hex_iff:
  "decode_hex sv n = Some bs \<longleftrightarrow>
     length bs = n \<and> (\<exists>ws1 ds ws2. sv = ws1 @ ds @ ws2 \<and> list_all isspace ws1 \<and> list_all isspace ws2 \<and> map lower_hex ds = to_hex bs)"
proof
  assume "decode_hex sv n = Some bs"
  then show "length bs = n \<and> (\<exists>ws1 ds ws2. sv = ws1 @ ds @ ws2 \<and> list_all isspace ws1 \<and> list_all isspace ws2 \<and> map lower_hex ds = to_hex bs)"
    using trim_parts [of sv] by (auto simp: decode_hex_trim)
next
  assume "length bs = n \<and> (\<exists>ws1 ds ws2. sv = ws1 @ ds @ ws2 \<and> list_all isspace ws1 \<and> list_all isspace ws2 \<and> map lower_hex ds = to_hex bs)"
  then obtain ws1 ds ws2 where d: "length bs = n" "sv = ws1 @ ds @ ws2" "list_all isspace ws1" "list_all isspace ws2" "map lower_hex ds = to_hex bs"
    by blast
  have "hex_digits ds" using to_string_pairs [of bs ds] d(5) by (simp add: to_hex_bytes)
  then show "decode_hex sv n = Some bs" using d trim_digits [of ds ws1 ws2] by (simp add: decode_hex_trim)
qed

lemma to_hex_lower: "map lower_hex (to_hex bs) = to_hex bs"
  by (induction bs) (simp_all add: to_hex_def kHex_lower_hex nibble_lt)

lemma decode_to_hex: "decode_hex (to_hex bs) (length bs) = Some bs"
proof -
  have "hex_digits (to_hex bs)" using to_string_pairs [of bs "to_hex bs"] to_hex_lower [of bs] by (simp add: to_hex_bytes)
  from trim_digits [OF this, of "[]" "[]"] show ?thesis by (simp add: decode_hex_trim to_hex_lower)
qed

section \<open>What the delegate leaves alone\<close>

lemma user_fields [simp]:
  "mi_cfg (user f c s) = mi_cfg s" "mi_self (user f c s) = mi_self s" "mi_cb (user f c s) = mi_cb s" "mi_peers (user f c s) = mi_peers s"
  "mi_listener (user f c s) = mi_listener s" "mi_discovery (user f c s) = mi_discovery s" "mi_thread (user f c s) = mi_thread s"
  "mi_running (user f c s) = mi_running s" "mi_started (user f c s) = mi_started s" "mi_mailbox (user f c s) = mi_mailbox s"
  "mi_localLabels (user f c s) = mi_localLabels s" "mi_os (user f c s) = mi_os s" "mi_listenPort (user f c s) = mi_listenPort s"
  by (simp_all add: user_def)

lemma delegate_fields [simp]:
  "mi_cfg (delegate d s) = mi_cfg s" "mi_self (delegate d s) = mi_self s" "mi_cb (delegate d s) = mi_cb s" "mi_peers (delegate d s) = mi_peers s"
  "mi_listener (delegate d s) = mi_listener s" "mi_discovery (delegate d s) = mi_discovery s" "mi_thread (delegate d s) = mi_thread s"
  "mi_running (delegate d s) = mi_running s" "mi_started (delegate d s) = mi_started s" "mi_mailbox (delegate d s) = mi_mailbox s"
  "mi_localLabels (delegate d s) = mi_localLabels s" "mi_os (delegate d s) = mi_os s" "mi_listenPort (delegate d s) = mi_listenPort s"
  by (cases "(d, s)" rule: delegate.cases; simp)+

lemma fold_delegate_fields [simp]:
  "mi_cfg (fold delegate ds s) = mi_cfg s" "mi_self (fold delegate ds s) = mi_self s" "mi_peers (fold delegate ds s) = mi_peers s"
  "mi_listener (fold delegate ds s) = mi_listener s" "mi_discovery (fold delegate ds s) = mi_discovery s" "mi_thread (fold delegate ds s) = mi_thread s"
  "mi_running (fold delegate ds s) = mi_running s" "mi_started (fold delegate ds s) = mi_started s" "mi_mailbox (fold delegate ds s) = mi_mailbox s"
  by (induction ds arbitrary: s) simp_all

lemma set_os_fields [simp]:
  "mi_cfg (set_os k s) = mi_cfg s" "mi_self (set_os k s) = mi_self s" "mi_cb (set_os k s) = mi_cb s" "mi_listener (set_os k s) = mi_listener s"
  "mi_discovery (set_os k s) = mi_discovery s" "mi_thread (set_os k s) = mi_thread s" "mi_running (set_os k s) = mi_running s"
  "mi_started (set_os k s) = mi_started s" "mi_mailbox (set_os k s) = mi_mailbox s" "mi_localLabels (set_os k s) = mi_localLabels s"
  "mi_calls (set_os k s) = mi_calls s" "mi_peers (set_os k s) = map_option (\<lambda>m. m\<lparr>pm_os := k\<rparr>) (mi_peers s)" "mesh_os (set_os k s) = k"
  by (simp_all add: set_os_def mesh_os_def split: option.split)

lemma mesh_os_upd [simp]:
  "mesh_os (s\<lparr>mi_cfg := cfg\<rparr>) = mesh_os s" "mesh_os (s\<lparr>mi_self := self\<rparr>) = mesh_os s" "mesh_os (s\<lparr>mi_mailbox := mb\<rparr>) = mesh_os s"
  "mesh_os (s\<lparr>mi_running := b\<rparr>) = mesh_os s" "mesh_os (s\<lparr>mi_thread := t\<rparr>) = mesh_os s"
  by (simp_all add: mesh_os_def split: option.split)

lemma on_error_fields [simp]:
  "mi_cfg (on_error c w s) = mi_cfg s" "mi_self (on_error c w s) = mi_self s" "mi_peers (on_error c w s) = mi_peers s"
  "mi_running (on_error c w s) = mi_running s" "mi_started (on_error c w s) = mi_started s" "mi_cb (on_error c w s) = mi_cb s"
  "mi_thread (on_error c w s) = mi_thread s" "mi_listener (on_error c w s) = mi_listener s" "mi_discovery (on_error c w s) = mi_discovery s"
  by (simp_all add: on_error_def del: delegate.simps)

lemma on_error_calls:
  "mi_calls (on_error c w s) = mi_calls s @ (if cb_onError (mi_cb s) then [OnError \<lparr>e_category = c, e_sysErrno = 0, e_what = w, e_peer = None\<rparr>] else [])"
  by (simp add: on_error_def user_def)

section \<open>A stable identity\<close>

text \<open>What is relied on of files: what was read or written is there for the next reader.\<close>

definition files_ok :: "'k platform \<Rightarrow> bool" where
  "files_ok P \<longleftrightarrow> (\<forall>f k c k'. pf_read P f k = (c, k') \<longrightarrow> fst (pf_read P f k') = c) \<and>
     (\<forall>f c k k'. pf_write P f c k = (True, k') \<longrightarrow> fst (pf_read P f (pf_chmod P f k')) = Some c)"

definition seeds_sized :: "'k crypto \<Rightarrow> bool" where
  "seeds_sized cr \<longleftrightarrow> (\<forall>k. length (seed_of cr (fst (gen_identity cr k))) = 32)"

lemma load_again:
  assumes "files_ok P" "seeds_sized (pf_crypto P)" "load_or_create_seed P s = (Some seed, s1)" "mi_cfg s2 = mi_cfg s"
    and "fst (pf_read P (identityFile (mi_cfg s)) (mesh_os s2)) = fst (pf_read P (identityFile (mi_cfg s)) (mesh_os s1))"
  shows "fst (load_or_create_seed P s2) = Some seed"
proof -
  let ?f = "identityFile (mi_cfg s)"
  obtain c k where r: "pf_read P ?f (mesh_os s2) = (c, k)" by fastforce
  show ?thesis
  proof (cases "identitySeedHex (mi_cfg s) = []")
    case False
    then show ?thesis using assms(3,4) by (auto simp: load_or_create_seed_def Let_def split: option.splits)
  next
    case True
    obtain c0 k0 where r0: "pf_read P ?f (mesh_os s) = (c0, k0)" by fastforce
    have "\<exists>content. fst (pf_read P ?f (mesh_os s1)) = Some content \<and> decode_hex content 32 = Some seed"
    proof (cases c0)
      case None
      obtain kp k1 where g: "gen_identity (pf_crypto P) k0 = (kp, k1)" by fastforce
      obtain ok k2 where w: "pf_write P ?f (to_hex (seed_of (pf_crypto P) kp)) k1 = (ok, k2)" by fastforce
      have ok: ok using assms(3) True None r0 g w by (cases ok) (simp_all add: load_or_create_seed_def Let_def)
      then have "seed = seed_of (pf_crypto P) kp" "mesh_os s1 = pf_chmod P ?f k2"
        using assms(3) True None r0 g w by (auto simp: load_or_create_seed_def Let_def)
      moreover have "length (seed_of (pf_crypto P) kp) = 32" using assms(2) g by (metis fst_conv seeds_sized_def)
      ultimately show ?thesis using assms(1) w ok decode_to_hex [of seed] by (auto simp: files_ok_def)
    next
      case (Some content)
      then have "decode_hex content 32 = Some seed" "mesh_os s1 = k0"
        using assms(3) True r0 by (auto simp: load_or_create_seed_def Let_def split: option.splits)
      then show ?thesis using assms(1) r0 Some by (auto simp: files_ok_def)
    qed
    then show ?thesis using True r assms(4,5) by (auto simp: load_or_create_seed_def Let_def split: option.splits)
  qed
qed

text \<open>The allowlist.\<close>

abbreviation trusted_ok :: "trusted_node list \<Rightarrow> bool" where
  "trusted_ok ts \<equiv> \<forall>t\<in>set ts. decode_hex (tn_publicKeyHex t) 32 \<noteq> None"

definition trusted_keys :: "trusted_node list \<Rightarrow> id_pubkey list" where
  "trusted_keys ts = map (\<lambda>t. the (decode_hex (tn_publicKeyHex t) 32)) ts"

lemma parse_trusted_fields [simp]:
  "mi_cfg (snd (parse_trusted P ts s)) = mi_cfg s" "mi_peers (snd (parse_trusted P ts s)) = mi_peers s"
  "mi_running (snd (parse_trusted P ts s)) = mi_running s" "mi_started (snd (parse_trusted P ts s)) = mi_started s"
  "mi_cb (snd (parse_trusted P ts s)) = mi_cb s" "mi_thread (snd (parse_trusted P ts s)) = mi_thread s"
  by (induction P ts s rule: parse_trusted.induct) (auto simp: Let_def split: option.split)

lemma parse_trusted_os [simp]: "mesh_os (snd (parse_trusted P ts s)) = mesh_os s"
proof -
  have "mi_os (snd (parse_trusted P ts s)) = mi_os s"
    by (induction P ts s rule: parse_trusted.induct) (auto simp: Let_def on_error_def user_def split: option.split)
  then show ?thesis by (simp add: mesh_os_def split: option.split)
qed

lemma parse_trusted_ok: "fst (parse_trusted P ts s) \<longleftrightarrow> trusted_ok ts"
  by (induction P ts s rule: parse_trusted.induct) (auto simp: Let_def split: option.split)

lemma parse_trusted_self:
  assumes "trusted_ok ts"
  shows "mi_self (snd (parse_trusted P ts s)) = (mi_self s)\<lparr>li_trustedKeys := li_trustedKeys (mi_self s) @ trusted_keys ts\<rparr>"
    "mi_calls (snd (parse_trusted P ts s)) = mi_calls s"
  using assms by (induction P ts s rule: parse_trusted.induct) (auto simp: Let_def trusted_keys_def split: option.split)

lemma parse_trusted_error:
  assumes "\<not> trusted_ok ts"
  shows "\<exists>what. mi_calls (snd (parse_trusted P ts s)) = mi_calls s @ (if cb_onError (mi_cb s)
    then [OnError \<lparr>e_category = Identity, e_sysErrno = 0, e_what = what, e_peer = None\<rparr>] else [])"
  using assms
proof (induction P ts s rule: parse_trusted.induct)
  case (2 P t ts s)
  show ?case
  proof (cases "decode_hex (tn_publicKeyHex t) 32")
    case None
    then show ?thesis by (auto simp: on_error_calls)
  next
    case (Some pk)
    then show ?thesis using 2 by (auto simp: Let_def)
  qed
qed simp

text \<open>What \<open>configure_identity\<close> does with a seed.\<close>

definition with_seed :: "'k platform \<Rightarrow> mesh_config \<Rightarrow> seed32 \<Rightarrow> local_identity \<Rightarrow> local_identity" where
  "with_seed P cfg seed self =
     (let kp = identity_from_seed (pf_crypto P) seed
      in self\<lparr>li_idKeys := kp, li_hasIdentity := True, li_nodeName := nodeName cfg, li_nodeId := Peer_id (id_from_identity (pf_crypto P) (ik_pk kp)),
           li_trustedKeys := li_trustedKeys self @ trusted_keys (trustedKeys cfg)\<rparr>)"

lemma load_fields:
  assumes "load_or_create_seed P s = (r, s1)"
  shows "mi_cfg s1 = mi_cfg s" "mi_self s1 = mi_self s" "mi_started s1 = mi_started s" "mi_running s1 = mi_running s" "mi_cb s1 = mi_cb s"
    "mi_thread s1 = mi_thread s" "mi_peers s = None \<Longrightarrow> mi_peers s1 = None"
  using assms by (auto simp: load_or_create_seed_def Let_def split: if_splits option.splits prod.splits bool.splits)

lemma load_calls:
  assumes "load_or_create_seed P s = (r, s1)"
  shows "if r \<noteq> None then mi_calls s1 = mi_calls s else \<exists>what. mi_calls s1 = mi_calls s @ (if cb_onError (mi_cb s)
    then [OnError \<lparr>e_category = Identity, e_sysErrno = 0, e_what = what, e_peer = None\<rparr>] else [])"
  using assms by (auto simp: load_or_create_seed_def on_error_calls Let_def split: if_splits option.splits prod.splits bool.splits)

abbreviation wants_identity :: "mesh_config \<Rightarrow> bool" where
  "wants_identity cfg \<equiv> identityFile cfg \<noteq> [] \<or> identitySeedHex cfg \<noteq> []"

lemma identity_parses:
  assumes "wants_identity (mi_cfg s)" "psk (mi_cfg s) \<noteq> []" "load_or_create_seed P s = (Some seed, s1)"
  shows "\<exists>cfg self. configure_identity P s = parse_trusted P (trustedKeys (mi_cfg s)) (s1\<lparr>mi_cfg := cfg, mi_self := self\<rparr>)"
proof -
  have "\<not> (identityFile (mi_cfg s) = [] \<and> identitySeedHex (mi_cfg s) = [])" using assms(1) by auto
  then show ?thesis using assms(2,3) unfolding configure_identity_def Let_def by (simp only: if_False if_not_P prod.case option.case) blast
qed

lemma configured:
  assumes "wants_identity (mi_cfg s)" "psk (mi_cfg s) \<noteq> []" "load_or_create_seed P s = (Some seed, s1)" "trusted_ok (trustedKeys (mi_cfg s))"
  shows "\<exists>s2. configure_identity P s = (True, s2) \<and> mi_self s2 = with_seed P (mi_cfg s) seed (mi_self s) \<and> mi_calls s2 = mi_calls s \<and>
    nodeId (mi_cfg s2) = li_nodeId (mi_self s2) \<and> mesh_os s2 = mesh_os s1"
proof -
  let ?kp = "identity_from_seed (pf_crypto P) seed"
  let ?i = "Peer_id (id_from_identity (pf_crypto P) (ik_pk ?kp))"
  let ?s = "s1\<lparr>mi_cfg := (mi_cfg s)\<lparr>nodeId := ?i\<rparr>,
    mi_self := (mi_self s1)\<lparr>li_idKeys := ?kp, li_hasIdentity := True, li_nodeName := nodeName (mi_cfg s), li_nodeId := ?i\<rparr>\<rparr>"
  let ?r = "parse_trusted P (trustedKeys (mi_cfg s)) ?s"
  have c: "configure_identity P s = ?r" using assms(1-3) by (auto simp: configure_identity_def Let_def)
  have "fst ?r" using assms(4) by (simp add: parse_trusted_ok)
  then have "configure_identity P s = (True, snd ?r)" using c by (metis prod.collapse)
  moreover have "mi_self (snd ?r) = with_seed P (mi_cfg s) seed (mi_self s)" "mi_calls (snd ?r) = mi_calls s"
    using parse_trusted_self [OF assms(4), of P ?s] load_fields(2) [OF assms(3)] load_calls [OF assms(3)] by (simp_all add: with_seed_def Let_def)
  moreover have "nodeId (mi_cfg (snd ?r)) = li_nodeId (mi_self (snd ?r))" using calculation(2) by (simp add: with_seed_def Let_def)
  moreover have "mesh_os (snd ?r) = mesh_os s1" by simp
  ultimately show ?thesis by blast
qed

lemma configured_inv:
  assumes "configure_identity P s = (True, s2)" "wants_identity (mi_cfg s)"
  shows "psk (mi_cfg s) \<noteq> [] \<and> trusted_ok (trustedKeys (mi_cfg s)) \<and> (\<exists>seed s1. load_or_create_seed P s = (Some seed, s1))"
proof -
  have p: "psk (mi_cfg s) \<noteq> []"
  proof
    assume "psk (mi_cfg s) = []"
    then show False using assms by (auto simp: configure_identity_def Let_def)
  qed
  obtain r s1 where l: "load_or_create_seed P s = (r, s1)" by fastforce
  have "r \<noteq> None"
  proof
    assume "r = None"
    then show False using assms p l by (auto simp: configure_identity_def Let_def)
  qed
  then obtain seed where r: "r = Some seed" by blast
  obtain s3 where "configure_identity P s = parse_trusted P (trustedKeys (mi_cfg s)) s3"
    using assms(2) p l r by (auto simp: configure_identity_def Let_def)
  then have "trusted_ok (trustedKeys (mi_cfg s))" using parse_trusted_ok [of P "trustedKeys (mi_cfg s)" s3] assms(1) by (metis fst_conv)
  then show ?thesis using p l r by blast
qed

text \<open>
  C17: The identity of a node is stable across restarts.  When a start has taken its identity, be
  it from a seed in the configuration, from the identity file or newly generated and written, then
  a later start with the same configuration, on a system where that file still reads the same,
  takes the same key pair and the same node id, and the node keeps the name and the allowlist.
\<close>

theorem identity_survives_restart:
  assumes "files_ok P" "seeds_sized (pf_crypto P)" "configure_identity P s = (True, s1)" "mi_cfg s2 = mi_cfg s" "mi_self s2 = mi_self s"
    and "fst (pf_read P (identityFile (mi_cfg s)) (mesh_os s2)) = fst (pf_read P (identityFile (mi_cfg s)) (mesh_os s1))"
  shows "\<exists>s3. configure_identity P s2 = (True, s3) \<and> mi_self s3 = mi_self s1 \<and> nodeId (mi_cfg s3) = nodeId (mi_cfg s1)"
proof (cases "wants_identity (mi_cfg s)")
  case False
  then show ?thesis using assms(3-5) by (simp add: configure_identity_def)
next
  case True
  from configured_inv [OF assms(3) True] obtain seed s0 where
    c: "psk (mi_cfg s) \<noteq> []" "trusted_ok (trustedKeys (mi_cfg s))" "load_or_create_seed P s = (Some seed, s0)" by blast
  from configured [OF True c(1,3,2)] assms(3) have
    a: "mi_self s1 = with_seed P (mi_cfg s) seed (mi_self s)" "nodeId (mi_cfg s1) = li_nodeId (mi_self s1)" "mesh_os s1 = mesh_os s0" by auto
  have "fst (load_or_create_seed P s2) = Some seed" using load_again [OF assms(1,2) c(3) assms(4)] assms(6) a(3) by simp
  then obtain s0' where l: "load_or_create_seed P s2 = (Some seed, s0')" by (metis prod.collapse)
  from configured [of s2 P seed s0'] True c l show ?thesis using assms(4,5) a by auto
qed

section \<open>Refusals\<close>

text \<open>The configurations \<open>start\<close> accepts.\<close>

definition start_ok :: "'k platform \<Rightarrow> 'k mesh_impl \<Rightarrow> bool" where
  "start_ok P s \<longleftrightarrow> (psk (mi_cfg s) = [] \<or> crypto_init (pf_crypto P)) \<and>
     (wants_identity (mi_cfg s) \<longrightarrow> psk (mi_cfg s) \<noteq> [] \<and> fst (load_or_create_seed P s) \<noteq> None \<and> trusted_ok (trustedKeys (mi_cfg s)))"

text \<open>Reported to the user, if there is a handler: one error of the given categories.\<close>

definition reports :: "error_category set \<Rightarrow> 'k mesh_impl \<Rightarrow> 'k mesh_impl \<Rightarrow> bool" where
  "reports cats s s' \<longleftrightarrow> (\<exists>e. e_category e \<in> cats \<and> mi_calls s' = mi_calls s @ (if cb_onError (mi_cb s) then [OnError e] else []))"

lemma reportsI: "mi_calls s' = mi_calls s @ (if cb_onError (mi_cb s) then [OnError e] else []) \<Longrightarrow> e_category e \<in> cats \<Longrightarrow> reports cats s s'"
  unfolding reports_def by blast

lemma reports_on_error [intro]: "c \<in> cats \<Longrightarrow> reports cats s (on_error c m s)"
  by (rule reportsI [OF on_error_calls]) simp

text \<open>A step of the configuration that fails.\<close>

definition refused :: "'k mesh_impl \<Rightarrow> 'k mesh_impl \<Rightarrow> bool" where
  "refused s s' \<longleftrightarrow> mi_started s' = mi_started s \<and> (mi_peers s = None \<longrightarrow> mi_peers s' = None) \<and> mi_running s' = mi_running s \<and>
     mi_thread s' = mi_thread s \<and> reports {Crypto, Identity} s s'"

lemma load_self: "fst (load_or_create_seed P (s\<lparr>mi_self := x\<rparr>)) = fst (load_or_create_seed P s)"
  by (auto simp: load_or_create_seed_def Let_def split: option.split prod.split bool.split)

lemma secure_outcome:
  "configure_secure P s = (ok, s1) \<Longrightarrow> ok = (psk (mi_cfg s) = [] \<or> crypto_init (pf_crypto P)) \<and>
     (if ok then \<exists>self. s1 = s\<lparr>mi_self := self\<rparr> else refused s s1)"
  by (auto simp: configure_secure_def Let_def refused_def on_error_calls intro: reportsI exI [of _ "mi_self s"] split: if_splits)

lemma identity_refused:
  assumes "configure_identity P s = (False, s1)"
  shows "refused s s1"
proof -
  from assms have w: "wants_identity (mi_cfg s)" by (auto simp: configure_identity_def Let_def split: if_splits)
  show ?thesis
  proof (cases "psk (mi_cfg s) = []")
    case True
    then show ?thesis using assms w by (auto simp: configure_identity_def Let_def refused_def on_error_calls intro: reportsI)
  next
    case psk: False
    obtain r s0 where l: "load_or_create_seed P s = (r, s0)" by fastforce
    note f = load_fields [OF l] and c = load_calls [OF l]
    show ?thesis
    proof (cases r)
      case None
      then have "s1 = s0" using assms w psk l by (auto simp: configure_identity_def Let_def)
      then show ?thesis using f c None by (auto simp: refused_def intro: reportsI)
    next
      case (Some seed)
      have "\<not> trusted_ok (trustedKeys (mi_cfg s))"
        using configured [OF w psk] l Some assms by fastforce
      moreover obtain cfg self where "(False, s1) = parse_trusted P (trustedKeys (mi_cfg s)) (s0\<lparr>mi_cfg := cfg, mi_self := self\<rparr>)"
        using assms identity_parses [OF w psk] l Some by metis
      then have "s1 = snd (parse_trusted P (trustedKeys (mi_cfg s)) (s0\<lparr>mi_cfg := cfg, mi_self := self\<rparr>))" by (metis snd_conv)
      ultimately show ?thesis
        using f c Some parse_trusted_error [of "trustedKeys (mi_cfg s)" P "s0\<lparr>mi_cfg := cfg, mi_self := self\<rparr>"] by (auto simp: refused_def intro: reportsI)
    qed
  qed
qed

lemma identity_outcome:
  assumes "configure_identity P s = (ok, s1)"
  shows "ok = (wants_identity (mi_cfg s) \<longrightarrow> psk (mi_cfg s) \<noteq> [] \<and> fst (load_or_create_seed P s) \<noteq> None \<and> trusted_ok (trustedKeys (mi_cfg s)))"
proof (cases "wants_identity (mi_cfg s)")
  case False
  then show ?thesis using assms by (auto simp: configure_identity_def Let_def)
next
  case w: True
  show ?thesis
  proof (cases ok)
    case True
    then show ?thesis using configured_inv [of P s s1] assms w by auto
  next
    case False
    have "\<not> (psk (mi_cfg s) \<noteq> [] \<and> fst (load_or_create_seed P s) \<noteq> None \<and> trusted_ok (trustedKeys (mi_cfg s)))"
    proof
      assume a: "psk (mi_cfg s) \<noteq> [] \<and> fst (load_or_create_seed P s) \<noteq> None \<and> trusted_ok (trustedKeys (mi_cfg s))"
      then obtain seed s0 where "load_or_create_seed P s = (Some seed, s0)" by (metis option.exhaust prod.collapse)
      with configured [OF w _ this] a assms False show False by auto
    qed
    then show ?thesis using False w by simp
  qed
qed

lemma identity_started: "configure_identity P s = (True, s1) \<Longrightarrow> mi_started s1 = mi_started s \<and> mi_running s1 = mi_running s"
proof -
  assume a: "configure_identity P s = (True, s1)"
  show "mi_started s1 = mi_started s \<and> mi_running s1 = mi_running s"
  proof (cases "wants_identity (mi_cfg s)")
    case False
    then show ?thesis using a by (auto simp: configure_identity_def Let_def)
  next
    case True
    from configured_inv [OF a True] obtain seed s0 where l: "psk (mi_cfg s) \<noteq> []" "load_or_create_seed P s = (Some seed, s0)" by blast
    then obtain cfg self where "(True, s1) = parse_trusted P (trustedKeys (mi_cfg s)) (s0\<lparr>mi_cfg := cfg, mi_self := self\<rparr>)"
      using a identity_parses [OF True l] by metis
    then have "s1 = snd (parse_trusted P (trustedKeys (mi_cfg s)) (s0\<lparr>mi_cfg := cfg, mi_self := self\<rparr>))" by (metis snd_conv)
    then show ?thesis using load_fields [OF l(2)] by simp
  qed
qed

lemma with_peers_fields:
  "with_peers f s = Some s' \<Longrightarrow> mi_started s' = mi_started s \<and> mi_running s' = mi_running s \<and> mi_peers s' \<noteq> None"
  by (auto simp: with_peers_def Let_def bind_eq_Some_conv split: prod.splits)

lemma start_discovery_fields:
  assumes "start_discovery P s = Some s'"
  shows "mi_started s' = mi_started s \<and> mi_peers s' \<noteq> None"
proof -
  from assms obtain m where m: "mi_peers s = Some m" by (auto simp: start_discovery_def bind_eq_Some_conv)
  obtain err d el k where d: "discovery_start (pf_sys P) (pf_crypto P) (pf_net P) (pf_uniform P) (mi_cfg s) (mi_self s) (pf_discovery P) Announce_cb (pm_loop m, pm_os m) =
    (err, d, el, k)" by (metis prod.collapse)
  show ?thesis using assms by (cases err) (auto simp: start_discovery_def Let_def m d simp del: delegate.simps)
qed

lemma start_services_fields:
  "start_services P n l s = Some s' \<Longrightarrow> mi_started s' = mi_started s \<and> mi_peers s' \<noteq> None \<and> mi_running s' \<and> mi_thread s' = Io_running"
  by (auto simp: start_services_def start_peers_def Let_def bind_eq_Some_conv dest!: with_peers_fields start_discovery_fields)


section \<open>A second start\<close>

text \<open>
  C18: A second call of \<open>start\<close> on a node with an identity, which is documented as a no-op while
  the node runs, appends the configured trusted keys to the allowlist once more before it notices
  that the node was started; the list that the IO thread reads is changed under it.
\<close>

theorem start_again_extends_allowlist:
  assumes "mi_started s" "start_ok P s" "wants_identity (mi_cfg s)"
  shows "\<exists>s'. mesh_start P n s = Some (None, s') \<and> mi_started s' \<and> mi_running s' = mi_running s \<and>
    li_trustedKeys (mi_self s') = li_trustedKeys (mi_self s) @ trusted_keys (trustedKeys (mi_cfg s))"
proof -
  have p: "psk (mi_cfg s) \<noteq> []" "crypto_init (pf_crypto P)" "trusted_ok (trustedKeys (mi_cfg s))" "fst (load_or_create_seed P s) \<noteq> None"
    using assms(2,3) by (auto simp: start_ok_def)
  obtain self where c: "configure_secure P s = (True, s\<lparr>mi_self := self\<rparr>)" "li_trustedKeys self = li_trustedKeys (mi_self s)"
    using p(1,2) by (simp add: configure_secure_def Let_def)
  let ?s = "s\<lparr>mi_self := self\<rparr>"
  obtain seed s1 where l: "load_or_create_seed P ?s = (Some seed, s1)" using p(4) load_self [where P = P and s = s and x = self] by (metis option.exhaust prod.collapse)
  from configured [of ?s P seed s1] assms(3) p l obtain s2 where
    s2: "configure_identity P ?s = (True, s2)" "mi_self s2 = with_seed P (mi_cfg s) seed self" by auto
  have "mi_started s2" "mi_running s2 = mi_running s" using identity_started [OF s2(1)] assms(1) by simp_all
  then have "mesh_start P n s = Some (None, s2)" using c s2 by (simp add: mesh_start_def)
  then show ?thesis using s2 c(2) \<open>mi_started s2\<close> \<open>mi_running s2 = mi_running s\<close> by (simp add: with_seed_def Let_def)
qed

section \<open>Witnesses\<close>

text \<open>A machine with a file system and the toy library, and no traffic.\<close>

definition quiet_net :: "'k net" where
  "quiet_net = \<lparr>inet_pton = (\<lambda>s. Some 0x7F000001), net_socket_udp = (\<lambda>k. (Inr 4, k)), net_setsockopt = (\<lambda>_ _ _ k. k), net_bind = (\<lambda>_ _ k. (Inr (), k)),
     net_listen = (\<lambda>_ _ k. (Inr (), k)), net_getsockname = (\<lambda>_ k. (None, k)), net_accept = (\<lambda>_ k. (Inl EAGAIN, k)), net_join = (\<lambda>_ _ _ k. (Inr (), k)),
     net_sendto = (\<lambda>_ _ _ k. k), net_recvfrom = (\<lambda>_ _ k. (Inl EAGAIN, k))\<rparr>"

definition home :: "(string \<times> string) list platform" where
  "home = \<lparr>pf_sys = idle_sys 0, pf_net = quiet_net, pf_crypto = Some toy_sodium, pf_listener = 1, pf_discovery = 2, pf_new = (\<lambda>k. (3, k)),
     pf_getaddrinfo = (\<lambda>_ k. (None, k)), pf_rand = (\<lambda>k. (5, k)), pf_uniform = (\<lambda>lo hi k. (lo, k)), pf_device = (\<lambda>k. (0, k)), pf_wall = (\<lambda>k. (0, k)),
     pf_read = (\<lambda>f k. (map_of k f, k)), pf_write = (\<lambda>f c k. (True, (f, c) # k)), pf_chmod = (\<lambda>f k. k)\<rparr>"

definition home_config :: mesh_config where
  "home_config = (default_config (Peer_id (replicate 16 1)))\<lparr>psk := ''secret'', identityFile := ''id''\<rparr>"

lemma home_laws: "files_ok home" "seeds_sized (pf_crypto home)"
  by (simp_all add: files_ok_def seeds_sized_def home_def seed_of_def gen_identity_def toy_sodium_def)

abbreviation home_file :: "(string \<times> string) list" where
  "home_file \<equiv> [(''id'', to_hex (replicate 32 2))]"

lemma home_load:
  "load_or_create_seed home (mesh_impl_init home_config []) = (Some (replicate 32 2), set_os home_file (mesh_impl_init home_config []))"
  by (simp add: load_or_create_seed_def Let_def home_config_def home_def mesh_impl_init_def default_config_def gen_identity_def seed_of_def toy_sodium_def
      mesh_os_def)

lemma home_configured:
  "\<exists>s1. configure_identity home (mesh_impl_init home_config []) = (True, s1) \<and> mesh_os s1 = home_file"
  using configured [OF _ _ home_load] by (force simp: home_config_def default_config_def mesh_impl_init_def)

theorem identity_survives_restart_witness:
  "\<exists>s1 s3. configure_identity home (mesh_impl_init home_config []) = (True, s1) \<and>
     configure_identity home (mesh_impl_init home_config home_file) = (True, s3) \<and> mi_self s3 = mi_self s1"
proof -
  obtain s1 where s1: "configure_identity home (mesh_impl_init home_config []) = (True, s1)" "mesh_os s1 = home_file"
    using home_configured by blast
  have os: "mesh_os (mesh_impl_init home_config home_file) = home_file" by (simp add: mesh_impl_init_def mesh_os_def)
  have same: "mi_cfg (mesh_impl_init home_config home_file) = mi_cfg (mesh_impl_init home_config [])"
    "mi_self (mesh_impl_init home_config home_file) = mi_self (mesh_impl_init home_config [])" by (simp_all add: mesh_impl_init_def)
  from identity_survives_restart [OF home_laws s1(1) same] os s1 show ?thesis by auto
qed


theorem start_again_extends_allowlist_witness:
  "\<exists>s s'. mi_started s \<and> li_trustedKeys (mi_self s) = [replicate 32 7] \<and> mesh_start home 0 s = Some (None, s') \<and>
     li_trustedKeys (mi_self s') = [replicate 32 7, replicate 32 7]"
proof -
  let ?c = "home_config\<lparr>trustedKeys := [\<lparr>tn_publicKeyHex = to_hex (replicate 32 7), tn_label = []\<rparr>]\<rparr>"
  let ?i = "mesh_impl_init ?c home_file"
  let ?s = "?i\<lparr>mi_started := True, mi_self := (mi_self ?i)\<lparr>li_trustedKeys := [replicate 32 7]\<rparr>\<rparr>"
  have k: "decode_hex (to_hex (replicate 32 7)) 32 = Some (replicate 32 7)" using decode_to_hex [of "replicate 32 7"] by simp
  have "start_ok home ?s" "wants_identity (mi_cfg ?s)" "trusted_keys (trustedKeys (mi_cfg ?s)) = [replicate 32 7]"
    using decode_to_hex [of "replicate 32 2"] k
    by (simp_all add: start_ok_def mesh_impl_init_def home_config_def default_config_def home_def crypto_init_def toy_sodium_def load_or_create_seed_def
        mesh_os_def Let_def trusted_keys_def)
  then obtain s' where "mesh_start home 0 ?s = Some (None, s')" "li_trustedKeys (mi_self s') = [replicate 32 7] @ [replicate 32 7]"
    using start_again_extends_allowlist [of ?s home 0] by auto
  then show ?thesis by (intro exI [of _ ?s] exI [of _ s']) simp
qed

end
