(* ===== verification/MeshNode.thy ===== *)
theory MeshNode
  imports MeshStart ManagerSafety
begin

text \<open>
  The whole node as a transition system: the calls of the application interleave with the
  handlers the IO thread runs.  A handler moves the manager by its operations only, the event
  loop is a client of the handlers, and what holds of the manager holds of every reachable node.
\<close>

section \<open>Moves of the manager\<close>

text \<open>An operation of the manager, or a change of the world or of the loop around it.\<close>

inductive mgr_move :: "'k mgr_env \<Rightarrow> nat \<Rightarrow> 'k manager \<Rightarrow> 'k manager \<Rightarrow> bool" for E n where
  move_event: "mgr_step E n e m = Some m' \<Longrightarrow> mgr_move E n m m'"
| move_os: "mgr_move E n m (m\<lparr>pm_os := k\<rparr>)"
| move_loop: "mgr_move E n m (m\<lparr>pm_loop := el\<rparr>)"

abbreviation mgr_moves :: "'k mgr_env \<Rightarrow> nat \<Rightarrow> 'k manager \<Rightarrow> 'k manager \<Rightarrow> bool" where
  "mgr_moves E n \<equiv> (mgr_move E n)\<^sup>*\<^sup>*"

lemma find_conn_os [simp]: "find_conn p (m\<lparr>pm_os := k\<rparr>) = find_conn p m" "find_conn p (m\<lparr>pm_loop := el\<rparr>) = find_conn p m"
  by (simp_all add: find_conn_def)

lemma wf_mgr_world [simp]: "wf_mgr E (m\<lparr>pm_os := k\<rparr>) = wf_mgr E m" "wf_mgr E (m\<lparr>pm_loop := el\<rparr>) = wf_mgr E m"
  by (simp_all add: wf_mgr_def conns_ok_def links_ok_def records_ok_def reap_ok_def slots_ok_def is_link_def condemned_def)

lemma wf_mgr_move: "mgr_move E n m m' \<Longrightarrow> wf_mgr E m \<Longrightarrow> wf_mgr E m'"
  by (induction rule: mgr_move.induct) (auto intro: wf_mgr_step)

lemma wf_mgr_moves: "mgr_moves E n m m' \<Longrightarrow> wf_mgr E m \<Longrightarrow> wf_mgr E m'"
  by (induction rule: rtranclp_induct) (auto intro: wf_mgr_move)

lemma moves_event: "mgr_step E n e m = Some m' \<Longrightarrow> mgr_moves E n m m'"
  by (rule r_into_rtranclp, rule move_event)

lemma moves_world: "mgr_moves E n m (m\<lparr>pm_loop := el, pm_os := k\<rparr>)"
  by (rule rtranclp_trans [of _ _ "m\<lparr>pm_loop := el\<rparr>"]) (auto intro: mgr_move.intros)

lemma moves_run: "mgr_run E n es m = Some m' \<Longrightarrow> mgr_moves E n m m'"
proof (induction es arbitrary: m)
  case (Cons e es)
  then obtain m1 where "mgr_step E n e m = Some m1" "mgr_run E n es m1 = Some m'" by (auto simp: bind_eq_Some_conv)
  then show ?case using Cons.IH moves_event by (metis rtranclp_trans)
qed simp

text \<open>The loops over a socket relate the worlds as the calls and the handler do.\<close>

lemma accept_loop_steps:
  assumes "accept_loop net f fd w = Some w'"
    and a: "\<And>r w w'. net_accept net fd w = (r, w') \<Longrightarrow> R\<^sup>*\<^sup>* w w'" and f: "\<And>c a w w'. f c a w = Some w' \<Longrightarrow> R\<^sup>*\<^sup>* w w'"
  shows "R\<^sup>*\<^sup>* w w'"
proof -
  let ?P = "\<lambda>net1 f1 fd1 w w'. net1 = net \<longrightarrow> f1 = f \<longrightarrow> fd1 = fd \<longrightarrow> R\<^sup>*\<^sup>* w w'"
  have "?P net f fd w w'"
  proof (rule accept_loop.raw_induct [where P = ?P, OF _ assms(1)], intro impI, goal_cases)
    case (1 loop net1 f1 fd1 w w')
    obtain r w1 where r: "net_accept net fd w = (r, w1)" by fastforce
    have IH: "loop net f fd w2 = Some w' \<Longrightarrow> R\<^sup>*\<^sup>* w2 w'" for w2 using 1(1) by blast
    show ?case
    proof (cases r)
      case (Inl e)
      then show ?thesis using 1 r a [OF r] IH [of w1] rtranclp_trans [OF a [OF r]] by (auto split: if_splits)
    next
      case (Inr x)
      then obtain c ad w2 where "f c ad w1 = Some w2" "loop net f fd w2 = Some w'" using 1 r by (auto simp: bind_eq_Some_conv split: prod.splits)
      then show ?thesis using a [OF r] f IH by (metis rtranclp_trans)
    qed
  qed
  then show ?thesis by simp
qed

lemma recv_loop_steps:
  assumes "recv_loop cr net f self fd w = Some w'"
    and a: "\<And>r w w'. net_recvfrom net fd 2048 w = (r, w') \<Longrightarrow> R\<^sup>*\<^sup>* w w'" and f: "\<And>c a w w'. f c a w = Some w' \<Longrightarrow> R\<^sup>*\<^sup>* w w'"
  shows "R\<^sup>*\<^sup>* w w'"
proof -
  let ?P = "\<lambda>cr1 net1 f1 self1 fd1 w w'. cr1 = cr \<longrightarrow> net1 = net \<longrightarrow> f1 = f \<longrightarrow> self1 = self \<longrightarrow> fd1 = fd \<longrightarrow> R\<^sup>*\<^sup>* w w'"
  have "?P cr net f self fd w w'"
  proof (rule recv_loop.raw_induct [where P = ?P, OF _ assms(1)], intro impI, goal_cases)
    case (1 loop cr1 net1 f1 self1 fd1 w w')
    obtain r w1 where r: "net_recvfrom net fd 2048 w = (r, w1)" by fastforce
    have IH: "loop cr net f self fd w2 = Some w' \<Longrightarrow> R\<^sup>*\<^sup>* w2 w'" for w2 using 1(1) by blast
    show ?case
    proof (cases r)
      case (Inl e)
      then show ?thesis using 1 r a [OF r] by auto
    next
      case (Inr x)
      obtain d src where x: "x = (d, src)" by fastforce
      show ?thesis
      proof (cases "admit_datagram cr self d")
        case None
        then show ?thesis using 1 r Inr x rtranclp_trans [OF a [OF r]] IH [of w1] by auto
      next
        case (Some ann)
        then obtain w2 where "f ann src w1 = Some w2" "loop cr net f self fd w2 = Some w'" using 1 r Inr x by (auto simp: bind_eq_Some_conv)
        then show ?thesis using a [OF r] f IH by (metis rtranclp_trans)
      qed
    qed
  qed
  then show ?thesis by simp
qed

section \<open>Handlers move the manager\<close>

text \<open>A part of the node's work: configuration, identity and thread stay, the manager moves.\<close>

definition moved :: "'k platform \<Rightarrow> nat \<Rightarrow> 'k mesh_impl \<Rightarrow> 'k mesh_impl \<Rightarrow> bool" where
  "moved P n s s' \<longleftrightarrow> mi_cfg s' = mi_cfg s \<and> mi_self s' = mi_self s \<and> mi_thread s' = mi_thread s \<and> mi_started s' = mi_started s \<and>
     rel_option (mgr_moves (mesh_env P s) n) (mi_peers s) (mi_peers s')"

lemma moved_refl [simp]: "moved P n s s"
  by (simp add: moved_def option.rel_refl)

lemma moved_trans: "moved P n s1 s2 \<Longrightarrow> moved P n s2 s3 \<Longrightarrow> moved P n s1 s3"
  by (auto simp: moved_def mesh_env_def option_rel_Some1 option_rel_Some2 elim!: option.rel_cases intro: rtranclp_trans)

lemma moved_env: "moved P n s s' \<Longrightarrow> mesh_env P s' = mesh_env P s"
  by (simp add: moved_def mesh_env_def)

lemma fold_delegate_thread [simp]: "mi_thread (fold delegate ds s) = mi_thread s" "mi_started (fold delegate ds s) = mi_started s"
  by simp_all

lemma moved_with_peers:
  assumes "with_peers f s = Some s'" and "\<And>m m'. f m = Some m' \<Longrightarrow> mgr_moves (mesh_env P s) n m m'"
  shows "moved P n s s'"
  using assms by (auto simp: with_peers_def bind_eq_Some_conv moved_def)

lemma moved_set_os: "moved P n s (set_os k s)"
  by (cases "mi_peers s") (auto simp: moved_def intro: move_os)

lemma moved_set_loop: "moved P n s (set_loop el s)"
  by (cases "mi_peers s") (auto simp: moved_def set_loop_def intro: move_loop)

lemma moved_same:
  "mi_cfg s' = mi_cfg s \<Longrightarrow> mi_self s' = mi_self s \<Longrightarrow> mi_thread s' = mi_thread s \<Longrightarrow> mi_started s' = mi_started s \<Longrightarrow> mi_peers s' = mi_peers s \<Longrightarrow> moved P n s s'"
  by (simp add: moved_def option.rel_refl)

text \<open>The mailbox holds operations of the manager, and the stop.\<close>

fun command_events :: "command list \<Rightarrow> mgr_event list" where
  "command_events [] = []"
| "command_events (c # cs) = (case cmd_type c of
     Kind_broadcast \<Rightarrow> Broadcast (cmd_payload c) # command_events cs
   | Kind_targeted \<Rightarrow> Targeted (cmd_dst c) (cmd_payload c) # command_events cs
   | Kind_stop \<Rightarrow> command_events cs)"

lemma originate_all_run: "originate_all E (sender E n) cs = mgr_run E n (command_events cs)"
  by (induction cs) (auto split: command_kind.split)

lemma os_call_moves: "os_call f m = (r, m') \<Longrightarrow> mgr_moves E n m m'"
  by (auto simp: os_call_def split: prod.splits intro: move_os)

lemma listener_moves:
  assumes "listener_on_io_events (mgr_net net) (accept_connection E (mgr_listener E n)) ev l m = Some m'"
  shows "mgr_moves E n m m'"
proof (cases "m' = m")
  case False
  then have "accept_loop (mgr_net net) (accept_connection E (mgr_listener E n)) (ls_fd l) m = Some m'"
    using assms by (auto simp: listener_on_io_events_def split: if_splits)
  then show ?thesis
  proof (rule accept_loop_steps)
    show "mgr_moves E n w w'" if "net_accept (mgr_net net) (ls_fd l) w = (r, w')" for r w w'
      using that os_call_moves by (simp add: mgr_net_def)
    show "mgr_moves E n w w'" if "accept_connection E (mgr_listener E n) c a w = Some w'" for c a w w'
      using that moves_event [of E n "Accept c a"] by simp
  qed
qed simp

lemma discovery_moves:
  assumes "discovery_on_io_events cr (mgr_net net) (on_discovered E (sender E n)) self ev d m = Some m'"
  shows "mgr_moves E n m m'"
proof (cases "m' = m")
  case False
  then have "recv_loop cr (mgr_net net) (on_discovered E (sender E n)) self (d_fd d) m = Some m'"
    using assms by (auto simp: discovery_on_io_events_def split: if_splits)
  then show ?thesis
  proof (rule recv_loop_steps)
    show "mgr_moves E n w w'" if "net_recvfrom (mgr_net net) (d_fd d) 2048 w = (r, w')" for r w w'
      using that os_call_moves by (simp add: mgr_net_def)
    show "mgr_moves E n w w'" if "on_discovered E (sender E n) a src w = Some w'" for a src w w'
      using that moves_event [of E n "Discover a src"] by simp
  qed
qed simp

lemma mesh_io_moved:
  assumes "mesh_io P n ptr ev s = Some s'"
  shows "moved P n s s'"
proof -
  let ?E = "mesh_env P s"
  from assms consider
      l where "with_peers (listener_on_io_events (mgr_net (pf_net P)) (accept_connection ?E (mgr_listener ?E n)) ev l) s = Some s'"
    | d where "with_peers (discovery_on_io_events (map_option mgr_sodium (pf_crypto P)) (mgr_net (pf_net P)) (on_discovered ?E (sender ?E n)) (mi_self s) ev d) s = Some s'"
    | "with_peers (conn_event ?E n ptr ev) s = Some s'"
    by (auto simp: mesh_io_def Let_def bind_eq_Some_conv split: if_splits)
  then show ?thesis
  proof cases
    case 1
    then show ?thesis by (rule moved_with_peers) (rule listener_moves)
  next
    case 2
    then show ?thesis by (rule moved_with_peers) (rule discovery_moves)
  next
    case 3
    then show ?thesis by (rule moved_with_peers) (use moves_event [of ?E n "Io ptr ev"] in simp)
  qed
qed

lemma drain_mailbox_moved:
  assumes "drain_mailbox P n s = Some s'"
  shows "moved P n s s'"
proof -
  let ?E = "mesh_env P s"
  from assms obtain s1 where s1: "with_peers (originate_all ?E (sender ?E n) (mi_mailbox s)) (s\<lparr>mi_mailbox := []\<rparr>) = Some s1"
    and rest: "s' = s1 \<or> (\<exists>s2. with_peers (pm_shutdown ?E (sender ?E n)) s1 = Some s2 \<and>
      with_peers (\<lambda>m. case loop_stop (pf_sys P) (pm_loop m, pm_os m) of (el, k) \<Rightarrow> Some (m\<lparr>pm_loop := el, pm_os := k\<rparr>)) s2 = Some s')"
    by (auto simp: drain_mailbox_def Let_def bind_eq_Some_conv split: if_splits)
  have "moved P n (s\<lparr>mi_mailbox := []\<rparr>) s1"
    by (rule moved_with_peers [OF s1]) (auto simp: originate_all_run mesh_env_def intro: moves_run)
  then have 1: "moved P n s s1" by (simp add: moved_def mesh_env_def)
  from rest show ?thesis
  proof
    assume "\<exists>s2. with_peers (pm_shutdown ?E (sender ?E n)) s1 = Some s2 \<and>
      with_peers (\<lambda>m. case loop_stop (pf_sys P) (pm_loop m, pm_os m) of (el, k) \<Rightarrow> Some (m\<lparr>pm_loop := el, pm_os := k\<rparr>)) s2 = Some s'"
    then obtain s2 where s2: "with_peers (pm_shutdown ?E (sender ?E n)) s1 = Some s2"
      "with_peers (\<lambda>m. case loop_stop (pf_sys P) (pm_loop m, pm_os m) of (el, k) \<Rightarrow> Some (m\<lparr>pm_loop := el, pm_os := k\<rparr>)) s2 = Some s'" by blast
    have "moved P n s1 s2"
      by (rule moved_with_peers [OF s2(1)]) (use moves_event [of ?E n Shutdown] moved_env [OF 1] in auto)
    moreover have "moved P n s2 s'"
      by (rule moved_with_peers [OF s2(2)]) (auto split: prod.splits intro: moves_world)
    ultimately show ?thesis using 1 moved_trans by blast
  qed (use 1 in simp)
qed

lemma mesh_timer_moved: "mesh_timer P n cb s = Some s' \<Longrightarrow> moved P n s s'"
  by (cases cb)
    (auto simp: bind_eq_Some_conv simp del: mgr_step.simps dest: drain_mailbox_moved elim!: moved_with_peers intro: moves_event moves_world split: prod.splits)

lemma app_calls_moved: "moved P n s (mesh_broadcast P data s)" "moved P n s (mesh_send P dst data s)" "moved P n s (snd (mesh_stop P onIo s))"
  by (cases "mi_peers s"; auto simp: mesh_broadcast_def mesh_send_def mesh_stop_def post_def moved_def Let_def intro: move_os)+

section \<open>The clients of the event loop\<close>

text \<open>
  What the loop asks of the closures and handlers it runs, to keep a property of loop and world;
  the calls of the loop itself and its bookkeeping must not disturb it either.
\<close>

locale loop_client =
  fixes run :: "('cb, 'w) runner" and io :: "nat \<Rightarrow> u32 \<Rightarrow> 'cb event_loop \<times> 'w \<Rightarrow> ('cb event_loop \<times> 'w) option"
    and sys :: "'w sys" and I :: "'cb event_loop \<times> 'w \<Rightarrow> bool"
  assumes run_keeps: "I s \<Longrightarrow> run cb s = Some s' \<Longrightarrow> I s'"
    and io_keeps: "I s \<Longrightarrow> io ptr ev s = Some s' \<Longrightarrow> I s'"
    and now_keeps: "I (el, w) \<Longrightarrow> sys_now sys w = (t, w') \<Longrightarrow> I (el, w')"
    and wait_keeps: "I (el, w) \<Longrightarrow> sys_epoll_wait sys k t w = (r, w') \<Longrightarrow> I (el, w')"
    and read_keeps: "I (el, w) \<Longrightarrow> sys_eventfd_read sys w = (b, w') \<Longrightarrow> I (el, w')"
    and timers_keeps: "I (el, w) \<Longrightarrow> I (el\<lparr>timers := ts\<rparr>, w)"
    and cancelled_keeps: "I (el, w) \<Longrightarrow> I (el\<lparr>cancelled := c\<rparr>, w)"
    and running_keeps: "I (el, w) \<Longrightarrow> I (el\<lparr>running := b\<rparr>, w)"
begin

lemma drain_wake_keeps:
  assumes "drain_wake sys w = Some w'" "I (el, w)"
  shows "I (el, w')"
proof -
  let ?P = "\<lambda>sys1 w w'. sys1 = sys \<longrightarrow> I (el, w) \<longrightarrow> I (el, w')"
  have "?P sys w w'"
    by (rule drain_wake.raw_induct [where P = ?P, OF _ assms(1)]) (auto split: prod.splits if_splits dest: read_keeps)
  then show ?thesis using assms(2) by simp
qed

lemma fire_loop_keeps:
  assumes "fire_loop run sys now s = Some s'" "I s"
  shows "I s'"
proof -
  let ?P = "\<lambda>run1 sys1 now s s'. run1 = run \<longrightarrow> sys1 = sys \<longrightarrow> I s \<longrightarrow> I s'"
  have "?P run sys now s s'"
  proof (rule fire_loop.raw_induct [where P = ?P, OF _ assms(1)], intro impI, goal_cases)
    case (1 loop run1 sys1 now s s')
    have IH: "loop run sys t s2 = Some s' \<Longrightarrow> I s2 \<Longrightarrow> I s'" for t s2 using 1(1) by blast
    obtain el w where s: "s = (el, w)" by fastforce
    show ?case
    proof (cases "timers el")
      case Nil
      then show ?thesis using 1 s by simp
    next
      case (Cons d ts)
      obtain due t where d: "d = (due, t)" by fastforce
      let ?el = "el\<lparr>timers := ts\<rparr>"
      have I: "I (?el, w)" using timers_keeps 1 s by blast
      consider "\<not> due \<le> now" | "due \<le> now" "t_id t \<in> cancelled el" | "due \<le> now" "t_id t \<notin> cancelled el" by blast
      then show ?thesis
      proof cases
        case 3
        then obtain s2 where s2: "(case t_cb t of None \<Rightarrow> Some (?el, w) | Some cb \<Rightarrow> run cb (?el, w)) = Some s2"
          "(case sys_now sys (snd s2) of (t', w') \<Rightarrow> loop run sys t' (fst s2, w')) = Some s'"
          using 1 s Cons d by (auto simp: Let_def bind_eq_Some_conv cong: option.case_cong)
        have "I s2" using s2(1) I run_keeps by (auto split: option.splits)
        then show ?thesis using s2(2) IH now_keeps [of "fst s2" "snd s2"] by (auto split: prod.splits)
      qed (use 1 s Cons d IH I cancelled_keeps in \<open>auto simp: Let_def\<close>)
    qed
  qed
  then show ?thesis using assms(2) by simp
qed

lemma fire_due_timers_keeps: "fire_due_timers run sys s = Some s' \<Longrightarrow> I s \<Longrightarrow> I s'"
  using fire_loop_keeps now_keeps [of "fst s" "snd s"] by (auto simp: fire_due_timers_def split: prod.splits)

lemma handle_events_keeps: "handle_events run io sys evs s = Some s' \<Longrightarrow> I s \<Longrightarrow> I s'"
proof (induction evs arbitrary: s)
  case (Cons e evs)
  obtain ev ptr where e: "e = (ev, ptr)" by fastforce
  obtain el w where s: "s = (el, w)" by fastforce
  consider "\<not> running el" | "running el" "ptr = kWakeSentinel" | "running el" "ptr \<noteq> kWakeSentinel" by blast
  then show ?case
  proof cases
    case 2
    then obtain w1 s1 where 1: "drain_wake sys w = Some w1" "(case wakeHandler el of None \<Rightarrow> Some (el, w1) | Some h \<Rightarrow> run h (el, w1)) = Some s1"
      "handle_events run io sys evs s1 = Some s'" using Cons.prems e s by (auto simp: bind_eq_Some_conv cong: option.case_cong)
    have "I (el, w1)" using drain_wake_keeps [OF 1(1)] Cons.prems s by simp
    then have "I s1" using 1(2) run_keeps by (auto split: option.splits)
    then show ?thesis using Cons.IH 1 by blast
  qed (use Cons e s io_keeps in \<open>auto simp: bind_eq_Some_conv split: if_splits\<close>)
qed simp

lemma run_loop_keeps:
  assumes "run_loop run io sys s = Some s'" "I s"
  shows "I s'"
proof -
  let ?P = "\<lambda>run1 io1 sys1 s s'. run1 = run \<longrightarrow> io1 = io \<longrightarrow> sys1 = sys \<longrightarrow> I s \<longrightarrow> I s'"
  have "?P run io sys s s'"
  proof (rule run_loop.raw_induct [where P = ?P, OF _ assms(1)], intro impI, goal_cases)
    case (1 loop run1 io1 sys1 s s')
    have IH: "loop run io sys s2 = Some s' \<Longrightarrow> I s2 \<Longrightarrow> I s'" for s2 using 1(1) by blast
    obtain t w1 where t: "(if timers (fst s) = [] then (0, snd s) else sys_now sys (snd s)) = (t, w1)" by fastforce
    obtain r w2 where r: "sys_epoll_wait sys 64 (next_timeout_ms t (fst s)) w1 = (r, w2)" by fastforce
    have "I (fst s, w1)" using t 1 now_keeps [of "fst s" "snd s"] by (auto split: if_splits)
    then have I: "I (fst s, w2)" using wait_keeps [OF _ r] by blast
    show ?case
    proof (cases "running (fst s)")
      case False
      then show ?thesis using 1 by simp
    next
      case True
      have b: "(case r of Inl e \<Rightarrow> if e = EINTR then loop run io sys (fst s, w2) else Some (fst s, w2)
        | Inr evs \<Rightarrow> handle_events run io sys evs (fst s, w2) \<bind> (\<lambda>s'. fire_due_timers run sys s' \<bind> loop run io sys)) = Some s'"
        using 1(2) True t r unfolding 1(3-5) by (simp del: split_paired_All)
      show ?thesis
      proof (cases r)
        case (Inl e)
        then show ?thesis using b I IH [of "(fst s, w2)"] by (auto split: if_splits)
      next
        case (Inr evs)
        then obtain s2 s3 where "handle_events run io sys evs (fst s, w2) = Some s2" "fire_due_timers run sys s2 = Some s3" "loop run io sys s3 = Some s'"
          using b by (auto simp: bind_eq_Some_conv)
        then show ?thesis using I IH handle_events_keeps fire_due_timers_keeps by blast
      qed
    qed
  qed
  then show ?thesis using assms(2) by simp
qed

lemma loop_run_keeps: "loop_run run io sys s = Some s' \<Longrightarrow> I s \<Longrightarrow> I s'"
  using run_loop_keeps running_keeps [of "fst s" "snd s"] by (simp add: loop_run_def)

end

section \<open>The node\<close>

text \<open>
  The steps of a node.  The application constructs it, sets the callbacks, starts it, posts
  commands, stops and joins; the IO thread runs handlers and closures of timers, one at a time,
  and ends.  The world moves at any time, the loop keeps its books while the thread runs.
\<close>

inductive node_step :: "'k platform \<Rightarrow> nat \<Rightarrow> 'k mesh_impl \<Rightarrow> 'k mesh_impl \<Rightarrow> bool" for P n where
  node_callbacks: "\<not> mi_started s \<Longrightarrow> node_step P n s (set_callbacks cb s)"
| node_start: "\<not> mi_started s \<Longrightarrow> mesh_start P n s = Some (ex, s') \<Longrightarrow> node_step P n s s'"
| node_broadcast: "node_step P n s (mesh_broadcast P data s)"
| node_send: "node_step P n s (mesh_send P dst data s)"
| node_stop: "node_step P n s (snd (mesh_stop P onIo s))"
| node_join: "mesh_join s = Some s' \<Longrightarrow> node_step P n s s'"
| node_io: "mi_thread s = Io_running \<Longrightarrow> mesh_io P n ptr ev s = Some s' \<Longrightarrow> node_step P n s s'"
| node_timer: "mi_thread s = Io_running \<Longrightarrow> mesh_timer P n cb s = Some s' \<Longrightarrow> node_step P n s s'"
| node_exit: "mi_thread s = Io_running \<Longrightarrow> node_step P n s (s\<lparr>mi_thread := Io_done\<rparr>)"
| node_loop: "mi_thread s = Io_running \<Longrightarrow> node_step P n s (set_loop el s)"
| node_world: "node_step P n s (set_os k s)"

abbreviation node_steps :: "'k platform \<Rightarrow> nat \<Rightarrow> 'k mesh_impl \<Rightarrow> 'k mesh_impl \<Rightarrow> bool" where
  "node_steps P n \<equiv> (node_step P n)\<^sup>*\<^sup>*"

text \<open>What the IO thread keeps while it runs: the node is reachable from where the thread began.\<close>

definition thread_inv :: "'k platform \<Rightarrow> nat \<Rightarrow> 'k mesh_impl \<Rightarrow> loop_cb event_loop \<times> 'k mesh_impl \<Rightarrow> bool" where
  "thread_inv P n s0 s \<longleftrightarrow> mi_thread (snd s) = Io_running \<and> node_steps P n s0 (set_loop (fst s) (snd s))"

lemma set_loop_fields [simp]:
  "mi_thread (set_loop el s) = mi_thread s" "mi_started (set_loop el s) = mi_started s" "set_loop el (set_loop el' s) = set_loop el s"
  "mesh_os (set_loop el s) = mesh_os s"
  by (cases "mi_peers s"; simp add: set_loop_def mesh_os_def)+

lemma set_loop_os: "set_loop el (set_os k s) = set_os k (set_loop el s)"
  by (cases "mi_peers s") (simp_all add: set_loop_def set_os_def)

lemma set_loop_same: "mi_peers s = Some m \<Longrightarrow> set_loop (pm_loop m) s = s"
  by (simp add: set_loop_def)

lemma thread_inv_os: "thread_inv P n s0 (el, w) \<Longrightarrow> thread_inv P n s0 (el, set_os k w)"
  by (auto simp: thread_inv_def set_loop_os intro: rtranclp.rtrancl_into_rtrancl node_world)

lemma thread_inv_loop: "thread_inv P n s0 (el, w) \<Longrightarrow> thread_inv P n s0 (el', w)"
  using node_loop [of "set_loop el w" P n el'] by (auto simp: thread_inv_def intro: rtranclp.rtrancl_into_rtrancl)

lemma thread_inv_call: "thread_inv P n s0 (el, w) \<Longrightarrow> mesh_call f w = (r, w') \<Longrightarrow> thread_inv P n s0 (el, w')"
  by (auto simp: mesh_call_def split: prod.splits intro: thread_inv_os)

lemma thread_inv_handler:
  assumes "thread_inv P n s0 s" "on_loop f s = Some s'" and "\<And>s s'. mi_thread s = Io_running \<Longrightarrow> f s = Some s' \<Longrightarrow> node_step P n s s' \<and> moved P n s s'"
  shows "thread_inv P n s0 s'"
proof -
  obtain s1 m where s1: "f (set_loop (fst s) (snd s)) = Some s1" "mi_peers s1 = Some m" "s' = (pm_loop m, s1)"
    using assms(2) by (auto simp: on_loop_def bind_eq_Some_conv)
  have "mi_thread (set_loop (fst s) (snd s)) = Io_running" using assms(1) by (simp add: thread_inv_def)
  from assms(3) [OF this s1(1)] show ?thesis
    using assms(1) s1 by (auto simp: thread_inv_def set_loop_same moved_def)
qed

interpretation thread: loop_client "\<lambda>cb. on_loop (mesh_timer P n cb)" "\<lambda>ptr ev. on_loop (mesh_io P n ptr ev)" "mesh_sys (pf_sys P)" "thread_inv P n s0"
  for P :: "'k platform" and n s0
proof unfold_locales
  show "thread_inv P n s0 s'" if "thread_inv P n s0 s" "on_loop (mesh_timer P n cb) s = Some s'" for cb s s'
    using that by (rule thread_inv_handler) (auto intro: node_timer mesh_timer_moved)
  show "thread_inv P n s0 s'" if "thread_inv P n s0 s" "on_loop (mesh_io P n ptr ev) s = Some s'" for ptr ev s s'
    using that by (rule thread_inv_handler) (auto intro: node_io mesh_io_moved)
qed (auto simp: mesh_sys_def intro: thread_inv_call thread_inv_loop)


section \<open>Reachable nodes\<close>

definition wf_node :: "'k platform \<Rightarrow> 'k mesh_impl \<Rightarrow> bool" where
  "wf_node P s \<longleftrightarrow> (\<not> mi_started s \<longrightarrow> mi_peers s = None) \<and> (\<forall>m. mi_peers s = Some m \<longrightarrow> wf_mgr (mesh_env P s) m)"

lemma moved_wf: "moved P n s s' \<Longrightarrow> wf_node P s \<Longrightarrow> wf_node P s'"
  unfolding wf_node_def moved_def using wf_mgr_moves by (fastforce simp: mesh_env_def option_rel_Some2)

lemma moved_start_discovery:
  assumes "start_discovery P s = Some s'"
  shows "moved P n s s'"
proof -
  from assms obtain m where m: "mi_peers s = Some m" by (auto simp: start_discovery_def bind_eq_Some_conv)
  obtain err d el k where d: "discovery_start (pf_sys P) (pf_crypto P) (pf_net P) (pf_uniform P) (mi_cfg s) (mi_self s) (pf_discovery P) Announce_cb (pm_loop m, pm_os m) =
    (err, d, el, k)" by (metis prod.collapse)
  show ?thesis using assms moves_world [where n = n and m = m and el = el and k = k] by (cases err) (auto simp: start_discovery_def Let_def m d moved_def simp del: delegate.simps)
qed

lemma wf_make_peers: "wf_mgr E (make_peers P s)"
  by (simp add: make_peers_def wf_mgr_def conns_ok_def links_ok_def records_ok_def reap_ok_def slots_ok_def peer_manager_init_def split: prod.split)

lemma start_services_wf:
  assumes "start_services P n l s = Some s'" "mi_peers s = Some m" "\<And>E. wf_mgr E m" "mi_started s"
  shows "wf_node P s'"
proof -
  define s1 where "s1 = s\<lparr>mi_listener := Some l, mi_self := (mi_self s)\<lparr>li_listenPort := ls_boundPort l\<rparr>, mi_listenPort := ls_boundPort l,
    mi_discovery := Some discovery_init\<rparr>"
  define s2 where "s2 = set_os (snd (pf_device P (mesh_os s1))) s1"
  define s3 where "s3 = s2\<lparr>mi_peers := map_option (\<lambda>m. m\<lparr>pm_loop := (pm_loop m)\<lparr>wakeHandler := Some Mailbox_cb\<rparr>\<rparr>) (mi_peers s2)\<rparr>"
  obtain s4 s5 where s4: "start_peers P n s3 = Some s4" and s5: "start_discovery P s4 = Some s5" and s': "s' = s5\<lparr>mi_running := True, mi_thread := Io_running\<rparr>"
    using assms(1) by (auto simp: start_services_def Let_def bind_eq_Some_conv s1_def s2_def s3_def)
  have s3: "mi_started s3 = mi_started s" "\<exists>el k. mi_peers s3 = Some (m\<lparr>pm_os := k, pm_loop := el\<rparr>)"
    using assms(2) by (auto simp: s1_def s2_def s3_def)
  have "wf_node P s3" using s3 assms(3,4) by (auto simp: wf_node_def)
  moreover have "moved P n s3 s4"
    by (rule moved_with_peers [OF s4 [unfolded start_peers_def]]) (use moves_event [of "mesh_env P s3" n Start] in simp)
  ultimately have "wf_node P s5" using moved_start_discovery [OF s5] moved_wf by blast
  then show ?thesis using s' by (simp add: wf_node_def mesh_env_def)
qed

lemma start_wf:
  assumes "mesh_start P n s = Some (ex, s')" "\<not> mi_started s" "wf_node P s"
  shows "wf_node P s'"
proof -
  have p: "mi_peers s = None" using assms by (simp add: wf_node_def)
  obtain ok1 s1 where 1: "configure_secure P s = (ok1, s1)" by fastforce
  obtain ok2 s2 where 2: "configure_identity P s1 = (ok2, s2)" by fastforce
  note o1 = secure_outcome [OF 1]
  show ?thesis
  proof (cases ok1)
    case False
    then have "s' = s1" "refused s s1" using o1 1 assms(1) by (auto simp: mesh_start_def)
    then show ?thesis using p by (simp add: wf_node_def refused_def)
  next
    case t1: True
    then have s1: "mi_peers s1 = None" "mi_started s1 = mi_started s" using o1 p by auto
    show ?thesis
    proof (cases ok2)
      case False
      then have "s' = s2" "refused s1 s2" using 1 2 t1 assms(1) identity_refused by (auto simp: mesh_start_def)
      then show ?thesis using s1 by (simp add: wf_node_def refused_def)
    next
      case t2: True
      let ?s3 = "s2\<lparr>mi_started := True, mi_peers := Some (make_peers P s2)\<rparr>"
      have "\<not> mi_started s2" using identity_started [of P s1 s2] 2 t2 s1 assms(2) by simp
      then consider k where "s' = set_os k ?s3" | k l where "start_services P n l (set_os k ?s3) = Some s'"
        using assms(1) 1 2 t1 t2 by (auto simp: mesh_start_def Let_def bind_eq_Some_conv split: prod.splits sum.splits)
      then show ?thesis
      proof cases
        case 1
        then show ?thesis by (simp add: wf_node_def wf_make_peers)
      next
        case 2
        then show ?thesis by (rule start_services_wf [where m = "(make_peers P s2)\<lparr>pm_os := k\<rparr>"]) (simp_all add: wf_make_peers)
      qed
    qed
  qed
qed

lemma wf_node_same: "wf_node P s \<Longrightarrow> mi_cfg s' = mi_cfg s \<Longrightarrow> mi_self s' = mi_self s \<Longrightarrow> mi_started s' = mi_started s \<Longrightarrow> mi_peers s' = mi_peers s \<Longrightarrow> wf_node P s'"
  by (simp add: wf_node_def mesh_env_def)

lemma node_step_wf: "node_step P n s s' \<Longrightarrow> wf_node P s \<Longrightarrow> wf_node P s'"
proof (induction rule: node_step.induct)
  case (node_callbacks s cb)
  then show ?case using wf_node_same [of P s] by (simp add: set_callbacks_def)
next
  case (node_start s ex s')
  then show ?case using start_wf by blast
next
  case (node_join s s')
  then show ?case using wf_node_same [of P s s'] by (auto simp: mesh_join_def split: if_splits)
next
  case (node_exit s)
  then show ?case using wf_node_same [of P s] by simp
next
  case (node_io s ptr ev s')
  then show ?case using moved_wf [OF mesh_io_moved] by blast
next
  case (node_timer s cb s')
  then show ?case using moved_wf [OF mesh_timer_moved] by blast
qed (erule moved_wf [rotated], rule app_calls_moved moved_set_loop moved_set_os)+

lemma wf_node_init: "wf_node P (mesh_impl_init cfg os)"
  by (simp add: wf_node_def mesh_impl_init_def)

lemma node_steps_wf: "node_steps P n (mesh_impl_init cfg os) s \<Longrightarrow> wf_node P s"
  by (induction rule: rtranclp_induct) (rule wf_node_init, erule (1) node_step_wf)

text \<open>
  C2: In every state a node can reach, by any interleaving of the application's calls with the
  handlers of the IO thread, from its construction through start and stop to the join, the tables
  of the peer manager are sound: connections have distinct addresses and a history of connection
  steps, each link other than one of the all-zero id is a live established connection to that peer,
  connected records refer to links, the reap list holds only connections that no table refers to,
  and the dialling slots of static peers mirror the dialling connections.
\<close>

theorem node_invariant:
  assumes "node_steps P n (mesh_impl_init cfg os) s" "mi_peers s = Some m"
  shows "conns_ok (mesh_env P s) m \<and> links_ok m \<and> records_ok m \<and> reap_ok m \<and> slots_ok m"
  using node_steps_wf [OF assms(1)] assms(2) by (simp add: wf_node_def wf_mgr_def)

section \<open>The mailbox\<close>

text \<open>Calls of the application, and the commands and the operations of the manager they stand for.\<close>

datatype app_call = Call_broadcast bytes | Call_send peer_id bytes | Call_stop bool

fun call_node :: "'k platform \<Rightarrow> app_call \<Rightarrow> 'k mesh_impl \<Rightarrow> 'k mesh_impl" where
  "call_node P (Call_broadcast data) s = mesh_broadcast P data s"
| "call_node P (Call_send dst data) s = mesh_send P dst data s"
| "call_node P (Call_stop onIo) s = snd (mesh_stop P onIo s)"

fun call_commands :: "app_call list \<Rightarrow> command list" where
  "call_commands [] = []"
| "call_commands (Call_broadcast data # cs) = \<lparr>cmd_type = Kind_broadcast, cmd_dst = zero_id, cmd_payload = data\<rparr> # call_commands cs"
| "call_commands (Call_send dst data # cs) = \<lparr>cmd_type = Kind_targeted, cmd_dst = dst, cmd_payload = data\<rparr> # call_commands cs"
| "call_commands (Call_stop onIo # cs) = [\<lparr>cmd_type = Kind_stop, cmd_dst = zero_id, cmd_payload = []\<rparr>]"

fun call_events :: "app_call list \<Rightarrow> mgr_event list" where
  "call_events [] = []"
| "call_events (Call_broadcast data # cs) = Broadcast data # call_events cs"
| "call_events (Call_send dst data # cs) = Targeted dst data # call_events cs"
| "call_events (Call_stop onIo # cs) = [Shutdown]"

definition stops :: "app_call list \<Rightarrow> bool" where
  "stops cs \<longleftrightarrow> (\<exists>onIo. Call_stop onIo \<in> set cs)"

lemma stops_simps [simp]: "\<not> stops []" "stops (Call_stop onIo # cs)" "stops (Call_broadcast data # cs) = stops cs" "stops (Call_send dst data # cs) = stops cs"
  by (auto simp: stops_def)

lemma call_events_commands: "call_events cs = command_events (call_commands cs) @ (if stops cs then [Shutdown] else [])"
  by (induction cs rule: call_events.induct) auto

lemma call_stops: "(\<exists>c\<in>set (call_commands cs). cmd_type c = Kind_stop) = stops cs"
  by (induction cs rule: call_events.induct) auto

lemma stopped_ignores1: "\<not> mi_running s \<Longrightarrow> call_node P c s = s"
  by (cases c) (simp_all add: mesh_broadcast_def mesh_send_def mesh_stop_def)

lemma stopped_ignores: "\<not> mi_running s \<Longrightarrow> fold (call_node P) cs s = s"
  by (induction cs) (simp_all add: stopped_ignores1)

lemma post_fields [simp]:
  "mi_mailbox (post P c s) = mi_mailbox s @ [c]" "mi_running (post P c s) = mi_running s" "mi_started (post P c s) = mi_started s"
  "mi_cfg (post P c s) = mi_cfg s" "mi_self (post P c s) = mi_self s"
  "mi_peers (post P c s) = map_option (\<lambda>m. m\<lparr>pm_os := wakeup (pf_sys P) (pm_os m)\<rparr>) (mi_peers s)"
  by (cases "mi_peers s"; simp add: post_def mesh_os_def Let_def)+

lemma calls_posted:
  assumes "mi_running s" "mi_started s" "mi_peers s = Some m"
  shows "mi_mailbox (fold (call_node P) cs s) = mi_mailbox s @ call_commands cs \<and> mesh_env P (fold (call_node P) cs s) = mesh_env P s \<and>
    mi_running (fold (call_node P) cs s) = (\<not> stops cs) \<and>
    mi_peers (fold (call_node P) cs s) = Some (m\<lparr>pm_os := (wakeup (pf_sys P) ^^ length (call_commands cs)) (pm_os m)\<rparr>)"
  using assms
proof (induction cs arbitrary: s m)
  case (Cons c cs)
  show ?case
  proof (cases c)
    case (Call_broadcast data)
    then show ?thesis using Cons by (simp add: mesh_broadcast_def mesh_env_def funpow_swap1)
  next
    case (Call_send dst data)
    then show ?thesis using Cons by (simp add: mesh_send_def mesh_env_def funpow_swap1)
  next
    case (Call_stop onIo)
    then show ?thesis using Cons.prems by (simp add: mesh_stop_def Let_def stopped_ignores mesh_env_def)
  qed
qed simp

lemma with_peers_eq: "with_peers f s = Some s' \<Longrightarrow> \<exists>m m'. mi_peers s = Some m \<and> f m = Some m' \<and> mi_peers s' = Some m' \<and> mi_mailbox s' = mi_mailbox s \<and>
  mi_cfg s' = mi_cfg s \<and> mi_self s' = mi_self s \<and> mi_running s' = mi_running s"
  by (auto simp: with_peers_def bind_eq_Some_conv)

lemma mgr_run_append: "mgr_run E n (es1 @ es2) m = do { m1 \<leftarrow> mgr_run E n es1 m; mgr_run E n es2 m1 }"
  by (induction es1 arbitrary: m) (auto split: Option.bind_split)

lemma mgr_run_one [simp]: "mgr_run E n [e] m = mgr_step E n e m"
  by (cases "mgr_step E n e m") simp_all

text \<open>
  C3: The application's calls reach the manager in the order they were made.  A running node
  with an empty mailbox, after any calls to broadcast, send and stop and the next run of the wake
  handler, has performed exactly the operations of the calls up to the first stop, the shutdown
  last; later calls have no effect, the mailbox is empty, and after a stop the loop is told to end.
\<close>

theorem calls_in_order:
  assumes "mi_running s" "mi_started s" "mi_mailbox s = []" "mi_peers s = Some m"
    and "drain_mailbox P n (fold (call_node P) cs s) = Some s'"
  shows "\<exists>m'. mgr_run (mesh_env P s) n (call_events cs) (m\<lparr>pm_os := (wakeup (pf_sys P) ^^ length (call_events cs)) (pm_os m)\<rparr>) = Some m' \<and>
    mi_mailbox s' = [] \<and> mi_running s' = (\<not> stops cs) \<and>
    mi_peers s' = Some (if stops cs then m'\<lparr>pm_loop := (pm_loop m')\<lparr>running := False\<rparr>, pm_os := wakeup (pf_sys P) (pm_os m')\<rparr> else m')"
proof -
  let ?s = "fold (call_node P) cs s"
  let ?E = "mesh_env P s"
  have len: "length (call_events cs) = length (call_commands cs)" by (induction cs rule: call_events.induct) auto
  note p = calls_posted [OF assms(1,2,4), of P cs]
  from assms(5) p obtain s1 where s1: "with_peers (originate_all ?E (sender ?E n) (call_commands cs)) (?s\<lparr>mi_mailbox := []\<rparr>) = Some s1"
    and rest: "(if stops cs then (with_peers (pm_shutdown ?E (sender ?E n)) s1 \<bind>
      with_peers (\<lambda>m. case loop_stop (pf_sys P) (pm_loop m, pm_os m) of (el, k) \<Rightarrow> Some (m\<lparr>pm_loop := el, pm_os := k\<rparr>))) else Some s1) = Some s'"
    using assms(3) by (auto simp: drain_mailbox_def Let_def bind_eq_Some_conv call_stops split: if_splits)
  obtain m1 where m1: "mgr_run ?E n (command_events (call_commands cs)) (m\<lparr>pm_os := (wakeup (pf_sys P) ^^ length (call_events cs)) (pm_os m)\<rparr>) = Some m1"
    "mi_peers s1 = Some m1" "mi_mailbox s1 = []" "mi_running s1 = (\<not> stops cs)"
    using with_peers_eq [OF s1] p len by (auto simp: originate_all_run)
  show ?thesis
  proof (cases "stops cs")
    case False
    then show ?thesis using m1 rest by (simp add: call_events_commands)
  next
    case True
    then obtain s2 where s2: "with_peers (pm_shutdown ?E (sender ?E n)) s1 = Some s2"
      "with_peers (\<lambda>m. case loop_stop (pf_sys P) (pm_loop m, pm_os m) of (el, k) \<Rightarrow> Some (m\<lparr>pm_loop := el, pm_os := k\<rparr>)) s2 = Some s'"
      using rest by (auto simp: bind_eq_Some_conv)
    obtain m2 where m2: "pm_shutdown ?E (sender ?E n) m1 = Some m2" "mi_peers s2 = Some m2" "mi_mailbox s2 = []" "mi_running s2 = (\<not> stops cs)"
      using with_peers_eq [OF s2(1)] m1 by auto
    have "mi_peers s' = Some (m2\<lparr>pm_loop := (pm_loop m2)\<lparr>running := False\<rparr>, pm_os := wakeup (pf_sys P) (pm_os m2)\<rparr>)" "mi_mailbox s' = []" "mi_running s' = (\<not> stops cs)"
      using with_peers_eq [OF s2(2)] m2 by (auto simp: loop_stop_def)
    then show ?thesis using m1 m2 True by (simp add: call_events_commands mgr_run_append)
  qed
qed

section \<open>Witnesses\<close>

text \<open>A machine whose wake descriptor is always ready, and an open node started on it.\<close>

definition wake_home :: "(string \<times> string) list platform" where
  "wake_home = home\<lparr>pf_sys := (idle_sys 0)\<lparr>sys_epoll_wait := (\<lambda>_ _ w. (Inr [(EPOLLIN, kWakeSentinel)], w))\<rparr>\<rparr>"

definition open_node :: "(string \<times> string) list mesh_impl" where
  "open_node = mesh_impl_init (default_config (Peer_id (replicate 16 1))) []"

definition alone :: "'k mesh_impl \<Rightarrow> bool" where
  "alone s \<longleftrightarrow> mi_thread s = Io_running \<and> mi_started s \<and> mi_running s \<and> mi_mailbox s = [] \<and>
     (\<exists>m. mi_peers s = Some m \<and> pm_conns m = [] \<and> pm_estab m = [] \<and> wakeHandler (pm_loop m) = Some Mailbox_cb \<and> (\<forall>t\<in>set (timers (pm_loop m)). 0 < fst t))"

lemma open_node_starts: "\<exists>s. mesh_start wake_home 0 open_node = Some (None, s) \<and> alone s"
  apply (simp add: mesh_start_def configure_secure_def configure_identity_def open_node_def default_config_def mesh_impl_init_def Let_def)
  apply (simp add: listener_start_def wake_home_def home_def idle_sys_def quiet_net_def make_addr_def loop_add_def Let_def make_peers_def peer_manager_init_def
      mesh_os_def set_os_def)
  apply (simp add: start_services_def start_peers_def with_peers_def pm_start_def pm_now_def mesh_env_def mgr_env_of_def mgr_sys_def os_call_def Let_def
      dial_seeds_def maintain_static_peers_def mesh_os_def set_os_def schedule_tick_def gr_start_def)
  apply (simp add: arm_def pm_now_def os_call_def start_discovery_def discovery_start_def discovery_init_def make_addr_def loop_add_def run_announce_def
      send_announce_def schedule_announce_def announce_delay_def Let_def add_timer_def event_loop_init_def sweep_period_def ms_def mgr_sys_def alone_def)
  done

theorem node_invariant_witness:
  "\<exists>s m. node_steps wake_home 0 open_node s \<and> mi_peers s = Some m \<and> links_ok m \<and> reap_ok m"
proof -
  obtain s where s: "mesh_start wake_home 0 open_node = Some (None, s)" "alone s" using open_node_starts by blast
  have "\<not> mi_started open_node" by (simp add: open_node_def mesh_impl_init_def)
  then have st: "node_steps wake_home 0 open_node s" using node_start s(1) by blast
  obtain m where m: "mi_peers s = Some m" using s(2) by (auto simp: alone_def)
  from node_invariant [OF st [unfolded open_node_def] m] st m show ?thesis by blast
qed

lemma broadcast_alone:
  assumes "pm_conns m = []" "pm_estab m = []"
  shows "\<exists>m'. mgr_step E n (Broadcast payload) m = Some m' \<and> pm_conns m' = [] \<and> pm_loop m' = pm_loop m"
  using assms by (auto simp: pm_originate_broadcast_def originate_broadcast_def mgr_forwarder_def pm_forward_except_def pm_now_def os_call_def mgr_sys_def Let_def
      split: prod.split)

lemma shutdown_alone:
  assumes "pm_conns m = []"
  shows "\<exists>m'. mgr_step E n Shutdown m = Some m' \<and> pm_loop m' = pm_loop m"
  using assms by (simp add: pm_shutdown_def)

lemma drain_alone:
  assumes "mi_peers s = Some m" "pm_conns m = []" "pm_estab m = []" "mi_mailbox s = call_commands [Call_broadcast payload, Call_stop True]"
  shows "\<exists>s' m'. drain_mailbox P n s = Some s' \<and> mi_peers s' = Some m' \<and> pm_loop m' = (pm_loop m)\<lparr>running := False\<rparr>"
proof -
  let ?E = "mesh_env P s"
  obtain m1 where m1: "mgr_step ?E n (Broadcast payload) m = Some m1" "pm_conns m1 = []" "pm_loop m1 = pm_loop m" using broadcast_alone assms by blast
  obtain m2 where m2: "mgr_step ?E n Shutdown m1 = Some m2" "pm_loop m2 = pm_loop m1" using shutdown_alone m1 by blast
  have o: "originate_all ?E (sender ?E n) (mi_mailbox s) m = Some m1" using m1(1) assms(4) by (simp add: originate_all_run)
  show ?thesis using assms m1 m2 o by (auto simp: drain_mailbox_def with_peers_def Let_def loop_stop_def)
qed

theorem calls_in_order_witness:
  "\<exists>s m s' m'. alone s \<and> mi_peers s = Some m \<and> drain_mailbox wake_home 0 (fold (call_node wake_home) [Call_broadcast [7], Call_stop True, Call_broadcast [8]] s) = Some s' \<and>
     mgr_run (mesh_env wake_home s) 0 [Broadcast [7], Shutdown] (m\<lparr>pm_os := (wakeup (pf_sys wake_home) ^^ 2) (pm_os m)\<rparr>) = Some m' \<and> \<not> mi_running s'"
proof -
  obtain s where "mesh_start wake_home 0 open_node = Some (None, s)" and s: "alone s" using open_node_starts by blast
  then obtain m where m: "mi_running s" "mi_started s" "mi_mailbox s = []" "mi_peers s = Some m" "pm_conns m = []" "pm_estab m = []" by (auto simp: alone_def)
  let ?cs = "[Call_broadcast [7], Call_stop True, Call_broadcast [8]]"
  from calls_posted [OF m(1,2,4), of wake_home ?cs] m(3)
  have "\<exists>s' m'. drain_mailbox wake_home 0 (fold (call_node wake_home) ?cs s) = Some s' \<and> mi_peers s' = Some m' \<and>
    pm_loop m' = (pm_loop (m\<lparr>pm_os := (wakeup (pf_sys wake_home) ^^ 2) (pm_os m)\<rparr>))\<lparr>running := False\<rparr>"
    by (intro drain_alone [where payload = "[7]"]) (simp_all add: m eval_nat_numeral)
  then obtain s' where d: "drain_mailbox wake_home 0 (fold (call_node wake_home) ?cs s) = Some s'" by blast
  from calls_in_order [OF m(1-4) d] show ?thesis using s m(4) d by (auto simp: eval_nat_numeral)
qed

lemma wake_home_sys [simp]:
  "sys_now (mesh_sys (pf_sys wake_home)) s = (0, set_os (mesh_os s) s)" "sys_eventfd_read (mesh_sys (pf_sys wake_home)) s = (False, set_os (mesh_os s) s)"
  "sys_epoll_wait (mesh_sys (pf_sys wake_home)) k t s = (Inr [(EPOLLIN, kWakeSentinel)], set_os (mesh_os s) s)"
  by (simp_all add: wake_home_def home_def mesh_sys_def mesh_call_def idle_sys_def)

lemma set_os_same [simp]: "set_os (mesh_os s) s = s"
  by (cases "mi_peers s") (simp_all add: set_os_def mesh_os_def)

lemma thread_ends:
  assumes "mi_peers s = Some m" "wakeHandler (pm_loop m) = Some Mailbox_cb" "\<forall>t\<in>set (timers (pm_loop m)). 0 < fst t"
    and "pm_conns m = []" "pm_estab m = []" "mi_mailbox s = call_commands [Call_broadcast payload, Call_stop True]"
  shows "\<exists>s'. io_thread_main wake_home n s = Some s'"
proof -
  let ?run = "\<lambda>cb. on_loop (mesh_timer wake_home n cb)"
  let ?io = "\<lambda>ptr ev. on_loop (mesh_io wake_home n ptr ev)"
  let ?sys = "mesh_sys (pf_sys wake_home)"
  let ?el = "(pm_loop m)\<lparr>running := True\<rparr>"
  have p: "mi_peers (set_loop ?el s) = Some (m\<lparr>pm_loop := ?el\<rparr>)" "mi_mailbox (set_loop ?el s) = mi_mailbox s" using assms(1) by (simp_all add: set_loop_def)
  have "\<exists>s' m'. drain_mailbox wake_home n (set_loop ?el s) = Some s' \<and> mi_peers s' = Some m' \<and> pm_loop m' = (pm_loop (m\<lparr>pm_loop := ?el\<rparr>))\<lparr>running := False\<rparr>"
    by (rule drain_alone [OF p(1)]) (use assms p in simp_all)
  then obtain s1 m1 where d: "drain_mailbox wake_home n (set_loop ?el s) = Some s1" "mi_peers s1 = Some m1" "pm_loop m1 = (pm_loop m)\<lparr>running := False\<rparr>" by auto
  have w: "drain_wake ?sys s = Some s" by (subst drain_wake.simps) simp
  have h: "handle_events ?run ?io ?sys [(EPOLLIN, kWakeSentinel)] (?el, s) = Some (pm_loop m1, s1)"
    using d assms(2) w by (simp add: on_loop_def)
  have f: "fire_due_timers ?run ?sys (pm_loop m1, s1) = Some (pm_loop m1, s1)"
    unfolding fire_due_timers_def using d(3) assms(3) by (cases "timers (pm_loop m)") (auto simp: fire_loop.simps)
  have "loop_run ?run ?io ?sys (pm_loop m, s) = run_loop ?run ?io ?sys (pm_loop m1, s1)"
    unfolding loop_run_def using h f by (subst run_loop.simps) (simp del: handle_events.simps)
  also have "\<dots> = Some (pm_loop m1, s1)" using d(3) by (subst run_loop.simps) simp
  finally show ?thesis using assms(1) by (simp add: io_thread_main_def)
qed


end
