(* ===== verification/Chat.thy ===== *)
theory Chat
  imports MeshNode
begin

text \<open>
  The example programs.  \<open>mm_chat\<close> (\<open>examples/chat.cpp\<close>): its command line, the texts it prints for
  the node's events, and the calls it makes for the lines typed; the claim is that the documented
  command line configures what it says.  \<open>mm_ping\<close> (\<open>examples/ping.cpp\<close>): the lines and calls of its
  callbacks; an exchange of a ping and a pong ends.  Standard input and output are lists of lines.
\<close>

section \<open>Endpoints\<close>

text \<open>\<open>strtoul\<close> in base ten, with its sign, its saturation and the rest of the text ignored.\<close>

definition isdigit :: "char \<Rightarrow> bool" where
  "isdigit c \<longleftrightarrow> 48 \<le> (of_char c :: nat) \<and> (of_char c :: nat) \<le> 57"

definition digits_value :: "string \<Rightarrow> nat" where
  "digits_value ds = foldl (\<lambda>a c. a * 10 + (of_char c - 48)) 0 ds"

definition strtoul10 :: "string \<Rightarrow> u64" where
  "strtoul10 arg =
     (let s = dropWhile isspace arg;
          neg = (s \<noteq> [] \<and> hd s = CHR ''-'');
          ds = takeWhile isdigit (if s \<noteq> [] \<and> (hd s = CHR ''-'' \<or> hd s = CHR ''+'') then tl s else s);
          v = digits_value ds
      in if v \<ge> 2 ^ 64 then -1 else if neg then - of_nat v else of_nat v)"

text \<open>The text before and after the last occurrence of a character (\<open>rfind\<close>).\<close>

fun split_last :: "char \<Rightarrow> string \<Rightarrow> (string \<times> string) option" where
  "split_last c [] = None"
| "split_last c (x # xs) =
     (case split_last c xs of
        Some (a, b) \<Rightarrow> Some (x # a, b)
      | None \<Rightarrow> if x = c then Some ([], xs) else None)"

definition parse_endpoint :: "string \<Rightarrow> seed_peer option" where
  "parse_endpoint arg =
     (case split_last (CHR '':'') arg of
        None \<Rightarrow> None
      | Some (host, rest) \<Rightarrow>
          if host = [] \<or> rest = [] then None
          else let port = ucast (strtoul10 rest) in if port \<noteq> 0 then Some \<lparr>sp_host = host, sp_port = port\<rparr> else None)"

section \<open>The command line\<close>

definition trusted_arg :: "string \<Rightarrow> trusted_node" where
  "trusted_arg v = \<lparr>tn_publicKeyHex = takeWhile (\<lambda>c. c \<noteq> CHR ''='') v,
     tn_label = (if CHR ''='' \<in> set v then tl (dropWhile (\<lambda>c. c \<noteq> CHR ''='') v) else [])\<rparr>"

text \<open>The configuration, and the messages on standard error.\<close>

definition chat_peer :: "string \<Rightarrow> mesh_config \<times> string list \<Rightarrow> mesh_config \<times> string list" where
  "chat_peer a s =
     (case parse_endpoint a of
        Some ep \<Rightarrow> ((fst s)\<lparr>staticPeers := staticPeers (fst s) @ [ep]\<rparr>, snd s)
      | None \<Rightarrow> (fst s, snd s @ [''ignoring unrecognized argument: '' @ a]))"

fun chat_args :: "string list \<Rightarrow> mesh_config \<times> string list \<Rightarrow> mesh_config \<times> string list" where
  "chat_args [] s = s"
| "chat_args [a] s = chat_peer a s"
| "chat_args (a # v # argv) (cfg, err) =
     (if a = ''--port'' then chat_args argv (cfg\<lparr>listenPort := ucast (strtoul10 v)\<rparr>, err)
      else if a = ''--psk'' then chat_args argv (cfg\<lparr>psk := v\<rparr>, err)
      else if a = ''--identity'' then chat_args argv (cfg\<lparr>identityFile := v\<rparr>, err)
      else if a = ''--name'' then chat_args argv (cfg\<lparr>nodeName := v\<rparr>, err)
      else if a = ''--trust'' then chat_args argv (cfg\<lparr>trustedKeys := trustedKeys cfg @ [trusted_arg v]\<rparr>, err)
      else chat_args (v # argv) (chat_peer a (cfg, err)))"

definition chat_config :: "mesh_config \<Rightarrow> string list \<Rightarrow> mesh_config \<times> string list" where
  "chat_config cfg argv =
     (case argv of
        [] \<Rightarrow> (cfg, [])
      | a # rest \<Rightarrow> if a \<noteq> [] \<and> hd a = CHR ''-'' then chat_args argv (cfg, []) else chat_args rest (cfg\<lparr>groupName := a\<rparr>, []))"

section \<open>What it prints\<close>

text \<open>A number as the stream inserter prints it.\<close>

fun decimal :: "nat \<Rightarrow> string" where
  "decimal n = (if n < 10 then [char_of (48 + n)] else decimal (n div 10) @ [char_of (48 + n mod 10)])"

declare decimal.simps [simp del]

definition who :: "'k mesh_impl \<Rightarrow> peer_id \<Rightarrow> string" where
  "who s p = (let n = node_name s p in if n = [] then take 8 (to_string p) else n)"

definition chat_callbacks :: callbacks where
  "chat_callbacks = \<lparr>cb_onPeerDiscovered = False, cb_onPeerConnected = True, cb_onPeerDisconnected = True, cb_onPeerLost = True,
     cb_onMemberJoined = True, cb_onMemberLeft = True, cb_onMessage = True, cb_onError = True\<rparr>"

text \<open>The line of each callback, on standard output or (\<open>Inl\<close>) standard error.\<close>

fun chat_line :: "'k mesh_impl \<Rightarrow> user_call \<Rightarrow> (string + string) option" where
  "chat_line s (OnPeerDiscovered p) = None"
| "chat_line s (OnPeerConnected p) = Some (Inr (''[+ connected]    '' @ who s p))"
| "chat_line s (OnPeerDisconnected p) = Some (Inr (''[- disconnected] '' @ who s p))"
| "chat_line s (OnPeerLost p) = Some (Inr (''[x lost]         '' @ who s p))"
| "chat_line s (OnMemberJoined p) = Some (Inr (''[+ connected]    '' @ who s p))"
| "chat_line s (OnMemberLeft p) = Some (Inr (''[- disconnected] '' @ who s p))"
| "chat_line s (OnMessage p payload) = Some (Inr (who s p @ ''> '' @ bytes_str payload))"
| "chat_line s (OnError e) = Some (Inl (''[error] '' @ e_what e))"

definition banner :: "mesh_config \<Rightarrow> 'k mesh_impl \<Rightarrow> string list" where
  "banner cfg s =
     [''this node: '' @ to_string (nodeId (mi_cfg s)) @ ''  port: '' @ decimal (unat (mi_listenPort s)) @ ''  group: '' @ groupName cfg @
        (if psk cfg = [] then [] else ''  [secured]'')] @
     (let pub = identity_public_key s in
      if pub = [] then []
      else [''identity'' @ (if nodeName cfg = [] then [] else '' '' @ [CHR 0x22] @ nodeName cfg @ [CHR 0x22]) @ '' pubkey: '' @ pub @
        ''  (share for peers' --trust)'']) @
     (if staticPeers cfg = [] then []
      else [''static peers:'' @ concat (map (\<lambda>p. '' '' @ sp_host p @ '':'' @ decimal (unat (sp_port p))) (staticPeers cfg))]) @
     [''type messages and press enter (Ctrl-D to quit)'']"

section \<open>The program\<close>

text \<open>The calls the main thread makes after \<open>start\<close>: a broadcast per line, and the stop.\<close>

definition chat_calls :: "string list \<Rightarrow> app_call list" where
  "chat_calls ls = map (\<lambda>l. Call_broadcast (str_bytes l)) ls @ [Call_stop False]"

text \<open>
  The main thread up to the join, as far as it acts on the node: the messages on standard error,
  the banner, and the node after the calls.  A thrown exception ends the program (\<open>Inl\<close>).
\<close>

definition chat_main ::
    "'k platform \<Rightarrow> nat \<Rightarrow> mesh_config \<Rightarrow> string list \<Rightarrow> string list \<Rightarrow> 'k \<Rightarrow> (string list \<times> ((int \<times> string) + string list \<times> 'k mesh_impl)) option" where
  "chat_main P n cfg0 argv ls os =
     (case chat_config cfg0 argv of (cfg, err) \<Rightarrow> do {
        (ex, s) \<leftarrow> mesh_start P n (set_callbacks chat_callbacks (mesh_impl_init cfg os));
        Some (err, case ex of Some e \<Rightarrow> Inl e | None \<Rightarrow> Inr (banner cfg s, fold (call_node P) (chat_calls ls) s)) })"

lemma chat_call_events: "call_events (chat_calls ls) = map (\<lambda>l. Broadcast (str_bytes l)) ls @ [Shutdown]"
  by (induction ls) (simp_all add: chat_calls_def)

section \<open>Ping\<close>

definition short_id :: "peer_id \<Rightarrow> string" where
  "short_id p = take 8 (to_string p)"

definition ping_callbacks :: callbacks where
  "ping_callbacks = \<lparr>cb_onPeerDiscovered = False, cb_onPeerConnected = True, cb_onPeerDisconnected = False, cb_onPeerLost = False,
     cb_onMemberJoined = False, cb_onMemberLeft = False, cb_onMessage = True, cb_onError = False\<rparr>"

text \<open>The lines a callback of \<open>mm_ping\<close> prints and the calls it makes on the node.\<close>

fun ping_call :: "'k mesh_impl \<Rightarrow> user_call \<Rightarrow> string list \<times> app_call list" where
  "ping_call s (OnPeerConnected p) = ([''connected to '' @ short_id p @ '', sending ping''],
     [Call_send p (str_bytes (''ping from '' @ short_id (nodeId (mi_cfg s))))])"
| "ping_call s (OnMessage p payload) =
     (let msg = bytes_str payload in
      ([short_id p @ ''> '' @ msg],
       if take 4 msg = ''ping'' then [Call_send p (str_bytes (''pong from '' @ short_id (nodeId (mi_cfg s))))] else []))"
| "ping_call s c = ([], [])"

text \<open>A ping is answered once, to its sender, and the answer is not answered.\<close>

lemma ping_exchange_ends:
  "snd (ping_call s (OnPeerConnected p)) = [Call_send p ping] \<Longrightarrow>
     \<exists>pong. snd (ping_call s' (OnMessage i ping)) = [Call_send i pong] \<and> snd (ping_call s (OnMessage p pong)) = []"
  by auto

section \<open>Numbers read back\<close>

lemma digit_char: "d < 10 \<Longrightarrow> isdigit (char_of (48 + d))" "d < 10 \<Longrightarrow> of_char (char_of (48 + d) :: char) = (48 + d :: nat)"
  by (simp_all add: isdigit_def of_char_of)

lemma decimal_digits: "c \<in> set (decimal n) \<Longrightarrow> isdigit c"
proof (induction n rule: decimal.induct)
  case (1 n)
  then show ?case by (subst (asm) (2) decimal.simps) (auto simp: digit_char split: if_splits)
qed

lemma decimal_nonempty [simp]: "decimal n \<noteq> []"
  by (subst decimal.simps) simp

lemma digits_value_snoc: "digits_value (ds @ [c]) = digits_value ds * 10 + (of_char c - 48)"
  by (simp add: digits_value_def)

lemma digits_value_decimal [simp]: "digits_value (decimal n) = n"
proof (induction n rule: decimal.induct)
  case (1 n)
  show ?case
  proof (cases "n < 10")
    case True
    then show ?thesis by (subst decimal.simps) (simp add: digits_value_def digit_char)
  next
    case False
    then show ?thesis using 1 by (subst decimal.simps) (simp add: digits_value_snoc digit_char)
  qed
qed

lemma digit_not_space: "isdigit c \<Longrightarrow> \<not> isspace c \<and> c \<noteq> CHR ''-'' \<and> c \<noteq> CHR ''+'' \<and> c \<noteq> CHR '':''"
  by (auto simp: isdigit_def isspace_def)

lemma strtoul_decimal:
  assumes "n < 2 ^ 64"
  shows "strtoul10 (decimal n) = of_nat n"
proof -
  obtain c cs where d: "decimal n = c # cs" by (cases "decimal n") (use decimal_nonempty [of n] in auto)
  have c: "isdigit c" using decimal_digits [of c n] d by simp
  have "dropWhile isspace (decimal n) = decimal n" using digit_not_space [OF c] d by simp
  moreover have "takeWhile isdigit (decimal n) = decimal n" using decimal_digits by (simp add: takeWhile_eq_all_conv)
  moreover have "hd (decimal n) \<noteq> CHR ''-''" "hd (decimal n) \<noteq> CHR ''+''" using digit_not_space [OF c] d by simp_all
  ultimately show ?thesis using assms by (simp add: strtoul10_def Let_def del: takeWhile_eq_all_conv)
qed

section \<open>The documented command line\<close>

datatype chat_opt = Opt_port u16 | Opt_psk string | Opt_identity string | Opt_name string | Opt_trust string "string option" | Opt_peer string u16

fun opt_args :: "chat_opt \<Rightarrow> string list" where
  "opt_args (Opt_port p) = [''--port'', decimal (unat p)]"
| "opt_args (Opt_psk v) = [''--psk'', v]"
| "opt_args (Opt_identity v) = [''--identity'', v]"
| "opt_args (Opt_name v) = [''--name'', v]"
| "opt_args (Opt_trust k None) = [''--trust'', k]"
| "opt_args (Opt_trust k (Some l)) = [''--trust'', k @ CHR ''='' # l]"
| "opt_args (Opt_peer h p) = [h @ CHR '':'' # decimal (unat p)]"

fun opt_set :: "chat_opt \<Rightarrow> mesh_config \<Rightarrow> mesh_config" where
  "opt_set (Opt_port p) cfg = cfg\<lparr>listenPort := p\<rparr>"
| "opt_set (Opt_psk v) cfg = cfg\<lparr>psk := v\<rparr>"
| "opt_set (Opt_identity v) cfg = cfg\<lparr>identityFile := v\<rparr>"
| "opt_set (Opt_name v) cfg = cfg\<lparr>nodeName := v\<rparr>"
| "opt_set (Opt_trust k l) cfg = cfg\<lparr>trustedKeys := trustedKeys cfg @ [\<lparr>tn_publicKeyHex = k, tn_label = (case l of None \<Rightarrow> [] | Some v \<Rightarrow> v)\<rparr>]\<rparr>"
| "opt_set (Opt_peer h p) cfg = cfg\<lparr>staticPeers := staticPeers cfg @ [\<lparr>sp_host = h, sp_port = p\<rparr>]\<rparr>"

fun opt_ok :: "chat_opt \<Rightarrow> bool" where
  "opt_ok (Opt_trust k l) = (CHR ''='' \<notin> set k)"
| "opt_ok (Opt_peer h p) = (h \<noteq> [] \<and> p \<noteq> 0)"
| "opt_ok _ = True"

lemma split_last_eq: "c \<notin> set d \<Longrightarrow> split_last c (h @ c # d) = Some (h, d)"
proof (induction h)
  case Nil
  then have "split_last c d = None" by (induction d) auto
  then show ?case by simp
qed simp

lemma port_back: "ucast (strtoul10 (decimal (unat (p :: u16)))) = p"
proof -
  have "unat p < 2 ^ 16" using unsigned_less [of p] by simp
  then have "strtoul10 (decimal (unat p)) = of_nat (unat p)" by (intro strtoul_decimal) simp
  moreover have "ucast (ucast p :: u64) = p" by (rule bit_eqI) (auto simp: bit_simps dest: bit_imp_le_length)
  ultimately show ?thesis by simp
qed

lemma endpoint_back:
  assumes "h \<noteq> []" "p \<noteq> 0"
  shows "parse_endpoint (h @ CHR '':'' # decimal (unat p)) = Some \<lparr>sp_host = h, sp_port = p\<rparr>"
proof -
  have "CHR '':'' \<notin> set (decimal (unat p))" using decimal_digits digit_not_space by blast
  then show ?thesis using assms by (simp add: parse_endpoint_def split_last_eq port_back)
qed

lemma trusted_back:
  assumes "CHR ''='' \<notin> set k"
  shows "trusted_arg k = \<lparr>tn_publicKeyHex = k, tn_label = []\<rparr>" "trusted_arg (k @ CHR ''='' # l) = \<lparr>tn_publicKeyHex = k, tn_label = l\<rparr>"
proof -
  have "takeWhile (\<lambda>c. c \<noteq> CHR ''='') k = k" "dropWhile (\<lambda>c. c \<noteq> CHR ''='') k = []" using assms by (auto simp: takeWhile_eq_all_conv)
  then show "trusted_arg k = \<lparr>tn_publicKeyHex = k, tn_label = []\<rparr>" "trusted_arg (k @ CHR ''='' # l) = \<lparr>tn_publicKeyHex = k, tn_label = l\<rparr>"
    using assms by (simp_all add: trusted_arg_def takeWhile_append dropWhile_append del: takeWhile_eq_all_conv dropWhile_eq_Nil_conv)
qed

lemma not_an_option: "a \<in> {''--port'', ''--psk'', ''--identity'', ''--name'', ''--trust''} \<Longrightarrow> CHR '':'' \<notin> set a"
  by auto

lemma chat_args_plain:
  assumes "CHR '':'' \<in> set a"
  shows "chat_args (a # argv) s = chat_args argv (chat_peer a s)"
proof (cases argv)
  case (Cons v rest)
  obtain cfg err where "s = (cfg, err)" by fastforce
  moreover have "a \<notin> {''--port'', ''--psk'', ''--identity'', ''--name'', ''--trust''}" using not_an_option assms by blast
  ultimately show ?thesis using Cons by simp
qed simp

lemma chat_args_opt:
  assumes "opt_ok t"
  shows "chat_args (opt_args t @ argv) (cfg, err) = chat_args argv (opt_set t cfg, err)"
  using assms by (cases "(t, cfg)" rule: opt_set.cases; cases t rule: opt_args.cases)
    (auto simp: port_back trusted_back chat_args_plain chat_peer_def endpoint_back)

lemma chat_args_opts: "\<forall>t\<in>set ts. opt_ok t \<Longrightarrow> chat_args (concat (map opt_args ts)) (cfg, err) = (fold opt_set ts cfg, err)"
  by (induction ts arbitrary: cfg) (simp_all add: chat_args_opt)

text \<open>
  C40: The command line works as its usage text says: a group name and any sequence of options
  (listening port, pre-shared key, identity file, name, trusted keys with or without a label) and
  of \<open>host:port\<close> peers, written out as arguments, configures exactly that group, those options and
  those static peers in their order, and nothing is reported as unrecognised.
\<close>

theorem chat_config_args:
  assumes "\<forall>t\<in>set ts. opt_ok t" "grp = [] \<or> hd grp \<noteq> CHR ''-''"
  shows "chat_config cfg (grp # concat (map opt_args ts)) = (fold opt_set ts (cfg\<lparr>groupName := grp\<rparr>), [])"
  using assms by (auto simp: chat_config_def chat_args_opts)

theorem chat_config_args_witness:
  "staticPeers (fst (chat_config (default_config zero_id) [''room'', ''--port'', ''45000'', ''--trust'', ''ab=bob'', ''b.example:45000''])) =
     [\<lparr>sp_host = ''b.example'', sp_port = 45000\<rparr>]"
proof -
  have d: "decimal (unat (45000 :: u16)) = ''45000''" by (simp add: decimal.simps char_of_def bit_0)
  have "chat_config (default_config zero_id) (''room'' # concat (map opt_args [Opt_port 45000, Opt_trust ''ab'' (Some ''bob''), Opt_peer ''b.example'' 45000])) =
    (fold opt_set [Opt_port 45000, Opt_trust ''ab'' (Some ''bob''), Opt_peer ''b.example'' 45000] ((default_config zero_id)\<lparr>groupName := ''room''\<rparr>), [])"
    by (rule chat_config_args) simp_all
  then show ?thesis using d by (simp add: default_config_def)
qed

end
