(* ===== verification/Spec2Isabelle.thy ===== *)
theory Spec2Isabelle
  imports Prelude PeerId Buffer Wire Config EventLoop GossipRouter MembershipView CryptoSession Sockets DiscoveryService
    PeerConnection ConnectionSteps ConnectionSafety ConnectionHandshake ConnectionMoves PeerManager ManagerSteps ManagerEvents ManagerRuns ManagerInvariant
    ManagerLab ManagerLabStatic ManagerSafety ManagerPolicy SocketOwner MeshImpl MeshStart MeshNode Chat
begin

text \<open>
  Verification of multimaster, a C++ library for decentralised meshes of nodes on a network.

  \<^bold>\<open>The program.\<close>  A node (class \<open>mesh\<close>, implemented by \<open>mesh_impl\<close>) runs one IO thread with an event
  loop on epoll.  A listener accepts TCP connections, a discovery service announces the node by
  multicast and hears other nodes, and the peer manager owns all connections: it dials peers,
  decides which connection of a pair survives, keeps static peers connected, and feeds received
  frames to the gossip router (duplicate suppression and forwarding), to the membership view (who
  is reachable) and to the identity gossip (signed names).  A connection runs the handshake, in a
  secured mesh with an authenticated key agreement, and seals the records after it.  The
  application talks to the node through a mailbox and gets callbacks from the IO thread.

  \<^bold>\<open>The theories, from the bottom up\<close> (sources under \<open>src/\<close>; a definition has the name of the C++
  function it translates, prefixed where that name is taken).

  \<^item> \<open>Prelude\<close>: bytes, machine words and texts, and the lemmas on them that all theories share.
  \<^item> \<open>PeerId\<close> (\<open>include/multimaster/peer_id.hpp\<close>, \<open>src/peer_id.cpp\<close>): identifiers with their order; the
    texts \<open>from_string\<close> accepts are characterised exactly.
  \<^item> \<open>Buffer\<close> (\<open>src/buffer.hpp\<close>): the compacting buffer implements a byte queue (locale \<open>byte_queue\<close>).
  \<^item> \<open>Wire\<close> (\<open>src/wire.hpp\<close>, \<open>src/wire.cpp\<close>): all encoders, and the decoder as a state monad with the
    sticky error flag; round trips, stability under later bytes, and prefixes.
  \<^item> \<open>Config\<close> (\<open>include/multimaster/config.hpp\<close>, \<open>events.hpp\<close>): every setting with its default.
  \<^item> \<open>EventLoop\<close> (\<open>src/event_loop.*\<close>): the operating system as a record of calls over an abstract
    world, timers, wakeups and the run loop; a pass fires exactly the due timers.
  \<^item> \<open>GossipRouter\<close> (\<open>src/gossip_router.*\<close>): duplicates are dropped while cached, message ids are
    distinct, and the sweep timer stops.
  \<^item> \<open>MembershipView\<close> (\<open>src/membership.*\<close>): the members are the connected component of the node, the
    events are the exact differences, versions make floods end.
  \<^item> \<open>CryptoSession\<close> (\<open>src/crypto.*\<close>): key derivation, handshake and records over libsodium as a
    parameter; agreement of both ends, streams that open in order, and the reflection.
  \<^item> \<open>Sockets\<close> (\<open>src/listener.*\<close>, \<open>make_addr\<close>) and \<open>SocketOwner\<close> (the class of \<open>src/socket.hpp\<close>): the
    listener with every failure, and the ownership of descriptors as a step relation.
  \<^item> \<open>DiscoveryService\<close> (\<open>src/discovery.*\<close>): setup with every failure, and which announces are admitted.
  \<^item> \<open>PeerConnection\<close> (\<open>src/peer_connection.*\<close>): the connection as operations on a record, its owner
    as a record of functions.  \<open>ConnectionSteps\<close> shows that every operation is a sequence of elementary
    steps (locale \<open>owner\<close> for what the connection asks of its owner); \<open>ConnectionSafety\<close>,
    \<open>ConnectionHandshake\<close> and \<open>ConnectionMoves\<close> draw the invariants, authentication and completion of
    the handshake from that.
  \<^item> \<open>PeerManager\<close> (\<open>src/peer_manager.*\<close>): the manager with an explicit store of connections by
    address.  \<open>ManagerSteps\<close>, \<open>ManagerEvents\<close> and \<open>ManagerRuns\<close> show that every callback and entry point
    is a sequence of elementary steps (interpreting \<open>owner\<close> and \<open>delivery_log\<close>), \<open>ManagerInvariant\<close>
    proves the invariant of its tables step by step, \<open>ManagerSafety\<close> and \<open>ManagerPolicy\<close> state what
    follows for all runs; \<open>ManagerLab\<close> and \<open>ManagerLabStatic\<close> evaluate it in small concrete worlds.
  \<^item> \<open>MeshImpl\<close> (\<open>src/mesh_impl.*\<close>; \<open>src/mesh.cpp\<close> forwards to it): construction, \<open>start\<close>, the mailbox,
    \<open>stop\<close> and join, the delegate, and the dispatch of the IO thread.  \<open>MeshStart\<close>: refusals of \<open>start\<close>,
    stable identities, a second start.  \<open>MeshNode\<close>: the node as a transition system in which the
    application's calls interleave with the handlers of the IO thread (locale \<open>loop_client\<close> for what
    the event loop asks of handlers, interpreted on the node), the order of the mailbox, and the
    invariant of every reachable node.
  \<^item> \<open>Chat\<close> (\<open>examples/chat.cpp\<close>, \<open>examples/ping.cpp\<close>): the command line and the callbacks of the examples.

  \<^bold>\<open>Conventions.\<close>  Fixed-width integers are words, chrono values are integers in nanoseconds or
  milliseconds as in the code.  Outcomes are values: a thrown exception is \<open>Inl\<close>, and \<open>None\<close> is
  a computation without a result, which is a loop that does not end, a dangling pointer, an
  invalidated iterator or another undefined operation.  So a theorem about a run that returns says
  what holds when the code has not run into undefined behaviour; the two cases where it does are
  proved to (\<open>zero_id_dangles\<close>, \<open>tick_redial_invalidates\<close>).  Hash containers are association lists or
  lists without repetition, iterated in list order.  Callbacks of the
  delegate are logged during an operation of the manager and performed after it, which is the same as
  long as they only post to the mailbox, as the API asks.  The number \<open>n\<close> that many
  operations of the manager carry bounds how deep closings nest (closing a connection may redial a
  static peer, whose failure closes again); the theorems hold for every bound, and the witnesses run
  with small ones.

  \<^bold>\<open>Parameters.\<close>  The kernel (\<open>'w sys\<close>, \<open>'w net\<close>), libsodium (\<open>'w sodium\<close>, absent in builds without it),
  files, clocks, random devices, name resolution and the allocator are arguments.  What is assumed of
  them is named: \<open>dh_agrees\<close>, \<open>aead_correct\<close>, \<open>hash_sized\<close>, \<open>memcmp_correct\<close>, \<open>sign_correct\<close>, \<open>files_ok\<close>,
  \<open>seeds_sized\<close>, \<open>send_bounded\<close>, \<open>recv_bounded\<close>.  Each has an instance in the witnesses.

  \<^bold>\<open>Not modelled.\<close>  Memory ordering and data races between the application's threads and the IO
  thread: steps are atomic, which the mutexes and atomics give for the mailbox and the snapshots, and
  which the second \<open>start\<close> violates (see \<open>start_again_extends_allowlist\<close>).  The forwarding class of
  \<open>src/mesh.cpp\<close> and the byte view of \<open>span.hpp\<close> have no state of their own.  Socket options and
  \<open>ip_to_string\<close> are single system calls.  Tests and build files are left out.  Secrecy is not stated:
  the cryptographic theorems are about what honest ends compute and about which checks precede
  acceptance, not about an attacker's knowledge.
\<close>

end
